(* ===== verification/Py_Base.thy ===== *)
theory Py_Base
  imports Main "HOL-Library.Word" "HOL-Library.Product_Lexorder" "HOL-Library.List_Lexorder"
    "HOL-Library.Char_ord"
begin

text \<open>
  The prelude of the development: the part of the Python language and of its standard library
  that the modelled sources use.
  \<^item> Exceptions are values (\<open>py_exc\<close>). A computation without state is a \<open>'a res\<close>, that is
    \<open>py_exc + 'a\<close>; a computation with state is a \<open>('s, 'a) sx\<close>, which returns the outcome
    and the state it leaves, also when it raises (a handler that catches the exception goes on from
    that state). \<open>Blocked\<close> is no exception of Python: the process waits for the network, and nothing after the
    call that waits is executed; no handler catches it.
  \<^item> Strings are lists of code points below 256 (\<open>string\<close>), bytes objects are lists of
    8-bit words, integers are \<open>int\<close>, dictionaries are association lists in insertion order.
  \<^item> \<open>str\<close> and \<open>int\<close> of decimal numerals, \<open>split\<close>, \<open>join\<close>,
    \<open>strip\<close>, and the fixed-width integer formats of \<open>struct\<close>.
  The collection \<open>py_simps\<close> holds the rewrite rules that the component proofs share.
\<close>

named_theorems py_simps \<open>rewrite rules of the modelled Python operations\<close>

section \<open>Exceptions and results\<close>

datatype py_exc =
    ValueError
  | TypeError
  | KeyError
  | IndexError
  | AttributeError
  | NameError
  | AssertionError
  | NotImplementedError
  | StructError
  | BinasciiError
  | RecursionError
  | LookupError
  | UnicodeDecodeError
  | OverflowError
  | OutOfModel
  | StatusVariableMismatch
  | BinLogNotEnabled
  | DBError
  | PyException string
  | SystemExit int
  | Blocked

type_synonym 'a res = "py_exc + 'a"

fun bind_res :: "'a res \<Rightarrow> ('a \<Rightarrow> 'b res) \<Rightarrow> 'b res" where
  "bind_res (Inl e) f = Inl e"
| "bind_res (Inr x) f = f x"

fun map_res :: "('a \<Rightarrow> 'b res) \<Rightarrow> 'a list \<Rightarrow> 'b list res" where
  "map_res f [] = Inr []"
| "map_res f (x # xs) = bind_res (f x) (\<lambda>y. bind_res (map_res f xs) (\<lambda>ys. Inr (y # ys)))"

fun fold_res :: "('b \<Rightarrow> 'a \<Rightarrow> 'b res) \<Rightarrow> 'b \<Rightarrow> 'a list \<Rightarrow> 'b res" where
  "fold_res f b [] = Inr b"
| "fold_res f b (x # xs) = bind_res (f b x) (\<lambda>b'. fold_res f b' xs)"

definition is_ok :: "'a res \<Rightarrow> bool" where
  "is_ok r = (case r of Inl _ \<Rightarrow> False | Inr _ \<Rightarrow> True)"

type_synonym ('s, 'a) sx = "'s \<Rightarrow> 'a res \<times> 's"

definition ret_sx :: "'a \<Rightarrow> ('s, 'a) sx" where
  "ret_sx x = (\<lambda>s. (Inr x, s))"

definition raise_sx :: "py_exc \<Rightarrow> ('s, 'a) sx" where
  "raise_sx e = (\<lambda>s. (Inl e, s))"

definition bind_sx :: "('s, 'a) sx \<Rightarrow> ('a \<Rightarrow> ('s, 'b) sx) \<Rightarrow> ('s, 'b) sx" where
  "bind_sx m f = (\<lambda>s. case m s of (Inl e, s') \<Rightarrow> (Inl e, s') | (Inr x, s') \<Rightarrow> f x s')"

definition lift_sx :: "'a res \<Rightarrow> ('s, 'a) sx" where
  "lift_sx r = (\<lambda>s. (r, s))"

fun map_sx :: "('a \<Rightarrow> ('s, 'b) sx) \<Rightarrow> 'a list \<Rightarrow> ('s, 'b list) sx" where
  "map_sx f [] = ret_sx []"
| "map_sx f (x # xs) = bind_sx (f x) (\<lambda>y. bind_sx (map_sx f xs) (\<lambda>ys. ret_sx (y # ys)))"

section \<open>Bytes and the integer formats of struct\<close>

type_synonym byte = "8 word"

type_synonym bytes = "byte list"

fun le_val :: "bytes \<Rightarrow> int" where
  "le_val [] = 0"
| "le_val (b # bs) = uint b + 256 * le_val bs"

fun le_bytes :: "nat \<Rightarrow> int \<Rightarrow> bytes" where
  "le_bytes 0 v = []"
| "le_bytes (Suc n) v = word_of_int (v mod 256) # le_bytes n (v div 256)"

definition be_val :: "bytes \<Rightarrow> int" where
  "be_val bs = le_val (rev bs)"

definition be_bytes :: "nat \<Rightarrow> int \<Rightarrow> bytes" where
  "be_bytes n v = rev (le_bytes n v)"

definition signed_val :: "nat \<Rightarrow> int \<Rightarrow> int" where
  "signed_val n v = (if 2 * v \<ge> 256 ^ n then v - 256 ^ n else v)"

definition pack_uint :: "nat \<Rightarrow> int \<Rightarrow> bytes res" where
  "pack_uint n v = (if 0 \<le> v \<and> v < 256 ^ n then Inr (le_bytes n v) else Inl StructError)"

definition unpack_uint :: "nat \<Rightarrow> bytes \<Rightarrow> int res" where
  "unpack_uint n bs = (if length bs = n then Inr (le_val bs) else Inl StructError)"

definition unpack_int :: "nat \<Rightarrow> bytes \<Rightarrow> int res" where
  "unpack_int n bs = (if length bs = n then Inr (signed_val n (le_val bs)) else Inl StructError)"

definition unpack_uint_be :: "nat \<Rightarrow> bytes \<Rightarrow> int res" where
  "unpack_uint_be n bs = (if length bs = n then Inr (be_val bs) else Inl StructError)"

definition unpack_int_be :: "nat \<Rightarrow> bytes \<Rightarrow> int res" where
  "unpack_int_be n bs = (if length bs = n then Inr (signed_val n (be_val bs)) else Inl StructError)"

section \<open>Decoding UTF-8\<close>

text \<open>\<open>bytes.decode()\<close> with strict errors. The code points of a well-formed input are
  \<open>utf8_points\<close>; text with a code point above 255 is not representable in \<open>string\<close>, which
  \<open>OutOfModel\<close> marks.\<close>

definition is_cont :: "byte \<Rightarrow> bool" where
  "is_cont b = (128 \<le> unat b \<and> unat b < 192)"

definition cont_bits :: "byte \<Rightarrow> nat" where
  "cont_bits b = unat b - 128"

definition points3 :: "byte \<Rightarrow> byte \<Rightarrow> byte \<Rightarrow> nat option" where
  "points3 a b c =
     (let p = (unat a - 224) * 4096 + cont_bits b * 64 + cont_bits c
      in if is_cont b \<and> is_cont c \<and> 2048 \<le> p \<and> \<not> (55296 \<le> p \<and> p < 57344) then Some p else None)"

definition points4 :: "byte \<Rightarrow> byte \<Rightarrow> byte \<Rightarrow> byte \<Rightarrow> nat option" where
  "points4 a b c d =
     (let p = (unat a - 240) * 262144 + cont_bits b * 4096 + cont_bits c * 64 + cont_bits d
      in if is_cont b \<and> is_cont c \<and> is_cont d \<and> 65536 \<le> p \<and> p < 1114112 then Some p else None)"

fun utf8_points :: "bytes \<Rightarrow> nat list option" where
  "utf8_points [] = Some []"
| "utf8_points (a # bs) =
     (if unat a < 128 then map_option ((#) (unat a)) (utf8_points bs)
      else if 194 \<le> unat a \<and> unat a < 224 then
        (case bs of
           b # r \<Rightarrow> if is_cont b
             then map_option ((#) ((unat a - 192) * 64 + cont_bits b)) (utf8_points r) else None
         | _ \<Rightarrow> None)
      else if 224 \<le> unat a \<and> unat a < 240 then
        (case bs of
           b # c # r \<Rightarrow>
             (case points3 a b c of None \<Rightarrow> None | Some p \<Rightarrow> map_option ((#) p) (utf8_points r))
         | _ \<Rightarrow> None)
      else if 240 \<le> unat a \<and> unat a < 245 then
        (case bs of
           b # c # d # r \<Rightarrow>
             (case points4 a b c d of None \<Rightarrow> None | Some p \<Rightarrow> map_option ((#) p) (utf8_points r))
         | _ \<Rightarrow> None)
      else None)"

definition decode_utf8 :: "bytes \<Rightarrow> string res" where
  "decode_utf8 bs =
     (case utf8_points bs of
        None \<Rightarrow> Inl UnicodeDecodeError
      | Some ps \<Rightarrow> if list_all (\<lambda>p. p < 256) ps then Inr (map char_of ps) else Inl OutOfModel)"

text \<open>\<open>bytes.decode(errors="ignore")\<close> drops the longest well-formed beginning of a sequence that
  turns out to be ill-formed.\<close>

definition second_ok :: "byte \<Rightarrow> byte \<Rightarrow> bool" where
  "second_ok a b =
     (is_cont b \<and> (unat a = 224 \<longrightarrow> 160 \<le> unat b) \<and> (unat a = 237 \<longrightarrow> unat b < 160)
        \<and> (unat a = 240 \<longrightarrow> 144 \<le> unat b) \<and> (unat a = 244 \<longrightarrow> unat b < 144))"

fun utf8_ignore :: "bytes \<Rightarrow> nat list" where
  "utf8_ignore [] = []"
| "utf8_ignore (a # bs) =
     (if unat a < 128 then unat a # utf8_ignore bs
      else if 194 \<le> unat a \<and> unat a < 224 then
        (case bs of
           b # r \<Rightarrow> if is_cont b then ((unat a - 192) * 64 + cont_bits b) # utf8_ignore r else utf8_ignore bs
         | [] \<Rightarrow> [])
      else if 224 \<le> unat a \<and> unat a < 240 then
        (case bs of
           b # r \<Rightarrow>
             if second_ok a b then
               (case r of
                  c # t \<Rightarrow>
                    if is_cont c then ((unat a - 224) * 4096 + cont_bits b * 64 + cont_bits c) # utf8_ignore t
                    else utf8_ignore r
                | [] \<Rightarrow> [])
             else utf8_ignore bs
         | [] \<Rightarrow> [])
      else if 240 \<le> unat a \<and> unat a < 245 then
        (case bs of
           b # r \<Rightarrow>
             if second_ok a b then
               (case r of
                  c # t \<Rightarrow>
                    if is_cont c then
                      (case t of
                         d # u \<Rightarrow>
                           if is_cont d then
                             ((unat a - 240) * 262144 + cont_bits b * 4096 + cont_bits c * 64 + cont_bits d) # utf8_ignore u
                           else utf8_ignore t
                       | [] \<Rightarrow> [])
                    else utf8_ignore r
                | [] \<Rightarrow> [])
             else utf8_ignore bs
         | [] \<Rightarrow> [])
      else utf8_ignore bs)"

definition decode_utf8_ignore :: "bytes \<Rightarrow> string res" where
  "decode_utf8_ignore bs =
     (let ps = utf8_ignore bs
      in if list_all (\<lambda>p. p < 256) ps then Inr (map char_of ps) else Inl OutOfModel)"

text \<open>Slices with one bound; a negative bound counts from the end.\<close>

definition slice_to :: "int \<Rightarrow> 'a list \<Rightarrow> 'a list" where
  "slice_to n xs = (if 0 \<le> n then take (nat n) xs else take (nat (int (length xs) + n)) xs)"

definition slice_from :: "int \<Rightarrow> 'a list \<Rightarrow> 'a list" where
  "slice_from n xs = (if 0 \<le> n then drop (nat n) xs else drop (nat (int (length xs) + n)) xs)"

definition index_at :: "'a list \<Rightarrow> nat \<Rightarrow> 'a res" where
  "index_at xs i = (if i < length xs then Inr (xs ! i) else Inl IndexError)"

section \<open>Decimal numerals\<close>

definition digit_char :: "nat \<Rightarrow> char" where
  "digit_char d = char_of (48 + d)"

definition char_digit :: "char \<Rightarrow> nat" where
  "char_digit c = of_char c - 48"

definition is_digit :: "char \<Rightarrow> bool" where
  "is_digit c = (48 \<le> (of_char c :: nat) \<and> (of_char c :: nat) \<le> 57)"

fun str_nat :: "nat \<Rightarrow> string" where
  "str_nat n = (if n < 10 then [digit_char n] else str_nat (n div 10) @ [digit_char (n mod 10)])"

declare str_nat.simps [simp del]

definition str_int :: "int \<Rightarrow> string" where
  "str_int i = (if i < 0 then CHR ''-'' # str_nat (nat (- i)) else str_nat (nat i))"

text \<open>The format \<open>0<width>d\<close>: zeros between the sign and the digits up to the width.\<close>

definition fmt_zero :: "nat \<Rightarrow> int \<Rightarrow> string" where
  "fmt_zero width i =
     (let sign = (if i < 0 then ''-'' else []); digits = str_nat (nat \<bar>i\<bar>)
      in sign @ replicate (width - length sign - length digits) CHR ''0'' @ digits)"

fun digits_val_acc :: "nat \<Rightarrow> string \<Rightarrow> nat" where
  "digits_val_acc acc [] = acc"
| "digits_val_acc acc (c # cs) = digits_val_acc (10 * acc + char_digit c) cs"

definition digits_val :: "string \<Rightarrow> nat" where
  "digits_val s = digits_val_acc 0 s"

section \<open>String methods\<close>

fun split_on :: "'a \<Rightarrow> 'a list \<Rightarrow> 'a list list" where
  "split_on c [] = [[]]"
| "split_on c (x # xs) =
     (if x = c then [] # split_on c xs
      else case split_on c xs of [] \<Rightarrow> [[x]] | w # ws \<Rightarrow> (x # w) # ws)"

fun join :: "'a list \<Rightarrow> 'a list list \<Rightarrow> 'a list" where
  "join sep [] = []"
| "join sep [x] = x"
| "join sep (x # y # zs) = x @ sep @ join sep (y # zs)"

definition strip :: "'a list \<Rightarrow> 'a list \<Rightarrow> 'a list" where
  "strip cs s = rev (dropWhile (\<lambda>c. c \<in> set cs) (rev (dropWhile (\<lambda>c. c \<in> set cs) s)))"

section \<open>Dictionaries\<close>

type_synonym ('k, 'v) dict = "('k \<times> 'v) list"

fun dict_set :: "'k \<Rightarrow> 'v \<Rightarrow> ('k, 'v) dict \<Rightarrow> ('k, 'v) dict" where
  "dict_set k v [] = [(k, v)]"
| "dict_set k v ((k', v') # d) = (if k' = k then (k, v) # d else (k', v') # dict_set k v d)"

definition dict_get :: "'k \<Rightarrow> ('k, 'v) dict \<Rightarrow> 'v res" where
  "dict_get k d = (case map_of d k of None \<Rightarrow> Inl KeyError | Some v \<Rightarrow> Inr v)"

definition dict_keys :: "('k, 'v) dict \<Rightarrow> 'k list" where
  "dict_keys d = map fst d"

definition dict_values :: "('k, 'v) dict \<Rightarrow> 'v list" where
  "dict_values d = map snd d"

section \<open>Lemmas on results and stateful computations\<close>

lemma bind_res_eq_Inr [simp]:
  "bind_res m f = Inr y \<longleftrightarrow> (\<exists>x. m = Inr x \<and> f x = Inr y)"
  by (cases m) auto

lemma bind_res_assoc: "bind_res (bind_res m f) g = bind_res m (\<lambda>x. bind_res (f x) g)"
  by (cases m) auto

lemma is_ok_simps [simp]: "is_ok (Inr x)" "\<not> is_ok (Inl e)"
  by (simp_all add: is_ok_def)

lemma is_ok_iff: "is_ok r \<longleftrightarrow> (\<exists>x. r = Inr x)"
  by (cases r) auto

lemma map_res_Inr: "(\<And>x. x \<in> set xs \<Longrightarrow> f x = Inr (g x)) \<Longrightarrow> map_res f xs = Inr (map g xs)"
  by (induction xs) auto

lemma map_res_length: "map_res f xs = Inr ys \<Longrightarrow> length ys = length xs"
  by (induction xs arbitrary: ys) auto

lemma map_res_map: "map_res f (map g xs) = map_res (\<lambda>x. f (g x)) xs"
  by (induction xs) auto

lemma fold_res_append:
  "fold_res f b (xs @ ys) = bind_res (fold_res f b xs) (\<lambda>b'. fold_res f b' ys)"
  by (induction xs arbitrary: b) (auto simp: bind_res_assoc)

lemma bind_sx_simps [simp, py_simps]:
  "bind_sx (ret_sx x) f = f x"
  "bind_sx (raise_sx e) f = raise_sx e"
  "ret_sx x s = (Inr x, s)"
  "raise_sx e s = (Inl e, s)"
  by (simp_all add: bind_sx_def ret_sx_def raise_sx_def)

lemma bind_sx_ok [py_simps]: "m s = (Inr x, s') \<Longrightarrow> bind_sx m f s = f x s'"
  by (simp add: bind_sx_def)

lemma bind_sx_err [py_simps]: "m s = (Inl e, s') \<Longrightarrow> bind_sx m f s = (Inl e, s')"
  by (simp add: bind_sx_def)

lemma lift_sx_simps [simp, py_simps]:
  "lift_sx (Inr x) = ret_sx x"
  "lift_sx (Inl e) = raise_sx e"
  by (simp_all add: lift_sx_def ret_sx_def raise_sx_def)

section \<open>Lemmas on bytes\<close>

lemma length_le_bytes [simp]: "length (le_bytes n v) = n"
  by (induction n arbitrary: v) auto

lemma le_val_nonneg [simp]: "0 \<le> le_val bs"
  by (induction bs) auto

lemma le_val_bound: "le_val bs < 256 ^ length bs"
proof (induction bs)
  case Nil
  then show ?case by simp
next
  case (Cons b bs)
  have "uint b < 256" using uint_lt2p [of b] by simp
  with Cons show ?case by simp
qed

lemma le_val_append: "le_val (xs @ ys) = le_val xs + 256 ^ length xs * le_val ys"
  by (induction xs) (auto simp: algebra_simps)

lemma uint_word_of_int_mod: "uint (word_of_int (v mod 256) :: byte) = v mod 256"
  by (simp add: uint_word_of_int)

lemma le_val_le_bytes:
  "0 \<le> v \<Longrightarrow> v < 256 ^ n \<Longrightarrow> le_val (le_bytes n v) = v"
proof (induction n arbitrary: v)
  case 0
  then show ?case by simp
next
  case (Suc n)
  have "0 \<le> v div 256" using Suc.prems by simp
  moreover have "v div 256 < 256 ^ n"
    using Suc.prems by (simp add: div_less_iff_less_mult mult.commute)
  ultimately have "le_val (le_bytes n (v div 256)) = v div 256"
    by (rule Suc.IH)
  then show ?case by (simp add: uint_word_of_int_mod)
qed

lemma le_bytes_le_val: "le_bytes (length bs) (le_val bs) = bs"
proof (induction bs)
  case Nil
  then show ?case by simp
next
  case (Cons b bs)
  have b: "0 \<le> uint b" "uint b < 256" using uint_lt2p [of b] by simp_all
  then have "(uint b + 256 * le_val bs) mod 256 = uint b"
    by (simp add: mod_pos_pos_trivial)
  moreover have "(uint b + 256 * le_val bs) div 256 = le_val bs"
    using b by simp
  ultimately show ?case using Cons by simp
qed

lemma length_be_bytes [simp]: "length (be_bytes n v) = n"
  by (simp add: be_bytes_def)

lemma be_val_be_bytes: "0 \<le> v \<Longrightarrow> v < 256 ^ n \<Longrightarrow> be_val (be_bytes n v) = v"
  by (simp add: be_val_def be_bytes_def le_val_le_bytes)

lemma be_val_bound: "be_val bs < 256 ^ length bs" "0 \<le> be_val bs"
  using le_val_bound [of "rev bs"] by (simp_all add: be_val_def)

lemma pack_uint_ok: "0 \<le> v \<Longrightarrow> v < 256 ^ n \<Longrightarrow> pack_uint n v = Inr (le_bytes n v)"
  by (simp add: pack_uint_def)

lemma unpack_uint_le_bytes:
  "0 \<le> v \<Longrightarrow> v < 256 ^ n \<Longrightarrow> unpack_uint n (le_bytes n v) = Inr v"
  by (simp add: unpack_uint_def le_val_le_bytes)

lemma unpack_pack_uint: "pack_uint n v = Inr bs \<Longrightarrow> unpack_uint n bs = Inr v"
  by (auto simp: pack_uint_def unpack_uint_le_bytes split: if_splits)

lemma signed_val_range:
  assumes "0 \<le> v" "v < 256 ^ n"
  shows "- (256 ^ n) \<le> 2 * signed_val n v" "2 * signed_val n v < 256 ^ n"
  using assms by (auto simp: signed_val_def)

lemma utf8_points_ascii: "\<forall>b \<in> set bs. unat b < 128 \<Longrightarrow> utf8_points bs = Some (map unat bs)"
  by (induction bs) auto

lemma decode_utf8_ascii: "\<forall>b \<in> set bs. unat b < 128 \<Longrightarrow> decode_utf8 bs = Inr (map (\<lambda>b. char_of (unat b)) bs)"
  by (auto simp: decode_utf8_def utf8_points_ascii list_all_iff)

lemma and_single_bit: "and k (push_bit n 1) = push_bit n (of_bool (bit k n))" for k :: int
  by (rule bit_eqI) (auto simp: bit_simps)

section \<open>Lemmas on decimal numerals\<close>

lemma digit_char_digit:
  assumes "d < 10"
  shows "char_digit (digit_char d) = d" "is_digit (digit_char d)"
  using assms by (simp_all add: char_digit_def digit_char_def is_digit_def)

lemma digit_char_literals [py_simps]:
  "digit_char 0 = CHR ''0''" "digit_char 1 = CHR ''1''" "digit_char (Suc 0) = CHR ''1''"
  "digit_char 2 = CHR ''2''" "digit_char 3 = CHR ''3''" "digit_char 4 = CHR ''4''"
  "digit_char 5 = CHR ''5''" "digit_char 6 = CHR ''6''" "digit_char 7 = CHR ''7''"
  "digit_char 8 = CHR ''8''" "digit_char 9 = CHR ''9''"
  by code_simp+

lemma digits_val_acc_append:
  "digits_val_acc acc (s @ t) = digits_val_acc (digits_val_acc acc s) t"
  by (induction s arbitrary: acc) auto

lemma digits_val_str_nat [simp]: "digits_val (str_nat n) = n"
proof (induction n rule: str_nat.induct)
  case (1 n)
  show ?case
  proof (cases "n < 10")
    case True
    then show ?thesis
      by (simp add: str_nat.simps [of n] digits_val_def digit_char_digit)
  next
    case False
    with "1.IH" have "digits_val_acc 0 (str_nat (n div 10)) = n div 10"
      by (simp add: digits_val_def)
    with False show ?thesis
      by (simp add: str_nat.simps [of n] digits_val_def digits_val_acc_append digit_char_digit)
  qed
qed

lemma str_nat_digits: "\<forall>c \<in> set (str_nat n). is_digit c"
proof (induction n rule: str_nat.induct)
  case (1 n)
  then show ?case
    by (cases "n < 10") (auto simp: str_nat.simps [of n] digit_char_digit)
qed

lemma str_nat_not_Nil [simp]: "str_nat n \<noteq> []"
  by (subst str_nat.simps) simp

lemma str_nat_inj: "str_nat m = str_nat n \<Longrightarrow> m = n"
  by (metis digits_val_str_nat)

lemma str_int_nonneg: "0 \<le> i \<Longrightarrow> str_int i = str_nat (nat i)"
  by (simp add: str_int_def)

lemma not_digit_chars [simp]:
  "\<not> is_digit CHR '':''" "\<not> is_digit CHR ''-''" "\<not> is_digit CHR '',''" "\<not> is_digit CHR '' ''"
  "\<not> is_digit (CHR 0x0A)" "\<not> is_digit CHR ''.''"
  by (simp_all add: is_digit_def)

lemma str_nat_notin: "\<not> is_digit c \<Longrightarrow> c \<notin> set (str_nat n)"
  using str_nat_digits by blast

section \<open>Lemmas on split, join and strip\<close>

lemma split_on_not_Nil [simp]: "split_on c s \<noteq> []"
  by (cases s) (auto split: list.splits)

lemma split_on_no_sep: "c \<notin> set s \<Longrightarrow> split_on c s = [s]"
  by (induction s) auto

lemma split_on_append: "c \<notin> set s \<Longrightarrow> split_on c (s @ c # t) = s # split_on c t"
  by (induction s) auto

lemma split_on_join:
  "xs \<noteq> [] \<Longrightarrow> (\<And>x. x \<in> set xs \<Longrightarrow> c \<notin> set x) \<Longrightarrow> split_on c (join [c] xs) = xs"
proof (induction "[c]" xs rule: join.induct)
  case (3 x y zs)
  then show ?case by (simp add: split_on_append)
qed (auto simp: split_on_no_sep)

lemma set_join: "set (join sep xs) \<subseteq> set sep \<union> (\<Union>x \<in> set xs. set x)"
  by (induction sep xs rule: join.induct) auto

lemma strip_id:
  assumes "s \<noteq> []" "hd s \<notin> set cs" "last s \<notin> set cs"
  shows "strip cs s = s"
proof -
  have "dropWhile (\<lambda>c. c \<in> set cs) s = s"
    using assms by (cases s) auto
  moreover have "dropWhile (\<lambda>c. c \<in> set cs) (rev s) = rev s"
    using assms by (cases s rule: rev_cases) auto
  ultimately show ?thesis by (simp add: strip_def)
qed

lemma strip_Cons: "c \<in> set cs \<Longrightarrow> strip cs (c # s) = strip cs s"
  by (simp add: strip_def)

section \<open>The dictionary interface\<close>

text \<open>
  What the clients of a dictionary rely on: lookup after a store, the keys after a store and the
  keys being distinct. The loop \<open>for k, v in d.items(): acc[k] = f(acc.get(k), v)\<close> is proved
  once here, for any dictionary that keeps these laws.
\<close>

locale dict_laws =
  fixes lookup :: "'d \<Rightarrow> 'k \<Rightarrow> 'v option"
    and store :: "'k \<Rightarrow> 'v \<Rightarrow> 'd \<Rightarrow> 'd"
    and wf_dict :: "'d \<Rightarrow> bool"
  assumes lookup_store: "lookup (store k v d) k' = (if k' = k then Some v else lookup d k')"
    and wf_store: "wf_dict d \<Longrightarrow> wf_dict (store k v d)"
begin

lemma lookup_fold_store:
  assumes "distinct (map fst kvs)"
  shows "lookup (fold (\<lambda>(k, v) acc. store k (f (lookup acc k) v) acc) kvs d) k =
    (case map_of kvs k of None \<Rightarrow> lookup d k | Some v \<Rightarrow> Some (f (lookup d k) v))"
  using assms
proof (induction kvs arbitrary: d)
  case Nil
  then show ?case by simp
next
  case (Cons kv kvs)
  obtain k0 v0 where kv: "kv = (k0, v0)" by (cases kv)
  from Cons.prems have "map_of kvs k0 = None"
    by (simp add: kv map_of_eq_None_iff)
  with Cons show ?case
    by (auto simp: kv lookup_store split: option.splits)
qed

lemma wf_fold_store:
  "wf_dict d \<Longrightarrow> wf_dict (fold (\<lambda>(k, v) acc. store k (f (lookup acc k) v) acc) kvs d)"
  by (induction kvs arbitrary: d) (auto intro: wf_store)

end

lemma map_of_dict_set [simp]: "map_of (dict_set k v d) k' = (if k' = k then Some v else map_of d k')"
  by (induction d) auto

lemma map_fst_dict_set:
  "map fst (dict_set k v d) = (if k \<in> set (map fst d) then map fst d else map fst d @ [k])"
  by (induction d) (auto, force)

lemma distinct_dict_set: "distinct (map fst d) \<Longrightarrow> distinct (map fst (dict_set k v d))"
  by (simp add: map_fst_dict_set del: list.map)

interpretation al: dict_laws map_of dict_set "\<lambda>d. distinct (map fst d)"
  by unfold_locales (simp_all add: distinct_dict_set)

lemma dict_get_set [simp]: "dict_get k (dict_set k v d) = Inr v"
  by (simp add: dict_get_def)

end
