(* ===== verification/Py_Regex.thy ===== *)
theory Py_Regex
  imports Py_Base
begin

text \<open>
  The regular expressions of Python's \<open>re\<close> module, as far as the sources use them: character
  classes, sequences, greedy \<open>?\<close> and \<open>*\<close>, capture groups and \<open>$\<close>. The matcher returns all
  matches in the order in which the backtracking engine tries them, so that the engine's answer is the
  head of the list. \<open>rx_match\<close> is a match at the start (a pattern with \<open>^\<close>),
  \<open>rx_search\<close> the leftmost match anywhere.
\<close>

datatype rx =
    Eps
  | Cls "char \<Rightarrow> bool"
  | Seq rx rx
  | Opt rx
  | Star rx
  | Cap nat rx
  | Eos

type_synonym captures = "(nat \<times> string) list"

function rx_run :: "rx \<Rightarrow> string \<Rightarrow> (string \<times> captures) list" where
  "rx_run Eps s = [(s, [])]"
| "rx_run (Cls p) s = (case s of [] \<Rightarrow> [] | c # cs \<Rightarrow> if p c then [(cs, [])] else [])"
| "rx_run (Seq a b) s =
     concat (map (\<lambda>(t, c). map (\<lambda>(u, d). (u, c @ d)) (rx_run b t)) (rx_run a s))"
| "rx_run (Opt a) s = rx_run a s @ [(s, [])]"
| "rx_run (Star a) s =
     concat (map (\<lambda>(t, c). if length t < length s
                            then map (\<lambda>(u, d). (u, c @ d)) (rx_run (Star a) t) else [])
              (rx_run a s)) @ [(s, [])]"
| "rx_run (Cap n a) s =
     map (\<lambda>(t, c). (t, c @ [(n, take (length s - length t) s)])) (rx_run a s)"
| "rx_run Eos s = (if s = [] \<or> s = [CHR 0x0A] then [(s, [])] else [])"
  by pat_completeness auto
termination
  by (relation "measures [\<lambda>(r, s). size r, \<lambda>(r, s). length s]") auto

definition rx_first :: "rx \<Rightarrow> string \<Rightarrow> (string \<times> captures) option" where
  "rx_first r s = (case rx_run r s of [] \<Rightarrow> None | x # _ \<Rightarrow> Some x)"

definition rx_match :: "rx \<Rightarrow> string \<Rightarrow> captures option" where
  "rx_match r s = map_option snd (rx_first r s)"

fun rx_search :: "rx \<Rightarrow> string \<Rightarrow> captures option" where
  "rx_search r [] = rx_match r []"
| "rx_search r (c # cs) =
     (case rx_match r (c # cs) of Some m \<Rightarrow> Some m | None \<Rightarrow> rx_search r cs)"

definition rx_group :: "captures \<Rightarrow> nat \<Rightarrow> string option" where
  "rx_group m n = map_of (rev m) n"

definition Plus :: "rx \<Rightarrow> rx" where
  "Plus r = Seq r (Star r)"

fun Rep :: "nat \<Rightarrow> rx \<Rightarrow> rx" where
  "Rep 0 r = Eps"
| "Rep (Suc n) r = Seq r (Rep n r)"

fun Seqs :: "rx list \<Rightarrow> rx" where
  "Seqs [] = Eps"
| "Seqs (r # rs) = Seq r (Seqs rs)"

definition Chr :: "char \<Rightarrow> rx" where
  "Chr c = Cls (\<lambda>x. x = c)"

definition to_lower :: "char \<Rightarrow> char" where
  "to_lower c = (let n = (of_char c :: nat) in if 65 \<le> n \<and> n \<le> 90 then char_of (n + 32) else c)"

definition Word_ci :: "string \<Rightarrow> rx" where
  "Word_ci w = Seqs (map (\<lambda>c. Cls (\<lambda>x. to_lower x = to_lower c)) w)"

definition is_space :: "char \<Rightarrow> bool" where
  "is_space c = (let n = (of_char c :: nat) in
     9 \<le> n \<and> n \<le> 13 \<or> 28 \<le> n \<and> n \<le> 32 \<or> n = 133 \<or> n = 160)"

definition is_wordchar :: "char \<Rightarrow> bool" where
  "is_wordchar c = (let n = (of_char c :: nat) in
     48 \<le> n \<and> n \<le> 57 \<or> 65 \<le> n \<and> n \<le> 90 \<or> n = 95 \<or> 97 \<le> n \<and> n \<le> 122 \<or>
     n \<in> {170, 178, 179, 181, 185, 186, 188, 189, 190} \<or>
     192 \<le> n \<and> n \<le> 214 \<or> 216 \<le> n \<and> n \<le> 246 \<or> 248 \<le> n \<and> n \<le> 255)"

definition is_hexdigit :: "char \<Rightarrow> bool" where
  "is_hexdigit c = (let n = (of_char c :: nat) in
     48 \<le> n \<and> n \<le> 57 \<or> 65 \<le> n \<and> n \<le> 70 \<or> 97 \<le> n \<and> n \<le> 102)"

lemma rx_first_Eps [simp]: "rx_first Eps s = Some (s, [])"
  by (simp add: rx_first_def)

lemma rx_first_Cls: "rx_first (Cls p) (c # cs) = (if p c then Some (cs, []) else None)"
  by (simp add: rx_first_def)

lemma rx_first_Seq:
  assumes "rx_first a s = Some (t, c)" "rx_first b t = Some (u, d)"
  shows "rx_first (Seq a b) s = Some (u, c @ d)"
  using assms by (auto simp: rx_first_def split: list.splits)

lemma rx_first_Opt: "rx_first a s = Some x \<Longrightarrow> rx_first (Opt a) s = Some x"
  by (auto simp: rx_first_def split: list.splits)

lemma rx_first_Opt_skip: "rx_run a s = [] \<Longrightarrow> rx_first (Opt a) s = Some (s, [])"
  by (simp add: rx_first_def)

lemma rx_first_Cap:
  "rx_first a s = Some (t, c) \<Longrightarrow>
   rx_first (Cap n a) s = Some (t, c @ [(n, take (length s - length t) s)])"
  by (auto simp: rx_first_def split: list.splits)

lemma rx_first_Eos [simp]: "rx_first Eos [] = Some ([], [])"
  by (simp add: rx_first_def)

lemma rx_run_Star_not_Nil: "rx_run (Star a) s \<noteq> []"
  by (subst rx_run.simps) simp

lemma rx_first_Star_step:
  assumes "rx_first a s = Some (t, c)" "length t < length s" "rx_first (Star a) t = Some (u, d)"
  shows "rx_first (Star a) s = Some (u, c @ d)"
proof -
  obtain xs where a: "rx_run a s = (t, c) # xs"
    using assms(1) by (auto simp: rx_first_def split: list.splits)
  obtain ys where b: "rx_run (Star a) t = (u, d) # ys"
    using assms(3) by (auto simp: rx_first_def simp del: rx_run.simps split: list.splits)
  show ?thesis
    unfolding rx_first_def rx_run.simps(5) [of a s] by (simp add: a b assms(2) del: rx_run.simps)
qed

lemma rx_first_Star_stop: "rx_run a s = [] \<Longrightarrow> rx_first (Star a) s = Some (s, [])"
  by (simp add: rx_first_def)

lemma rx_first_Star_Cls: "rx_first (Star (Cls p)) s = Some (dropWhile p s, [])"
proof (induction s)
  case Nil
  then show ?case by (simp add: rx_first_Star_stop)
next
  case (Cons x s)
  show ?case
  proof (cases "p x")
    case True
    then have "rx_first (Star (Cls p)) (x # s) = Some (dropWhile p s, [] @ [])"
      by (intro rx_first_Star_step [OF _ _ Cons.IH]) (simp_all add: rx_first_Cls)
    with True show ?thesis by simp
  next
    case False
    then show ?thesis by (simp add: rx_first_Star_stop)
  qed
qed

lemma rx_first_Plus_Cls:
  assumes "x \<noteq> []" "\<forall>c \<in> set x. p c" "y = [] \<or> \<not> p (hd y)"
  shows "rx_first (Plus (Cls p)) (x @ y) = Some (y, [])"
proof -
  obtain c cs where x: "x = c # cs" using assms(1) by (cases x) auto
  have "dropWhile p (cs @ y) = y"
    using assms(2,3) x by (cases y) (auto simp: dropWhile_append2)
  then have "rx_first (Star (Cls p)) (cs @ y) = Some (y, [])"
    by (simp add: rx_first_Star_Cls)
  moreover have "rx_first (Cls p) (c # cs @ y) = Some (cs @ y, [])"
    using assms(2) x by (simp add: rx_first_Cls)
  ultimately have "rx_first (Seq (Cls p) (Star (Cls p))) (c # cs @ y) = Some (y, [] @ [])"
    by (rule rx_first_Seq [rotated])
  then show ?thesis by (simp add: Plus_def x)
qed

lemma rx_first_Rep_Cls:
  "length x = n \<Longrightarrow> \<forall>c \<in> set x. p c \<Longrightarrow> rx_first (Rep n (Cls p)) (x @ y) = Some (y, [])"
proof (induction n arbitrary: x)
  case 0
  then show ?case by simp
next
  case (Suc n)
  then obtain c cs where x: "x = c # cs" by (cases x) auto
  have "rx_first (Rep n (Cls p)) (cs @ y) = Some (y, [])"
    using Suc.prems x by (intro Suc.IH) auto
  moreover have "rx_first (Cls p) (c # cs @ y) = Some (cs @ y, [])"
    using Suc.prems x by (simp add: rx_first_Cls)
  ultimately have "rx_first (Seq (Cls p) (Rep n (Cls p))) (c # cs @ y) = Some (y, [] @ [])"
    by (rule rx_first_Seq [rotated])
  then show ?case by (simp add: x)
qed

lemma rx_first_Chr [simp]: "rx_first (Chr c) (c # s) = Some (s, [])"
  by (simp add: Chr_def rx_first_Cls)

lemma rx_run_Chr_fail: "s = [] \<or> hd s \<noteq> c \<Longrightarrow> rx_run (Chr c) s = []"
  by (cases s) (auto simp: Chr_def)

lemma rx_run_Seq_fail: "rx_run a s = [] \<Longrightarrow> rx_run (Seq a b) s = []"
  by simp

lemma rx_match_first: "rx_first r s = Some (t, c) \<Longrightarrow> rx_match r s = Some c"
  by (simp add: rx_match_def)

lemma rx_search_first: "rx_first r s = Some (t, c) \<Longrightarrow> rx_search r s = Some c"
  by (cases s) (simp_all add: rx_match_first)

lemma rx_match_None: "rx_run r s = [] \<Longrightarrow> rx_match r s = None"
  by (simp add: rx_match_def rx_first_def)

lemma rx_first_Word_ci:
  "map to_lower x = map to_lower w \<Longrightarrow> rx_first (Word_ci w) (x @ y) = Some (y, [])"
proof (induction w arbitrary: x)
  case Nil
  then show ?case by (simp add: Word_ci_def)
next
  case (Cons c w)
  then obtain d ds where x: "x = d # ds" "to_lower d = to_lower c" "map to_lower ds = map to_lower w"
    by (cases x) auto
  have "rx_first (Word_ci (c # w)) (d # ds @ y) = Some (y, [] @ [])"
    unfolding Word_ci_def list.map Seqs.simps
    by (rule rx_first_Seq [where t = "ds @ y"])
      (use x Cons.IH [of ds] in \<open>simp_all add: rx_first_Cls Word_ci_def\<close>)
  then show ?case by (simp add: x)
qed

end
