(* ===== verification/Gtid.thy ===== *)
theory Gtid
  imports Py_Regex
begin

text \<open>
  \<open>pymysqlreplication/gtid.py\<close>, class \<open>Gtid\<close>: a server identifier with a list of right-open
  intervals of transaction numbers. The methods that raise return a \<open>res\<close>.
  The abstraction is \<open>trx\<close>, the set of transaction numbers of an interval list; the invariant
  \<open>wf_ivs\<close> says that the list is the canonical one (non-empty intervals, in order, not even
  touching). The lemmas show that adding, removing, testing and comparing intervals are union,
  difference, inclusion and equality of these sets, that the textual and the binary form are read
  back, and where the methods raise.
\<close>

section \<open>Definitions\<close>

type_synonym interval = "int \<times> int"

definition overlap :: "interval \<Rightarrow> interval \<Rightarrow> bool" where
  "overlap i1 i2 = (fst i1 < snd i2 \<and> snd i1 > fst i2)"

definition contains :: "interval \<Rightarrow> interval \<Rightarrow> bool" where
  "contains i1 i2 = (fst i2 \<ge> fst i1 \<and> snd i2 \<le> snd i1)"

record gtid =
  sid :: string
  intervals :: "interval list"

definition interval_rx :: rx where
  "interval_rx = Seqs
     [Cap 1 (Plus (Cls is_digit)),
      Opt (Seq (Chr CHR ''-'') (Cap 2 (Plus (Cls is_digit)))),
      Eos]"

definition group_text :: "captures \<Rightarrow> nat \<Rightarrow> string" where
  "group_text m n = (case rx_group m n of None \<Rightarrow> [] | Some s \<Rightarrow> s)"

definition parse_interval :: "string \<Rightarrow> interval res" where
  "parse_interval interval =
     (case rx_match interval_rx interval of
        None \<Rightarrow> Inl ValueError
      | Some m \<Rightarrow>
          let a = int (digits_val (group_text m 1));
              b = (if group_text m 2 = [] then a else int (digits_val (group_text m 2)))
          in Inr (a, b + 1))"

definition uuid_rx :: rx where
  "uuid_rx = Seqs
     [Rep 8 (Cls is_hexdigit),
      Rep 3 (Seq (Chr CHR ''-'') (Rep 4 (Cls is_hexdigit))),
      Chr CHR ''-'', Rep 12 (Cls is_hexdigit)]"

definition gtid_rx :: rx where
  "gtid_rx = Seqs
     [Cap 1 uuid_rx,
      Cap 2 (Plus (Seq (Chr CHR '':'') (Plus (Cls (\<lambda>c. is_digit c \<or> c = CHR ''-''))))),
      Eos]"

definition gtid_parse :: "string \<Rightarrow> (string \<times> interval list) res" where
  "gtid_parse gtid =
     (case rx_match gtid_rx gtid of
        None \<Rightarrow> Inl ValueError
      | Some m \<Rightarrow>
          bind_res (map_res parse_interval (tl (split_on CHR '':'' (group_text m 2))))
            (\<lambda>ivs. Inr (group_text m 1, ivs)))"

fun merge_loop :: "interval \<Rightarrow> interval list \<Rightarrow> interval list \<Rightarrow> interval \<times> interval list" where
  "merge_loop itvl [] new = (itvl, new)"
| "merge_loop itvl (existing # rest) new =
     (if fst itvl = snd existing then merge_loop (fst existing, snd itvl) rest new
      else if snd itvl = fst existing then merge_loop (fst itvl, snd existing) rest new
      else merge_loop itvl rest (new @ [existing]))"

definition add_interval :: "interval list \<Rightarrow> interval \<Rightarrow> interval list res" where
  "add_interval ivs itvl =
     (if fst itvl > snd itvl then Inl (PyException ''Malformed interval'')
      else if list_ex (\<lambda>x. overlap x itvl) ivs then Inl (PyException ''Overlapping interval'')
      else (case merge_loop itvl (sort ivs) [] of (itvl', new) \<Rightarrow> Inr (sort (new @ [itvl']))))"

fun split_loop :: "interval \<Rightarrow> interval list \<Rightarrow> interval list" where
  "split_loop itvl [] = []"
| "split_loop itvl (existing # rest) =
     (if overlap existing itvl
      then (if fst existing < fst itvl then [(fst existing, fst itvl)] else [])
           @ (if snd existing > snd itvl then [(snd itvl, snd existing)] else [])
      else [existing]) @ split_loop itvl rest"

definition sub_interval :: "interval list \<Rightarrow> interval \<Rightarrow> interval list res" where
  "sub_interval ivs itvl =
     (if fst itvl > snd itvl then Inl (PyException ''Malformed interval'')
      else if \<not> list_ex (\<lambda>x. overlap x itvl) ivs then Inr ivs
      else Inr (split_loop itvl (sort ivs)))"

definition gtid_contains :: "gtid \<Rightarrow> gtid \<Rightarrow> bool" where
  "gtid_contains self other =
     (if sid other \<noteq> sid self then False
      else list_all (\<lambda>them. list_ex (\<lambda>me. contains me them) (intervals self)) (intervals other))"

definition gtid_init :: "string \<Rightarrow> string option \<Rightarrow> interval list \<Rightarrow> gtid res" where
  "gtid_init gtid s ivs =
     bind_res
       (case s of
          Some s' \<Rightarrow> if s' \<noteq> [] then Inr (s', ivs) else gtid_parse gtid
        | None \<Rightarrow> gtid_parse gtid)
       (\<lambda>(s', ivs'). bind_res (fold_res add_interval [] ivs')
          (\<lambda>ivs''. Inr \<lparr>sid = s', intervals = ivs''\<rparr>))"

definition gtid_add :: "gtid \<Rightarrow> gtid \<Rightarrow> gtid res" where
  "gtid_add self other =
     (if sid self \<noteq> sid other then Inl (PyException ''Attempt to merge different SID'')
      else bind_res (fold_res add_interval (intervals self) (intervals other))
             (\<lambda>ivs. Inr (self\<lparr>intervals := ivs\<rparr>)))"

definition gtid_sub :: "gtid \<Rightarrow> gtid \<Rightarrow> gtid res" where
  "gtid_sub self other =
     (if sid self \<noteq> sid other then Inr self
      else bind_res (fold_res sub_interval (intervals self) (intervals other))
             (\<lambda>ivs. Inr (self\<lparr>intervals := ivs\<rparr>)))"

definition format_interval :: "interval \<Rightarrow> string" where
  "format_interval x =
     (if fst x + 1 \<noteq> snd x then str_int (fst x) @ ''-'' @ str_int (snd x - 1)
      else str_int (fst x))"

definition gtid_str :: "gtid \<Rightarrow> string" where
  "gtid_str self = sid self @ '':'' @ join '':'' (map format_interval (intervals self))"

definition gtid_encoded_length :: "gtid \<Rightarrow> int" where
  "gtid_encoded_length self = 16 + 8 + 2 * 8 * int (length (intervals self))"

definition hex_char :: "nat \<Rightarrow> char" where
  "hex_char d = (if d < 10 then char_of (48 + d) else char_of (87 + d))"

definition hex_digit :: "char \<Rightarrow> nat" where
  "hex_digit c = (let n = of_char c in
     if n \<le> 57 then n - 48 else if n \<le> 70 then n - 55 else n - 87)"

fun hexlify :: "bytes \<Rightarrow> string" where
  "hexlify [] = []"
| "hexlify (b # bs) = hex_char (unat b div 16) # hex_char (unat b mod 16) # hexlify bs"

fun unhex_pairs :: "string \<Rightarrow> bytes res" where
  "unhex_pairs [] = Inr []"
| "unhex_pairs [c] = Inl BinasciiError"
| "unhex_pairs (c # d # cs) =
     (if is_hexdigit c \<and> is_hexdigit d
      then bind_res (unhex_pairs cs) (\<lambda>bs. Inr (word_of_nat (16 * hex_digit c + hex_digit d) # bs))
      else Inl BinasciiError)"

definition unhexlify :: "string \<Rightarrow> bytes res" where
  "unhexlify s =
     (if list_ex (\<lambda>c. (of_char c :: nat) \<ge> 128) s then Inl ValueError
      else if odd (length s) then Inl BinasciiError
      else unhex_pairs s)"

fun encode_intervals :: "interval list \<Rightarrow> bytes res" where
  "encode_intervals [] = Inr []"
| "encode_intervals (iv # ivs) =
     bind_res (pack_uint 8 (fst iv)) (\<lambda>a. bind_res (pack_uint 8 (snd iv))
       (\<lambda>b. bind_res (encode_intervals ivs) (\<lambda>r. Inr (a @ b @ r))))"

definition gtid_encode :: "gtid \<Rightarrow> bytes res" where
  "gtid_encode self =
     bind_res (unhexlify (filter (\<lambda>c. c \<noteq> CHR ''-'') (sid self))) (\<lambda>s.
     bind_res (pack_uint 8 (int (length (intervals self)))) (\<lambda>n.
     bind_res (encode_intervals (intervals self)) (\<lambda>r. Inr (s @ n @ r))))"

text \<open>\<open>BytesIO.read\<close> returns what is left when fewer bytes are there; \<open>struct.unpack\<close>
  then raises. The reads of \<open>decode\<close> return the value and the rest of the payload.\<close>

fun decode_intervals :: "nat \<Rightarrow> bytes \<Rightarrow> (interval list \<times> bytes) res" where
  "decode_intervals 0 p = Inr ([], p)"
| "decode_intervals (Suc n) p =
     (if length (take 16 p) = 16
      then bind_res (decode_intervals n (drop 16 p))
             (\<lambda>(ivs, r). Inr ((le_val (take 8 p), le_val (take 8 (drop 8 p)) - 1) # ivs, r))
      else Inl StructError)"

definition decode_format :: "interval \<Rightarrow> string" where
  "decode_format x = str_int (fst x) @ ''-'' @ str_int (snd x)"

definition uuid_text :: "bytes \<Rightarrow> string" where
  "uuid_text p = hexlify (take 4 p) @ ''-'' @ hexlify (take 2 (drop 4 p)) @ ''-''
     @ hexlify (take 2 (drop 6 p)) @ ''-'' @ hexlify (take 2 (drop 8 p)) @ ''-''
     @ hexlify (take 6 (drop 10 p))"

definition gtid_decode :: "bytes \<Rightarrow> (gtid \<times> bytes) res" where
  "gtid_decode payload =
     bind_res (unpack_uint 8 (take 8 (drop 16 payload))) (\<lambda>n_intervals.
     bind_res (decode_intervals (nat n_intervals) (drop 24 payload)) (\<lambda>(ivs, rest).
     bind_res (gtid_init (uuid_text payload @ '':'' @ join '':'' (map decode_format ivs)) None [])
       (\<lambda>g. Inr (g, rest))))"

definition gtid_eq :: "gtid \<Rightarrow> gtid \<Rightarrow> bool" where
  "gtid_eq self other =
     (if sid other \<noteq> sid self then False else intervals self = intervals other)"

definition gtid_lt :: "gtid \<Rightarrow> gtid \<Rightarrow> bool" where
  "gtid_lt self other =
     (if sid other \<noteq> sid self then sid self < sid other else intervals self < intervals other)"

definition gtid_le :: "gtid \<Rightarrow> gtid \<Rightarrow> bool" where
  "gtid_le self other =
     (if sid other \<noteq> sid self then sid self \<le> sid other else intervals self \<le> intervals other)"

definition gtid_gt :: "gtid \<Rightarrow> gtid \<Rightarrow> bool" where
  "gtid_gt self other =
     (if sid other \<noteq> sid self then sid self > sid other else intervals self > intervals other)"

definition gtid_ge :: "gtid \<Rightarrow> gtid \<Rightarrow> bool" where
  "gtid_ge self other =
     (if sid other \<noteq> sid self then sid self \<ge> sid other else intervals self \<ge> intervals other)"

section \<open>The set of transactions and the canonical form\<close>

definition trx :: "interval list \<Rightarrow> int set" where
  "trx ivs = (\<Union>iv \<in> set ivs. {fst iv..<snd iv})"

definition before :: "interval \<Rightarrow> interval \<Rightarrow> bool" where
  "before x y = (snd x < fst y)"

definition wf_ivs :: "interval list \<Rightarrow> bool" where
  "wf_ivs ivs = (sorted_wrt before ivs \<and> (\<forall>iv \<in> set ivs. fst iv < snd iv))"

lemma trx_simps [simp]:
  "trx [] = {}"
  "trx (iv # ivs) = {fst iv..<snd iv} \<union> trx ivs"
  "trx (xs @ ys) = trx xs \<union> trx ys"
  by (auto simp: trx_def)

lemma trx_set: "set xs = set ys \<Longrightarrow> trx xs = trx ys"
  by (simp add: trx_def)

lemma wf_ivs_Cons: "wf_ivs (iv # ivs) \<longleftrightarrow>
    fst iv < snd iv \<and> wf_ivs ivs \<and> (\<forall>x \<in> set ivs. snd iv < fst x)"
  by (auto simp: wf_ivs_def before_def)

lemma wf_ivs_Nil [simp]: "wf_ivs []"
  by (simp add: wf_ivs_def)

lemma before_less: "before x y \<Longrightarrow> fst x \<le> snd x \<Longrightarrow> x < y"
  by (cases x; cases y) (auto simp: before_def)

lemma wf_ivs_sort: "wf_ivs ivs \<Longrightarrow> sort ivs = ivs"
proof -
  assume wf: "wf_ivs ivs"
  have "sorted_wrt (\<le>) ivs"
    by (rule sorted_wrt_mono_rel [of _ before])
      (use wf in \<open>auto simp: wf_ivs_def intro: less_imp_le before_less\<close>)
  then show ?thesis by (simp add: sort_key_id_if_sorted)
qed

lemma wf_ivs_sort_separated:
  assumes "distinct zs" and "\<forall>x \<in> set zs. fst x < snd x"
    and "\<And>x y. x \<in> set zs \<Longrightarrow> y \<in> set zs \<Longrightarrow> x \<noteq> y \<Longrightarrow> before x y \<or> before y x"
  shows "wf_ivs (sort zs)"
proof -
  have "sorted_wrt (<) (sort zs)"
    using assms(1) by (simp add: strict_sorted_iff)
  then have "sorted_wrt before (sort zs)"
  proof (rule sorted_wrt_mono_rel [rotated])
    fix x y assume x: "x \<in> set (sort zs)" and y: "y \<in> set (sort zs)" and "x < y"
    with assms(2,3) show "before x y"
      using before_less [of y x] by (metis less_imp_le not_less_iff_gr_or_eq set_sort)
  qed
  with assms(2) show ?thesis by (simp add: wf_ivs_def)
qed

lemma wf_ivs_separated:
  assumes "wf_ivs ivs" "x \<in> set ivs" "y \<in> set ivs" "x \<noteq> y"
  shows "before x y \<or> before y x"
  using assms by (induction ivs) (auto simp: wf_ivs_Cons before_def)

lemma wf_ivs_distinct: "wf_ivs ivs \<Longrightarrow> distinct ivs"
  by (induction ivs) (auto simp: wf_ivs_Cons)

lemma overlap_iff:
  assumes "fst x < snd x" "fst y < snd y"
  shows "overlap x y \<longleftrightarrow> {fst x..<snd x} \<inter> {fst y..<snd y} \<noteq> {}"
proof
  assume "overlap x y"
  with assms have "max (fst x) (fst y) \<in> {fst x..<snd x} \<inter> {fst y..<snd y}"
    by (auto simp: overlap_def)
  then show "{fst x..<snd x} \<inter> {fst y..<snd y} \<noteq> {}" by blast
next
  assume "{fst x..<snd x} \<inter> {fst y..<snd y} \<noteq> {}"
  then obtain t where "t \<in> {fst x..<snd x}" "t \<in> {fst y..<snd y}" by blast
  then show "overlap x y" by (auto simp: overlap_def)
qed

lemma list_ex_overlap_iff:
  assumes "wf_ivs ivs" "fst y < snd y"
  shows "list_ex (\<lambda>x. overlap x y) ivs \<longleftrightarrow> trx ivs \<inter> {fst y..<snd y} \<noteq> {}"
proof -
  have "list_ex (\<lambda>x. overlap x y) ivs \<longleftrightarrow>
      (\<exists>x \<in> set ivs. {fst x..<snd x} \<inter> {fst y..<snd y} \<noteq> {})"
    unfolding list_ex_iff using assms overlap_iff by (meson wf_ivs_def)
  also have "\<dots> \<longleftrightarrow> trx ivs \<inter> {fst y..<snd y} \<noteq> {}"
    by (simp only: trx_def) blast
  finally show ?thesis .
qed

section \<open>Adding and removing an interval\<close>

lemma merge_loop_correct:
  assumes "merge_loop itvl es new = (itvl', new')"
    and "wf_ivs es" "fst itvl < snd itvl" "\<forall>e \<in> set es. \<not> overlap e itvl"
    and "wf_ivs new" "\<forall>n \<in> set new. \<forall>e \<in> set es. before n e"
    and "\<forall>n \<in> set new. before n itvl \<or> before itvl n"
  shows "wf_ivs new' \<and> fst itvl' < snd itvl' \<and> (\<forall>n \<in> set new'. before n itvl' \<or> before itvl' n)
    \<and> {fst itvl'..<snd itvl'} \<union> trx new' = {fst itvl..<snd itvl} \<union> trx es \<union> trx new"
  using assms
proof (induction itvl es new rule: merge_loop.induct)
  case (1 itvl new)
  then show ?case by simp
next
  case (2 itvl e rest new)
  have e: "fst e < snd e" "wf_ivs rest" "\<forall>x \<in> set rest. snd e < fst x" "\<not> overlap e itvl"
    using "2.prems" by (simp_all add: wf_ivs_Cons)
  have rest: "\<And>x. x \<in> set rest \<Longrightarrow> fst x < snd x" using e(2) by (simp add: wf_ivs_def)
  consider (left) "fst itvl = snd e"
    | (right) "fst itvl \<noteq> snd e" "snd itvl = fst e"
    | (apart) "fst itvl \<noteq> snd e" "snd itvl \<noteq> fst e"
    by blast
  then show ?case
  proof cases
    case left
    have "{fst e..<snd itvl} = {fst itvl..<snd itvl} \<union> {fst e..<snd e}"
      using left e(1) "2.prems"(3) by auto
    moreover have "\<forall>x \<in> set rest. \<not> overlap x (fst e, snd itvl)"
      using "2.prems"(4) e(3) rest left by (fastforce simp: overlap_def)
    moreover have "\<forall>n \<in> set new. before n (fst e, snd itvl) \<or> before (fst e, snd itvl) n"
      using "2.prems"(6) by (auto simp: before_def)
    ultimately show ?thesis
      using "2.IH"(1) [OF left] "2.prems" left e by (auto simp: Un_ac)
  next
    case right
    have "{fst itvl..<snd e} = {fst itvl..<snd itvl} \<union> {fst e..<snd e}"
      using right e(1) "2.prems"(3) by auto
    moreover have "\<forall>x \<in> set rest. \<not> overlap x (fst itvl, snd e)"
      using e(3) by (fastforce simp: overlap_def)
    moreover have "\<forall>n \<in> set new. before n (fst itvl, snd e) \<or> before (fst itvl, snd e) n"
      using "2.prems"(5-7) right(2) by (fastforce simp: before_def wf_ivs_def)
    ultimately show ?thesis
      using "2.IH"(2) [OF right] "2.prems" right e by (auto simp: Un_ac)
  next
    case apart
    have "before e itvl \<or> before itvl e"
      using e(4) apart by (auto simp: overlap_def before_def)
    moreover have "wf_ivs (new @ [e])"
      using "2.prems"(5,6) e(1) by (simp add: wf_ivs_def sorted_wrt_append)
    moreover have "\<forall>n \<in> set (new @ [e]). \<forall>x \<in> set rest. before n x"
      using "2.prems"(6) e(3) by (auto simp: before_def)
    ultimately show ?thesis
      using "2.IH"(3) [OF apart] "2.prems" apart e by (auto simp: Un_ac)
  qed
qed

lemma add_interval_disjoint:
  assumes wf: "wf_ivs ivs" and ne: "fst itvl < snd itvl"
    and disj: "trx ivs \<inter> {fst itvl..<snd itvl} = {}"
  shows "\<exists>ivs'. add_interval ivs itvl = Inr ivs' \<and> wf_ivs ivs'
    \<and> trx ivs' = trx ivs \<union> {fst itvl..<snd itvl}"
proof -
  obtain i' new where m: "merge_loop itvl ivs [] = (i', new)"
    by (cases "merge_loop itvl ivs []")
  have no: "\<not> list_ex (\<lambda>x. overlap x itvl) ivs"
    using list_ex_overlap_iff [OF wf ne] disj by simp
  then have no': "\<forall>e \<in> set ivs. \<not> overlap e itvl" by (simp add: list_ex_iff)
  from merge_loop_correct [OF m wf ne no'] have
    r: "wf_ivs new" "fst i' < snd i'" "\<forall>n \<in> set new. before n i' \<or> before i' n"
    and t: "{fst i'..<snd i'} \<union> trx new = {fst itvl..<snd itvl} \<union> trx ivs"
    by auto
  have sep: "before x y \<or> before y x"
    if "x \<in> set (new @ [i'])" "y \<in> set (new @ [i'])" "x \<noteq> y" for x y
    using that r(3) wf_ivs_separated [OF r(1), of x y] by auto
  have "i' \<notin> set new" using r(2,3) by (auto simp: before_def)
  then have "wf_ivs (sort (new @ [i']))"
    using r wf_ivs_distinct [OF r(1)] by (intro wf_ivs_sort_separated sep) (auto simp: wf_ivs_def)
  moreover have "trx (sort (new @ [i'])) = trx ivs \<union> {fst itvl..<snd itvl}"
    using t by (subst trx_set [of _ "new @ [i']"]) auto
  moreover have "add_interval ivs itvl = Inr (sort (new @ [i']))"
    using no ne by (simp add: add_interval_def wf_ivs_sort [OF wf] m)
  ultimately show ?thesis by blast
qed

lemma add_interval_overlap:
  assumes "wf_ivs ivs" "fst itvl < snd itvl" "trx ivs \<inter> {fst itvl..<snd itvl} \<noteq> {}"
  shows "add_interval ivs itvl = Inl (PyException ''Overlapping interval'')"
  using assms by (simp add: add_interval_def list_ex_overlap_iff)

lemma split_loop_correct:
  assumes "wf_ivs ivs" "fst itvl < snd itvl"
  shows "wf_ivs (split_loop itvl ivs) \<and> trx (split_loop itvl ivs) = trx ivs - {fst itvl..<snd itvl}
    \<and> (\<forall>x \<in> set (split_loop itvl ivs). \<exists>y \<in> set ivs. fst y \<le> fst x)"
  using assms(1)
proof (induction ivs)
  case Nil
  then show ?case by simp
next
  case (Cons e ivs)
  then have wf: "fst e < snd e" "wf_ivs ivs" "\<forall>x \<in> set ivs. snd e < fst x"
    by (simp_all add: wf_ivs_Cons)
  have IH: "wf_ivs (split_loop itvl ivs)" "trx (split_loop itvl ivs) = trx ivs - {fst itvl..<snd itvl}"
    "\<forall>x \<in> set (split_loop itvl ivs). \<exists>y \<in> set ivs. fst y \<le> fst x"
    using Cons.IH wf(2) by simp_all
  have gap: "\<forall>x \<in> set (split_loop itvl ivs). snd e < fst x"
    using IH(3) wf(3) by fastforce
  show ?case
  proof (cases "overlap e itvl")
    case True
    then show ?thesis
      using IH gap wf(1,3) assms(2) by (auto simp: wf_ivs_Cons overlap_def)
  next
    case False
    then show ?thesis
      using IH gap wf(1) assms(2) by (auto simp: wf_ivs_Cons overlap_def)
  qed
qed

lemma sub_interval_correct:
  assumes "wf_ivs ivs" "fst itvl < snd itvl"
  shows "\<exists>ivs'. sub_interval ivs itvl = Inr ivs' \<and> wf_ivs ivs'
    \<and> trx ivs' = trx ivs - {fst itvl..<snd itvl}"
proof (cases "list_ex (\<lambda>x. overlap x itvl) ivs")
  case True
  then show ?thesis
    using split_loop_correct [OF assms] assms by (simp add: sub_interval_def wf_ivs_sort)
next
  case False
  then have "trx ivs - {fst itvl..<snd itvl} = trx ivs"
    using list_ex_overlap_iff [OF assms] by blast
  with False show ?thesis using assms by (simp add: sub_interval_def)
qed

section \<open>Whole Gtids as sets of transactions\<close>

definition wf_gtid :: "gtid \<Rightarrow> bool" where
  "wf_gtid g = wf_ivs (intervals g)"

definition gtid_trx :: "gtid \<Rightarrow> int set" where
  "gtid_trx g = trx (intervals g)"

lemma trx_gt: "wf_ivs (iv # ivs) \<Longrightarrow> t \<in> trx ivs \<Longrightarrow> snd iv < t"
  by (fastforce simp: wf_ivs_Cons trx_def)

lemma wf_ivs_disjoint_tail: "wf_ivs (iv # ivs) \<Longrightarrow> trx ivs \<inter> {fst iv..<snd iv} = {}"
  using trx_gt by fastforce

lemma fold_add_disjoint:
  assumes "wf_ivs ivs" "wf_ivs os" "trx ivs \<inter> trx os = {}"
  shows "\<exists>r. fold_res add_interval ivs os = Inr r \<and> wf_ivs r \<and> trx r = trx ivs \<union> trx os"
  using assms
proof (induction os arbitrary: ivs)
  case Nil
  then show ?case by simp
next
  case (Cons iv os)
  have iv: "fst iv < snd iv" "wf_ivs os" "trx os \<inter> {fst iv..<snd iv} = {}"
    using Cons.prems(2) wf_ivs_disjoint_tail by (simp_all add: wf_ivs_Cons)
  have "trx ivs \<inter> {fst iv..<snd iv} = {}" using Cons.prems(3) by auto
  then obtain r where r: "add_interval ivs iv = Inr r" "wf_ivs r"
      "trx r = trx ivs \<union> {fst iv..<snd iv}"
    using add_interval_disjoint Cons.prems(1) iv(1) by blast
  moreover have "trx r \<inter> trx os = {}" using r(3) Cons.prems(3) iv(3) by auto
  ultimately obtain r' where "fold_res add_interval r os = Inr r'" "wf_ivs r'"
      "trx r' = trx r \<union> trx os"
    using Cons.IH iv(2) by blast
  with r show ?case by auto
qed

lemma fold_add_overlap:
  assumes "wf_ivs ivs" "wf_ivs os" "trx ivs \<inter> trx os \<noteq> {}"
  shows "fold_res add_interval ivs os = Inl (PyException ''Overlapping interval'')"
  using assms
proof (induction os arbitrary: ivs)
  case Nil
  then show ?case by simp
next
  case (Cons iv os)
  have iv: "fst iv < snd iv" "wf_ivs os"
    using Cons.prems(2) by (simp_all add: wf_ivs_Cons)
  show ?case
  proof (cases "trx ivs \<inter> {fst iv..<snd iv} = {}")
    case True
    then obtain r where r: "add_interval ivs iv = Inr r" "wf_ivs r"
        "trx r = trx ivs \<union> {fst iv..<snd iv}"
      using add_interval_disjoint Cons.prems(1) iv(1) by blast
    moreover have "trx r \<inter> trx os \<noteq> {}" using r(3) Cons.prems(3) True by auto
    ultimately show ?thesis using Cons.IH iv(2) by simp
  next
    case False
    then show ?thesis using add_interval_overlap Cons.prems(1) iv(1) by simp
  qed
qed

lemma fold_sub:
  assumes "wf_ivs ivs" "wf_ivs os"
  shows "\<exists>r. fold_res sub_interval ivs os = Inr r \<and> wf_ivs r \<and> trx r = trx ivs - trx os"
  using assms
proof (induction os arbitrary: ivs)
  case Nil
  then show ?case by simp
next
  case (Cons iv os)
  have iv: "fst iv < snd iv" "wf_ivs os" using Cons.prems(2) by (simp_all add: wf_ivs_Cons)
  obtain r where r: "sub_interval ivs iv = Inr r" "wf_ivs r" "trx r = trx ivs - {fst iv..<snd iv}"
    using sub_interval_correct Cons.prems(1) iv(1) by blast
  moreover obtain r' where "fold_res sub_interval r os = Inr r'" "wf_ivs r'" "trx r' = trx r - trx os"
    using Cons.IH r(2) iv(2) by blast
  ultimately show ?case by auto
qed

lemma gtid_add_disjoint:
  assumes "wf_gtid g" "wf_gtid h" "sid g = sid h" "gtid_trx g \<inter> gtid_trx h = {}"
  shows "\<exists>r. gtid_add g h = Inr r \<and> wf_gtid r \<and> sid r = sid g
    \<and> gtid_trx r = gtid_trx g \<union> gtid_trx h"
  using fold_add_disjoint [of "intervals g" "intervals h"] assms
  by (auto simp: gtid_add_def wf_gtid_def gtid_trx_def)

lemma gtid_add_overlap:
  assumes "wf_gtid g" "wf_gtid h" "sid g = sid h" "gtid_trx g \<inter> gtid_trx h \<noteq> {}"
  shows "gtid_add g h = Inl (PyException ''Overlapping interval'')"
  using fold_add_overlap [of "intervals g" "intervals h"] assms
  by (simp add: gtid_add_def wf_gtid_def gtid_trx_def)

lemma gtid_sub_same_sid:
  assumes "wf_gtid g" "wf_gtid h" "sid g = sid h"
  shows "\<exists>r. gtid_sub g h = Inr r \<and> wf_gtid r \<and> sid r = sid g \<and> gtid_trx r = gtid_trx g - gtid_trx h"
  using fold_sub [of "intervals g" "intervals h"] assms
  by (auto simp: gtid_sub_def wf_gtid_def gtid_trx_def)

lemma contains_iff_subset:
  assumes "wf_ivs mine" "fst y < snd y"
  shows "list_ex (\<lambda>me. contains me y) mine \<longleftrightarrow> {fst y..<snd y} \<subseteq> trx mine"
proof
  assume "list_ex (\<lambda>me. contains me y) mine"
  then obtain me where me: "me \<in> set mine" "fst me \<le> fst y" "snd y \<le> snd me"
    by (auto simp: list_ex_iff contains_def)
  then have "{fst y..<snd y} \<subseteq> {fst me..<snd me}" by auto
  with me(1) show "{fst y..<snd y} \<subseteq> trx mine" by (auto simp: trx_def)
next
  assume sub: "{fst y..<snd y} \<subseteq> trx mine"
  then have "fst y \<in> trx mine" using assms(2) by auto
  then obtain me where me: "me \<in> set mine" "fst me \<le> fst y" "fst y < snd me"
    by (auto simp: trx_def)
  have "snd y \<le> snd me"
  proof (rule ccontr)
    assume "\<not> snd y \<le> snd me"
    then have "snd me \<in> trx mine" using sub me(3) by auto
    then obtain m2 where m2: "m2 \<in> set mine" "fst m2 \<le> snd me" "snd me < snd m2"
      by (auto simp: trx_def)
    then have "before me m2 \<or> before m2 me"
      using wf_ivs_separated [OF assms(1)] me(1) by blast
    with m2 me show False by (auto simp: before_def)
  qed
  with me show "list_ex (\<lambda>me. contains me y) mine"
    by (auto simp: list_ex_iff contains_def)
qed

lemma gtid_contains_iff:
  assumes "wf_gtid g" "wf_gtid h"
  shows "gtid_contains g h \<longleftrightarrow> sid h = sid g \<and> gtid_trx h \<subseteq> gtid_trx g"
proof -
  have "list_all (\<lambda>t. list_ex (\<lambda>me. contains me t) (intervals g)) (intervals h) \<longleftrightarrow>
      (\<forall>t \<in> set (intervals h). {fst t..<snd t} \<subseteq> gtid_trx g)"
    unfolding list_all_iff gtid_trx_def
    using assms contains_iff_subset by (metis wf_gtid_def wf_ivs_def)
  also have "\<dots> \<longleftrightarrow> gtid_trx h \<subseteq> gtid_trx g" by (simp only: gtid_trx_def trx_def) blast
  finally show ?thesis by (simp add: gtid_contains_def)
qed

section \<open>The canonical form is unique\<close>

lemma wf_ivs_head_unique:
  assumes "wf_ivs (x # xs)" "wf_ivs (y # ys)" "trx (x # xs) = trx (y # ys)"
  shows "fst x \<le> fst y \<and> snd x \<le> snd y"
proof
  have x: "fst x < snd x" and y: "fst y < snd y" using assms(1,2) by (simp_all add: wf_ivs_Cons)
  have "fst y \<in> trx (x # xs)" unfolding assms(3) using y by simp
  then show "fst x \<le> fst y" using x trx_gt [OF assms(1), of "fst y"] by auto
  show "snd x \<le> snd y"
  proof (rule ccontr)
    assume less: "\<not> snd x \<le> snd y"
    have "snd y \<notin> trx (y # ys)" using trx_gt [OF assms(2), of "snd y"] by auto
    moreover have "snd y \<in> trx (x # xs)" using less y \<open>fst x \<le> fst y\<close> by auto
    ultimately show False using assms(3) by blast
  qed
qed

lemma wf_ivs_unique: "wf_ivs xs \<Longrightarrow> wf_ivs ys \<Longrightarrow> trx xs = trx ys \<Longrightarrow> xs = ys"
proof (induction xs arbitrary: ys)
  case Nil
  then have "ys = []" by (cases ys) (auto simp: wf_ivs_Cons)
  then show ?case by simp
next
  case (Cons x xs)
  then have "ys \<noteq> []" by (auto simp: wf_ivs_Cons)
  then obtain y ys' where ys: "ys = y # ys'" by (cases ys) auto
  have xy: "x = y"
    using wf_ivs_head_unique [OF Cons.prems(1)] wf_ivs_head_unique [of y ys' x xs] Cons.prems ys
    by (metis order_antisym prod_eqI)
  have "trx xs = trx (x # xs) - {fst x..<snd x}"
    using wf_ivs_disjoint_tail [OF Cons.prems(1)] by auto
  also have "\<dots> = trx ys'"
    using wf_ivs_disjoint_tail [of y ys'] Cons.prems ys xy by auto
  finally have "xs = ys'" using Cons ys by (auto simp: wf_ivs_Cons)
  with xy ys show ?case by simp
qed

section \<open>The order of Gtids\<close>

text \<open>The comparison methods are those of the lexicographic order on the server identifier and the
  interval list; the record type is made an instance of the library's linear orders with it.\<close>

instantiation gtid_ext :: (linorder) linorder
begin

definition less_eq_gtid_ext :: "'a gtid_ext \<Rightarrow> 'a gtid_ext \<Rightarrow> bool" where
  "less_eq_gtid_ext g h =
     ((sid g, intervals g, gtid.more g) \<le> (sid h, intervals h, gtid.more h))"

definition less_gtid_ext :: "'a gtid_ext \<Rightarrow> 'a gtid_ext \<Rightarrow> bool" where
  "less_gtid_ext g h =
     ((sid g, intervals g, gtid.more g) < (sid h, intervals h, gtid.more h))"

instance
  by standard (auto simp: less_eq_gtid_ext_def less_gtid_ext_def)

end

lemma gtid_order_methods:
  "gtid_le g h \<longleftrightarrow> g \<le> h" "gtid_lt g h \<longleftrightarrow> g < h"
  "gtid_ge g h \<longleftrightarrow> h \<le> g" "gtid_gt g h \<longleftrightarrow> h < g" "gtid_eq g h \<longleftrightarrow> g = h"
  by (auto simp: gtid_le_def gtid_lt_def gtid_ge_def gtid_gt_def gtid_eq_def
      less_eq_gtid_ext_def less_gtid_ext_def)

section \<open>What the set of Gtids relies on\<close>

text \<open>The contract of a Gtid towards its container: adding two Gtids with the same key is the union
  when they are disjoint and raises otherwise.\<close>

locale keyed_sets =
  fixes key :: "'g \<Rightarrow> 'k"
    and den :: "'g \<Rightarrow> int set"
    and inv :: "'g \<Rightarrow> bool"
    and plus :: "'g \<Rightarrow> 'g \<Rightarrow> 'g res"
  assumes plus_disjoint: "inv a \<Longrightarrow> inv b \<Longrightarrow> key a = key b \<Longrightarrow> den a \<inter> den b = {} \<Longrightarrow>
      \<exists>c. plus a b = Inr c \<and> inv c \<and> key c = key a \<and> den c = den a \<union> den b"
    and plus_clash: "inv a \<Longrightarrow> inv b \<Longrightarrow> key a = key b \<Longrightarrow> den a \<inter> den b \<noteq> {} \<Longrightarrow>
      \<exists>e. plus a b = Inl e"

interpretation gtid_sets: keyed_sets sid gtid_trx wf_gtid gtid_add
  using gtid_add_disjoint gtid_add_overlap by unfold_locales blast+

section \<open>Correctness of the operations of Gtid\<close>

lemma fold_add_nonempty:
  assumes "wf_ivs ivs" "\<forall>iv \<in> set os. fst iv < snd iv" "fold_res add_interval ivs os = Inr r"
  shows "wf_ivs r \<and> trx r = trx ivs \<union> trx os"
  using assms
proof (induction os arbitrary: ivs)
  case Nil
  then show ?case by simp
next
  case (Cons iv os)
  then obtain m where m: "add_interval ivs iv = Inr m" "fold_res add_interval m os = Inr r" by auto
  have iv: "fst iv < snd iv" using Cons.prems(2) by simp
  have "trx ivs \<inter> {fst iv..<snd iv} = {}"
    using add_interval_overlap [OF Cons.prems(1) iv] m(1) by auto
  with add_interval_disjoint [OF Cons.prems(1) iv] m(1)
  have "wf_ivs m" "trx m = trx ivs \<union> {fst iv..<snd iv}" by auto
  with Cons.IH [of m] Cons.prems(2) m(2) show ?case by auto
qed

text \<open>C12: \<open>a + b\<close> of two canonical Gtids of the same server is their union, in canonical form again,
  when they have no transaction in common, and raises the overlap exception otherwise.\<close>

theorem gtid_add_union:
  assumes "wf_gtid g" "wf_gtid h" "sid g = sid h"
  shows "if gtid_trx g \<inter> gtid_trx h = {}
    then \<exists>r. gtid_add g h = Inr r \<and> wf_gtid r \<and> sid r = sid g \<and> gtid_trx r = gtid_trx g \<union> gtid_trx h
    else gtid_add g h = Inl (PyException ''Overlapping interval'')"
  using gtid_add_disjoint [OF assms] gtid_add_overlap [OF assms] by simp

theorem gtid_add_union_witness:
  "gtid_add \<lparr>sid = ''a'', intervals = [(1, 5), (9, 11)]\<rparr> \<lparr>sid = ''a'', intervals = [(5, 9)]\<rparr>
     = Inr \<lparr>sid = ''a'', intervals = [(1, 11)]\<rparr>
   \<and> gtid_add \<lparr>sid = ''a'', intervals = [(1, 5)]\<rparr> \<lparr>sid = ''a'', intervals = [(4, 9)]\<rparr>
     = Inl (PyException ''Overlapping interval'')"
proof
  let ?g = "\<lparr>sid = ''a'', intervals = [(1, 5), (9, 11)]\<rparr>" and ?h = "\<lparr>sid = ''a'', intervals = [(5, 9)]\<rparr>"
  have w: "wf_gtid ?g" "wf_gtid ?h" "wf_gtid \<lparr>sid = ''a'', intervals = [(1, 11)]\<rparr>"
    by (simp_all add: wf_gtid_def wf_ivs_Cons)
  have d: "gtid_trx ?g \<inter> gtid_trx ?h = {}" by (auto simp: gtid_trx_def)
  obtain r where r: "gtid_add ?g ?h = Inr r" "wf_gtid r" "sid r = ''a''" "gtid_trx r = gtid_trx ?g \<union> gtid_trx ?h"
    using gtid_add_union [OF w(1,2)] d by auto
  have "{1::int..<5} \<union> {9..<11} \<union> {5..<9} = {1..<11}" by auto
  then have "trx (intervals r) = trx [(1, 11)]" using r(4) by (simp add: gtid_trx_def Un_assoc)
  then have "intervals r = [(1, 11)]" using r(2) w(3) wf_ivs_unique by (simp add: wf_gtid_def)
  with r(1,3) show "gtid_add ?g ?h = Inr \<lparr>sid = ''a'', intervals = [(1, 11)]\<rparr>" by simp
next
  let ?g = "\<lparr>sid = ''a'', intervals = [(1, 5)]\<rparr>" and ?h = "\<lparr>sid = ''a'', intervals = [(4, 9)]\<rparr>"
  have w: "wf_gtid ?g" "wf_gtid ?h" by (simp_all add: wf_gtid_def wf_ivs_Cons)
  have "4 \<in> gtid_trx ?g \<inter> gtid_trx ?h" by (auto simp: gtid_trx_def)
  then show "gtid_add ?g ?h = Inl (PyException ''Overlapping interval'')"
    using gtid_add_union [OF w] by (auto split: if_splits)
qed

text \<open>C13: \<open>a - b\<close> never raises on canonical Gtids: it removes the transactions of \<open>b\<close> and keeps the
  canonical form, and leaves \<open>a\<close> unchanged when the servers differ.\<close>

theorem gtid_sub_difference:
  assumes "wf_gtid g" "wf_gtid h"
  shows "\<exists>r. gtid_sub g h = Inr r \<and> wf_gtid r \<and> sid r = sid g
    \<and> gtid_trx r = (if sid g = sid h then gtid_trx g - gtid_trx h else gtid_trx g)"
proof (cases "sid g = sid h")
  case True
  with gtid_sub_same_sid [OF assms] show ?thesis by simp
next
  case False
  with assms show ?thesis by (simp add: gtid_sub_def)
qed

theorem gtid_sub_difference_witness:
  "\<exists>r. gtid_sub \<lparr>sid = ''a'', intervals = [(1, 10)]\<rparr> \<lparr>sid = ''a'', intervals = [(4, 6)]\<rparr> = Inr r
    \<and> wf_gtid r \<and> 3 \<in> gtid_trx r \<and> 4 \<notin> gtid_trx r \<and> 5 \<notin> gtid_trx r \<and> 6 \<in> gtid_trx r"
  using gtid_sub_difference [of "\<lparr>sid = ''a'', intervals = [(1, 10)]\<rparr>" "\<lparr>sid = ''a'', intervals = [(4, 6)]\<rparr>"]
  by (auto simp: wf_gtid_def gtid_trx_def wf_ivs_Cons)

text \<open>\<open>b in a\<close> on canonical Gtids holds exactly when the servers agree and every transaction of
  \<open>b\<close> is one of \<open>a\<close>.\<close>

theorem gtid_contains_subset:
  assumes "wf_gtid g" "wf_gtid h"
  shows "gtid_contains g h \<longleftrightarrow> sid h = sid g \<and> gtid_trx h \<subseteq> gtid_trx g"
  using assms by (rule gtid_contains_iff)

theorem gtid_contains_subset_witness:
  "gtid_contains \<lparr>sid = ''a'', intervals = [(1, 10), (20, 30)]\<rparr> \<lparr>sid = ''a'', intervals = [(2, 4), (20, 21)]\<rparr>
   \<and> \<not> gtid_contains \<lparr>sid = ''a'', intervals = [(1, 10), (20, 30)]\<rparr> \<lparr>sid = ''a'', intervals = [(5, 25)]\<rparr>"
proof -
  have "\<not> {5..<25} \<subseteq> {1..<10} \<union> {20..<30::int}"
  proof
    assume "{5..<25} \<subseteq> {1..<10} \<union> {20..<30::int}"
    then have "15 \<in> {1..<10} \<union> {20..<30::int}" by (rule subsetD) simp
    then show False by simp
  qed
  then show ?thesis
    using gtid_contains_subset [of "\<lparr>sid = ''a'', intervals = [(1, 10), (20, 30)]\<rparr>"
        "\<lparr>sid = ''a'', intervals = [(2, 4), (20, 21)]\<rparr>"]
      gtid_contains_subset [of "\<lparr>sid = ''a'', intervals = [(1, 10), (20, 30)]\<rparr>"
        "\<lparr>sid = ''a'', intervals = [(5, 25)]\<rparr>"]
    by (auto simp: wf_gtid_def gtid_trx_def wf_ivs_Cons)
qed

text \<open>C22: the canonical form is unique: \<open>==\<close> of two canonical Gtids (a comparison of the interval lists)
  decides whether they stand for the same transactions of the same server.\<close>

theorem gtid_eq_same_transactions:
  assumes "wf_gtid g" "wf_gtid h"
  shows "gtid_eq g h \<longleftrightarrow> sid g = sid h \<and> gtid_trx g = gtid_trx h"
  using assms wf_ivs_unique [of "intervals g" "intervals h"]
  by (auto simp: gtid_eq_def wf_gtid_def gtid_trx_def)

theorem gtid_eq_same_transactions_witness:
  "\<not> gtid_eq \<lparr>sid = ''a'', intervals = [(1, 10)]\<rparr> \<lparr>sid = ''a'', intervals = [(1, 3), (4, 10)]\<rparr>
   \<and> gtid_trx \<lparr>sid = ''a'', intervals = [(1, 10)]\<rparr>
      \<noteq> gtid_trx \<lparr>sid = ''a'', intervals = [(1, 3), (4, 10)]\<rparr>"
  using gtid_eq_same_transactions [of "\<lparr>sid = ''a'', intervals = [(1, 10)]\<rparr>"
      "\<lparr>sid = ''a'', intervals = [(1, 3), (4, 10)]\<rparr>"]
  by (simp add: wf_gtid_def wf_ivs_Cons gtid_eq_def)

text \<open>the constructor on a list of non-empty intervals in any order: when it returns, the Gtid is
  canonical and holds exactly the transactions of the intervals; it does return when the intervals
  come in canonical form.\<close>

theorem gtid_init_canonical:
  assumes "s \<noteq> []" "\<forall>iv \<in> set ivs. fst iv < snd iv"
  shows "(\<forall>g. gtid_init txt (Some s) ivs = Inr g \<longrightarrow> wf_gtid g \<and> sid g = s \<and> gtid_trx g = trx ivs)
    \<and> (wf_ivs ivs \<longrightarrow> gtid_init txt (Some s) ivs = Inr \<lparr>sid = s, intervals = ivs\<rparr>)"
proof (intro conjI allI impI)
  fix g assume "gtid_init txt (Some s) ivs = Inr g"
  then have "fold_res add_interval [] ivs = Inr (intervals g)" "sid g = s"
    using assms(1) by (auto simp: gtid_init_def)
  with fold_add_nonempty [of "[]" ivs "intervals g"] assms(2)
  show "wf_gtid g" "sid g = s" "gtid_trx g = trx ivs"
    by (simp_all add: wf_gtid_def gtid_trx_def)
next
  assume wf: "wf_ivs ivs"
  obtain r where r: "fold_res add_interval [] ivs = Inr r" "wf_ivs r" "trx r = trx ivs"
    using fold_add_disjoint [of "[]" ivs] wf by auto
  then have "r = ivs" using wf wf_ivs_unique by simp
  with r(1) show "gtid_init txt (Some s) ivs = Inr \<lparr>sid = s, intervals = ivs\<rparr>"
    using assms(1) by (simp add: gtid_init_def)
qed

theorem gtid_init_canonical_witness:
  "gtid_init [] (Some ''a'') [(1, 5), (8, 9)] = Inr \<lparr>sid = ''a'', intervals = [(1, 5), (8, 9)]\<rparr>
   \<and> (\<exists>g. gtid_init [] (Some ''a'') [(5, 9), (1, 5)] = Inr g \<and> wf_gtid g \<and> gtid_trx g = trx [(5, 9), (1, 5)])"
proof
  show "gtid_init [] (Some ''a'') [(1, 5), (8, 9)] = Inr \<lparr>sid = ''a'', intervals = [(1, 5), (8, 9)]\<rparr>"
    using gtid_init_canonical [of "''a''" "[(1, 5), (8, 9)]" "[]"] by (simp add: wf_ivs_Cons)
  have "\<exists>g. gtid_init [] (Some ''a'') [(5, 9), (1, 5)] = Inr g"
    by (simp add: gtid_init_def add_interval_def overlap_def)
  then show "\<exists>g. gtid_init [] (Some ''a'') [(5, 9), (1, 5)] = Inr g \<and> wf_gtid g
      \<and> gtid_trx g = trx [(5, 9), (1, 5)]"
    using gtid_init_canonical [of "''a''" "[(5, 9), (1, 5)]" "[]"] by auto
qed

text \<open>C25: the six comparison methods of Gtid are those of one linear order, so that sorting a list of
  Gtids is well defined.\<close>

theorem gtid_comparisons_linear:
  "(gtid_le g h \<or> gtid_le h g) \<and> (gtid_le g h \<and> gtid_le h g \<longleftrightarrow> gtid_eq g h)
   \<and> (gtid_lt g h \<longleftrightarrow> gtid_le g h \<and> \<not> gtid_eq g h) \<and> (gtid_gt g h \<longleftrightarrow> gtid_lt h g)
   \<and> (gtid_ge g h \<longleftrightarrow> gtid_le h g) \<and> (gtid_le g h \<and> gtid_le h k \<longrightarrow> gtid_le g k)"
  unfolding gtid_order_methods by auto

theorem gtid_comparisons_linear_witness:
  "gtid_le \<lparr>sid = ''a'', intervals = [(1, 2)]\<rparr> \<lparr>sid = ''b'', intervals = []\<rparr>
   \<and> \<not> gtid_eq \<lparr>sid = ''a'', intervals = [(1, 2)]\<rparr> \<lparr>sid = ''b'', intervals = []\<rparr>"
  using gtid_comparisons_linear [of "\<lparr>sid = ''a'', intervals = [(1, 2)]\<rparr>" "\<lparr>sid = ''b'', intervals = []\<rparr>"
      "\<lparr>sid = ''b'', intervals = []\<rparr>"]
  by (simp add: gtid_lt_def gtid_eq_def gtid_le_def)

end
