(* ===== verification/Gtid_Codec.thy ===== *)
theory Gtid_Codec
  imports Gtid
begin

text \<open>
  The textual and the binary form of a \<open>Gtid\<close>: \<open>Gtid(str(g))\<close> and
  \<open>Gtid.decode(BytesIO(g.encode()))\<close> give back \<open>g\<close>, the encoding has the announced length, and
  the empty interval list is where both forms cannot be read back.
\<close>

section \<open>Server identifiers\<close>

definition valid_sid :: "string \<Rightarrow> bool" where
  "valid_sid s = (map length (split_on CHR ''-'' s) = [8, 4, 4, 4, 12]
     \<and> list_all (list_all is_hexdigit) (split_on CHR ''-'' s))"

definition nonneg_ivs :: "interval list \<Rightarrow> bool" where
  "nonneg_ivs ivs = list_all (\<lambda>iv. 0 \<le> fst iv) ivs"

definition u64_ivs :: "interval list \<Rightarrow> bool" where
  "u64_ivs ivs = (list_all (\<lambda>iv. 0 \<le> fst iv \<and> snd iv < 256 ^ 8) ivs
     \<and> length ivs < 256 ^ 8)"

definition interval_text :: "string \<Rightarrow> bool" where
  "interval_text f = (f \<noteq> [] \<and> (\<forall>c \<in> set f. is_digit c \<or> c = CHR ''-''))"

lemma join_split_on: "join [c] (split_on c s) = s"
proof (induction s)
  case (Cons x s)
  show ?case
  proof (cases "split_on c s")
    case (Cons w ws)
    with \<open>join [c] (split_on c s) = s\<close> show ?thesis by (cases ws) auto
  qed simp
qed simp

lemma valid_sid_parts:
  assumes "valid_sid s"
  obtains a b c d e where "s = a @ CHR ''-'' # b @ CHR ''-'' # c @ CHR ''-'' # d @ CHR ''-'' # e"
    "length a = 8" "length b = 4" "length c = 4" "length d = 4" "length e = 12"
    "\<forall>x \<in> set (a @ b @ c @ d @ e). is_hexdigit x"
proof -
  obtain a b c d e where p: "split_on CHR ''-'' s = [a, b, c, d, e]"
    using assms by (auto simp: valid_sid_def map_eq_Cons_conv)
  have "s = join [CHR ''-''] [a, b, c, d, e]" using join_split_on [of "CHR ''-''" s] p by simp
  with p assms show ?thesis
    by (intro that [of a b c d e]) (auto simp: valid_sid_def list_all_iff)
qed

lemma rx_first_Seq0:
  "rx_first a s = Some (t, []) \<Longrightarrow> rx_first b t = Some r \<Longrightarrow> rx_first (Seq a b) s = Some r"
  using rx_first_Seq [of a s t "[]" b] by (cases r) simp

lemma rx_first_uuid_group:
  "length x = 4 \<Longrightarrow> \<forall>c \<in> set x. is_hexdigit c \<Longrightarrow>
   rx_first (Seq (Chr CHR ''-'') (Rep 4 (Cls is_hexdigit))) (CHR ''-'' # x @ y) = Some (y, [])"
  by (rule rx_first_Seq0 [where t = "x @ y"]) (simp_all add: rx_first_Rep_Cls)

lemma Rep_3: "Rep 3 r = Seq r (Seq r (Seq r Eps))"
  by (simp add: eval_nat_numeral)

lemma rx_first_uuid:
  assumes "valid_sid s"
  shows "rx_first uuid_rx (s @ y) = Some (y, [])"
proof -
  obtain a b c d e where s: "s = a @ CHR ''-'' # b @ CHR ''-'' # c @ CHR ''-'' # d @ CHR ''-'' # e"
    and l: "length a = 8" "length b = 4" "length c = 4" "length d = 4" "length e = 12"
    and h: "\<forall>x \<in> set (a @ b @ c @ d @ e). is_hexdigit x"
    using valid_sid_parts [OF assms] .
  let ?r = "CHR ''-'' # e @ y"
  have f3: "rx_first (Seq (Chr CHR ''-'') (Seq (Rep 12 (Cls is_hexdigit)) Eps)) ?r = Some (y, [])"
    by (rule rx_first_Seq0, simp, rule rx_first_Seq0 [where t = y])
      (use l h in \<open>auto intro!: rx_first_Rep_Cls\<close>)
  have f2: "rx_first (Rep 3 (Seq (Chr CHR ''-'') (Rep 4 (Cls is_hexdigit))))
      (CHR ''-'' # b @ CHR ''-'' # c @ CHR ''-'' # d @ ?r) = Some (?r, [])"
    unfolding Rep_3
    by (rule rx_first_Seq0 [OF rx_first_uuid_group], (use l h in auto)[2],
        rule rx_first_Seq0 [OF rx_first_uuid_group], (use l h in auto)[2],
        rule rx_first_Seq0 [OF rx_first_uuid_group]) (use l h in auto)
  have f1: "rx_first (Rep 8 (Cls is_hexdigit))
      (a @ CHR ''-'' # b @ CHR ''-'' # c @ CHR ''-'' # d @ ?r)
      = Some (CHR ''-'' # b @ CHR ''-'' # c @ CHR ''-'' # d @ ?r, [])"
    by (rule rx_first_Rep_Cls) (use l h in auto)
  show ?thesis
    using rx_first_Seq0 [OF f1 rx_first_Seq0 [OF f2 f3]] by (simp add: uuid_rx_def s)
qed

section \<open>Reading back the textual form\<close>

lemma rx_first_colon_groups:
  assumes "\<forall>x \<in> set xs. x \<noteq> [] \<and> (\<forall>c \<in> set x. p c)" "\<not> p CHR '':''"
  shows "rx_first (Star (Seq (Chr CHR '':'') (Plus (Cls p)))) (concat (map ((#) CHR '':'') xs))
    = Some ([], [])"
  using assms(1)
proof (induction xs)
  case Nil
  have "rx_run (Seq (Chr CHR '':'') (Plus (Cls p))) [] = []"
    by (intro rx_run_Seq_fail rx_run_Chr_fail) simp
  then show ?case by (simp add: rx_first_Star_stop)
next
  case (Cons x xs)
  let ?rest = "concat (map ((#) CHR '':'') xs)"
  have "?rest = [] \<or> \<not> p (hd ?rest)" using assms(2) by (cases xs) auto
  then have "rx_first (Plus (Cls p)) (x @ ?rest) = Some (?rest, [])"
    using Cons.prems by (intro rx_first_Plus_Cls) auto
  then have "rx_first (Seq (Chr CHR '':'') (Plus (Cls p))) (CHR '':'' # x @ ?rest) = Some (?rest, [])"
    by (intro rx_first_Seq0 [where t = "x @ ?rest"]) simp_all
  from rx_first_Star_step [OF this _ Cons.IH] Cons.prems show ?case by simp
qed

lemma rx_match_gtid:
  assumes "valid_sid s" "xs \<noteq> []"
    and chars: "\<forall>x \<in> set xs. interval_text x"
  shows "rx_match gtid_rx (s @ concat (map ((#) CHR '':'') xs))
    = Some [(1, s), (2, concat (map ((#) CHR '':'') xs))]"
proof -
  let ?p = "\<lambda>c. is_digit c \<or> c = CHR ''-''"
  let ?g = "Seq (Chr CHR '':'') (Plus (Cls ?p))"
  let ?t = "concat (map ((#) CHR '':'') xs)"
  have assms3: "\<forall>x \<in> set xs. x \<noteq> [] \<and> (\<forall>c \<in> set x. ?p c)"
    using chars by (simp add: interval_text_def)
  obtain x ys where xs: "xs = x # ys" using assms(2) by (cases xs) auto
  let ?rest = "concat (map ((#) CHR '':'') ys)"
  have "?rest = [] \<or> \<not> ?p (hd ?rest)" by (cases ys) auto
  then have "rx_first (Plus (Cls ?p)) (x @ ?rest) = Some (?rest, [])"
    using assms3 xs by (intro rx_first_Plus_Cls) auto
  then have "rx_first ?g ?t = Some (?rest, [])"
    by (auto intro: rx_first_Seq0 [where t = "x @ ?rest"] simp: xs)
  moreover have "rx_first (Star ?g) ?rest = Some ([], [])"
    using assms3 xs by (intro rx_first_colon_groups) auto
  ultimately have "rx_first (Plus ?g) ?t = Some ([], [])"
    unfolding Plus_def [of ?g] by (rule rx_first_Seq0)
  from rx_first_Cap [OF this, of 2] have 2: "rx_first (Cap 2 (Plus ?g)) ?t = Some ([], [(2, ?t)])"
    by simp
  have "rx_first (Cap 1 uuid_rx) (s @ ?t) = Some (?t, [(1, s)])"
    using rx_first_Cap [OF rx_first_uuid [OF assms(1), of ?t], of 1] by simp
  moreover have "rx_first (Seq (Cap 2 (Plus ?g)) (Seq Eos Eps)) ?t = Some ([], [(2, ?t)] @ [])"
    by (rule rx_first_Seq [OF 2], rule rx_first_Seq0) simp_all
  ultimately have "rx_first gtid_rx (s @ ?t) = Some ([], [(1, s)] @ [(2, ?t)] @ [])"
    unfolding gtid_rx_def Seqs.simps by (rule rx_first_Seq)
  then show ?thesis by (simp add: rx_match_first)
qed

lemma join_Cons_concat: "xs \<noteq> [] \<Longrightarrow> c # join [c] xs = concat (map ((#) c) xs)"
  by (induction "[c]" xs rule: join.induct) auto

lemma gtid_parse_text:
  assumes "valid_sid s" "fs \<noteq> []" "map_res parse_interval fs = Inr ivs"
    and "\<forall>f \<in> set fs. interval_text f"
  shows "gtid_parse (s @ '':'' @ join '':'' fs) = Inr (s, ivs)"
proof -
  let ?t = "concat (map ((#) CHR '':'') fs)"
  have t: "'':'' @ join '':'' fs = ?t" using join_Cons_concat [OF assms(2), of "CHR '':''"] by simp
  have "\<And>f. f \<in> set fs \<Longrightarrow> CHR '':'' \<notin> set f" using assms(4) by (fastforce simp: interval_text_def)
  then have "split_on CHR '':'' (CHR '':'' # join '':'' fs) = [] # fs"
    using split_on_join [OF assms(2)] by simp
  then have "tl (split_on CHR '':'' ('':'' @ join '':'' fs)) = fs" by simp
  then have "tl (split_on CHR '':'' ?t) = fs" unfolding t .
  then show ?thesis
    unfolding t gtid_parse_def rx_match_gtid [OF assms(1,2,4)]
    by (simp add: group_text_def rx_group_def assms(3))
qed

lemma rx_first_digits:
  "y = [] \<or> \<not> is_digit (hd y) \<Longrightarrow>
   rx_first (Cap k (Plus (Cls is_digit))) (str_nat n @ y) = Some (y, [(k, str_nat n)])"
  using rx_first_Cap [OF rx_first_Plus_Cls [of "str_nat n" is_digit y], of k] str_nat_digits
  by simp

lemma parse_interval_range: "parse_interval (str_nat a @ ''-'' @ str_nat b) = Inr (int a, int b + 1)"
proof -
  let ?o = "Opt (Seq (Chr CHR ''-'') (Cap 2 (Plus (Cls is_digit))))"
  have "rx_first ?o (''-'' @ str_nat b) = Some ([], [(2, str_nat b)])"
    using rx_first_digits [of "[]" 2 b]
    by (intro rx_first_Opt rx_first_Seq0 [where t = "str_nat b"]) simp_all
  then have f2: "rx_first (Seq ?o (Seq Eos Eps)) (''-'' @ str_nat b) = Some ([], [(2, str_nat b)] @ [])"
    by (rule rx_first_Seq) (rule rx_first_Seq0, simp_all)
  have f1: "rx_first (Cap 1 (Plus (Cls is_digit))) (str_nat a @ ''-'' @ str_nat b)
      = Some (''-'' @ str_nat b, [(1, str_nat a)])"
    by (rule rx_first_digits) simp
  have "rx_first interval_rx (str_nat a @ ''-'' @ str_nat b)
      = Some ([], [(1, str_nat a)] @ [(2, str_nat b)] @ [])"
    unfolding interval_rx_def Seqs.simps by (rule rx_first_Seq [OF f1 f2])
  then show ?thesis
    by (simp add: parse_interval_def rx_match_first group_text_def rx_group_def Let_def)
qed

lemma parse_interval_single: "parse_interval (str_nat a) = Inr (int a, int a + 1)"
proof -
  let ?o = "Opt (Seq (Chr CHR ''-'') (Cap 2 (Plus (Cls is_digit))))"
  have "rx_first ?o [] = Some ([], [])"
    by (intro rx_first_Opt_skip rx_run_Seq_fail rx_run_Chr_fail) simp
  then have "rx_first (Seq ?o (Seq Eos Eps)) [] = Some ([], [])"
    by (rule rx_first_Seq0) (rule rx_first_Seq0, simp_all)
  moreover have "rx_first (Cap 1 (Plus (Cls is_digit))) (str_nat a) = Some ([], [(1, str_nat a)])"
    using rx_first_digits [of "[]" 1 a] by simp
  ultimately have "rx_first interval_rx (str_nat a) = Some ([], [(1, str_nat a)] @ [])"
    unfolding interval_rx_def Seqs.simps by (intro rx_first_Seq)
  then show ?thesis
    by (simp add: parse_interval_def rx_match_first group_text_def rx_group_def Let_def)
qed

lemma parse_format_interval:
  assumes "0 \<le> fst iv" "fst iv < snd iv"
  shows "parse_interval (format_interval iv) = Inr iv"
proof (cases "fst iv + 1 = snd iv")
  case True
  then show ?thesis
    using assms parse_interval_single [of "nat (fst iv)"]
    by (simp add: format_interval_def str_int_nonneg prod_eq_iff)
next
  case False
  then show ?thesis
    using assms parse_interval_range [of "nat (fst iv)" "nat (snd iv - 1)"]
    by (simp add: format_interval_def str_int_nonneg prod_eq_iff)
qed

lemma parse_decode_format:
  assumes "0 \<le> fst iv" "fst iv < snd iv"
  shows "parse_interval (decode_format (fst iv, snd iv - 1)) = Inr iv"
  using assms parse_interval_range [of "nat (fst iv)" "nat (snd iv - 1)"]
  by (simp add: decode_format_def str_int_nonneg prod_eq_iff)

lemma interval_text_decode: "0 \<le> a \<Longrightarrow> 0 \<le> b \<Longrightarrow> interval_text (decode_format (a, b))"
  using str_nat_digits by (auto simp: interval_text_def decode_format_def str_int_nonneg)

lemma interval_text_format: "0 \<le> fst iv \<Longrightarrow> fst iv < snd iv \<Longrightarrow> interval_text (format_interval iv)"
  using str_nat_digits by (auto simp: interval_text_def format_interval_def str_int_nonneg)

lemma fold_add_canonical: "wf_ivs ivs \<Longrightarrow> fold_res add_interval [] ivs = Inr ivs"
  using fold_add_disjoint [of "[]" ivs] wf_ivs_unique by auto

lemma gtid_init_text:
  assumes "valid_sid s" "wf_ivs ivs" "ivs \<noteq> []" "map_res parse_interval fs = Inr ivs"
    and "\<forall>f \<in> set fs. interval_text f"
  shows "gtid_init (s @ '':'' @ join '':'' fs) None [] = Inr \<lparr>sid = s, intervals = ivs\<rparr>"
proof -
  have "fs \<noteq> []" using assms(3,4) by auto
  from gtid_parse_text [OF assms(1) this assms(4,5)] show ?thesis
    by (simp add: gtid_init_def fold_add_canonical [OF assms(2)])
qed

lemma gtid_init_str:
  assumes "valid_sid (sid g)" "wf_gtid g" "nonneg_ivs (intervals g)" "intervals g \<noteq> []"
  shows "gtid_init (gtid_str g) None [] = Inr g"
proof -
  have iv: "0 \<le> fst iv" "fst iv < snd iv" if "iv \<in> set (intervals g)" for iv
    using that assms by (auto simp: wf_gtid_def wf_ivs_def nonneg_ivs_def list_all_iff)
  have "map_res parse_interval (map format_interval (intervals g)) = Inr (map id (intervals g))"
    unfolding map_res_map using iv by (intro map_res_Inr) (simp add: parse_format_interval)
  then show ?thesis
    unfolding gtid_str_def using assms iv
    by (subst gtid_init_text) (auto simp: wf_gtid_def intro!: interval_text_format)
qed

section \<open>Reading back the binary form\<close>

lemma hex_char_digit:
  assumes "is_hexdigit c"
  shows "hex_digit c < 16" "hex_char (hex_digit c) = to_lower c"
proof -
  let ?n = "of_char c :: nat"
  have n: "48 \<le> ?n \<and> ?n \<le> 57 \<or> 65 \<le> ?n \<and> ?n \<le> 70 \<or> 97 \<le> ?n \<and> ?n \<le> 102"
    using assms by (simp add: is_hexdigit_def Let_def)
  then show "hex_digit c < 16" by (auto simp: hex_digit_def Let_def)
  have *: "char_of ?n = c" by simp
  from n show "hex_char (hex_digit c) = to_lower c"
    unfolding hex_char_def hex_digit_def to_lower_def Let_def
    by (auto simp: * simp del: char_of_nat)
qed

lemma unat_hex_byte:
  assumes "a < 16" "b < 16"
  shows "unat (16 * word_of_nat a + word_of_nat b :: byte) = 16 * a + b"
proof -
  have "unat (word_of_nat (16 * a + b) :: byte) = 16 * a + b"
    unfolding unat_of_nat using assms by simp
  then show ?thesis by simp
qed

lemma unhex_pairs_hexlify:
  "even (length s) \<Longrightarrow> \<forall>c \<in> set s. is_hexdigit c \<Longrightarrow>
   \<exists>bs. unhex_pairs s = Inr bs \<and> length s = 2 * length bs \<and> hexlify bs = map to_lower s"
proof (induction s rule: unhex_pairs.induct)
  case (3 c d cs)
  then obtain bs where "unhex_pairs cs = Inr bs" "length cs = 2 * length bs"
      "hexlify bs = map to_lower cs"
    by auto
  with "3.prems" show ?case
    using hex_char_digit [of c] hex_char_digit [of d] by (simp add: unat_hex_byte)
qed auto

lemma hexlify_take: "hexlify (take n bs) = take (2 * n) (hexlify bs)"
  by (induction bs arbitrary: n) (auto simp: take_Cons split: nat.splits)

lemma hexlify_drop: "hexlify (drop n bs) = drop (2 * n) (hexlify bs)"
  by (induction bs arbitrary: n) (auto simp: drop_Cons split: nat.splits)

lemma hexdigit_ascii: "is_hexdigit c \<Longrightarrow> \<not> 128 \<le> (of_char c :: nat)" "\<not> is_hexdigit CHR ''-''"
  by (auto simp: is_hexdigit_def Let_def)

lemma encode_sid:
  assumes "valid_sid s"
  shows "\<exists>bs. unhexlify (filter (\<lambda>c. c \<noteq> CHR ''-'') s) = Inr bs \<and> length bs = 16
    \<and> uuid_text (bs @ r) = map to_lower s"
proof -
  obtain a b c d e where s: "s = a @ CHR ''-'' # b @ CHR ''-'' # c @ CHR ''-'' # d @ CHR ''-'' # e"
    and l: "length a = 8" "length b = 4" "length c = 4" "length d = 4" "length e = 12"
    and h: "\<forall>x \<in> set (a @ b @ c @ d @ e). is_hexdigit x"
    using valid_sid_parts [OF assms] .
  have keep: "filter (\<lambda>c. c \<noteq> CHR ''-'') x = x" if "\<forall>y \<in> set x. is_hexdigit y" for x
    using that hexdigit_ascii(2) by (auto simp: filter_id_conv)
  have f: "filter (\<lambda>c. c \<noteq> CHR ''-'') s = a @ b @ c @ d @ e"
    using h by (simp add: s keep)
  obtain bs where bs: "unhex_pairs (a @ b @ c @ d @ e) = Inr bs"
      "length (a @ b @ c @ d @ e) = 2 * length bs" "hexlify bs = map to_lower (a @ b @ c @ d @ e)"
    using unhex_pairs_hexlify [of "a @ b @ c @ d @ e"] h l by auto
  have len: "length bs = 16" using bs(2) l by simp
  have "\<not> list_ex (\<lambda>c. 128 \<le> (of_char c :: nat)) (a @ b @ c @ d @ e)"
    using h hexdigit_ascii(1) by (fastforce simp: list_ex_iff)
  then have "unhexlify (a @ b @ c @ d @ e) = Inr bs"
    using bs(1) l by (simp add: unhexlify_def)
  moreover have "uuid_text (bs @ r) = map to_lower s"
    using len l by (simp add: uuid_text_def hexlify_take hexlify_drop bs(3) s to_lower_def)
  ultimately show ?thesis using f len by auto
qed

lemma encode_decode_intervals:
  assumes "list_all (\<lambda>iv. 0 \<le> fst iv \<and> fst iv < snd iv \<and> snd iv < 256 ^ 8) ivs"
  shows "\<exists>bs. encode_intervals ivs = Inr bs \<and> length bs = 16 * length ivs
    \<and> decode_intervals (length ivs) (bs @ r) = Inr (map (\<lambda>iv. (fst iv, snd iv - 1)) ivs, r)"
  using assms
proof (induction ivs)
  case Nil
  then show ?case by simp
next
  case (Cons iv ivs)
  then obtain bs where bs: "encode_intervals ivs = Inr bs" "length bs = 16 * length ivs"
      "decode_intervals (length ivs) (bs @ r) = Inr (map (\<lambda>iv. (fst iv, snd iv - 1)) ivs, r)"
    by auto
  from Cons.prems have iv: "0 \<le> fst iv" "fst iv < 256 ^ 8" "0 \<le> snd iv" "snd iv < 256 ^ 8" by auto
  then show ?case
    using bs by (simp add: pack_uint_ok le_val_le_bytes del: le_bytes.simps)
qed

lemma gtid_encode_ok:
  assumes "valid_sid (sid g)" "wf_gtid g" "u64_ivs (intervals g)"
  shows "\<exists>s n r. gtid_encode g = Inr (s @ n @ r) \<and> length s = 16
    \<and> n = le_bytes 8 (int (length (intervals g))) \<and> length r = 16 * length (intervals g)
    \<and> uuid_text (s @ n @ r @ z) = map to_lower (sid g)
    \<and> decode_intervals (length (intervals g)) (r @ z)
        = Inr (map (\<lambda>iv. (fst iv, snd iv - 1)) (intervals g), z)"
proof -
  let ?n = "le_bytes 8 (int (length (intervals g)))"
  have "list_all (\<lambda>iv. 0 \<le> fst iv \<and> fst iv < snd iv \<and> snd iv < 256 ^ 8) (intervals g)"
    using assms(2,3) by (auto simp: wf_gtid_def wf_ivs_def u64_ivs_def list_all_iff)
  from encode_decode_intervals [OF this, of z] obtain r where
    r: "encode_intervals (intervals g) = Inr r" "length r = 16 * length (intervals g)"
      "decode_intervals (length (intervals g)) (r @ z)
        = Inr (map (\<lambda>iv. (fst iv, snd iv - 1)) (intervals g), z)"
    by blast
  from encode_sid [OF assms(1), of "?n @ r @ z"] obtain s where
    s: "unhexlify (filter (\<lambda>c. c \<noteq> CHR ''-'') (sid g)) = Inr s" "length s = 16"
      "uuid_text (s @ ?n @ r @ z) = map to_lower (sid g)"
    by blast
  have "pack_uint 8 (int (length (intervals g))) = Inr ?n"
    using assms(3) by (intro pack_uint_ok) (simp_all add: u64_ivs_def)
  with r s have "gtid_encode g = Inr (s @ ?n @ r)" by (simp add: gtid_encode_def)
  with r s show ?thesis by blast
qed

lemma gtid_decode_encode:
  assumes "valid_sid (sid g)" "map to_lower (sid g) = sid g" "wf_gtid g"
    and "u64_ivs (intervals g)" "intervals g \<noteq> []"
  shows "\<exists>bs. gtid_encode g = Inr bs \<and> gtid_decode (bs @ z) = Inr (g, z)"
proof -
  let ?n = "le_bytes 8 (int (length (intervals g)))"
  let ?d = "map (\<lambda>iv. (fst iv, snd iv - 1)) (intervals g)"
  obtain s r where e: "gtid_encode g = Inr (s @ ?n @ r)" "length s = 16"
      "uuid_text (s @ ?n @ r @ z) = map to_lower (sid g)"
      "decode_intervals (length (intervals g)) (r @ z) = Inr (?d, z)"
    using gtid_encode_ok [OF assms(1,3,4), of z] by blast
  have iv: "0 \<le> fst iv" "fst iv < snd iv" if "iv \<in> set (intervals g)" for iv
    using that assms(3,4) by (auto simp: wf_gtid_def wf_ivs_def u64_ivs_def list_all_iff)
  have "map_res parse_interval (map decode_format ?d) = Inr (map id (intervals g))"
    unfolding map_res_map using iv by (intro map_res_Inr) (simp add: parse_decode_format)
  moreover have "\<forall>f \<in> set (map decode_format ?d). interval_text f"
    using iv by (fastforce intro!: interval_text_decode)
  ultimately have "gtid_init (sid g @ '':'' @ join '':'' (map decode_format ?d)) None [] = Inr g"
    using assms(1,3,5) by (subst gtid_init_text) (auto simp: wf_gtid_def)
  moreover have "unpack_uint 8 ?n = Inr (int (length (intervals g)))"
    using assms(4) by (intro unpack_uint_le_bytes) (simp_all add: u64_ivs_def)
  ultimately have "gtid_decode ((s @ ?n @ r) @ z) = Inr (g, z)"
    using e assms(2) by (simp add: gtid_decode_def)
  with e(1) show ?thesis by blast
qed

lemma encoded_length_correct:
  assumes "valid_sid (sid g)" "wf_gtid g" "u64_ivs (intervals g)"
  shows "\<exists>bs. gtid_encode g = Inr bs \<and> int (length bs) = gtid_encoded_length g"
  using gtid_encode_ok [OF assms, of "[]"] by (auto simp: gtid_encoded_length_def)

section \<open>Both forms are read back\<close>

text \<open>\<open>Gtid(str(g))\<close> is \<open>g\<close>, for every canonical Gtid with a valid server identifier and at least
  one interval.\<close>

theorem gtid_text_roundtrip:
  assumes "valid_sid (sid g)" "wf_gtid g" "nonneg_ivs (intervals g)" "intervals g \<noteq> []"
  shows "gtid_init (gtid_str g) None [] = Inr g"
  using assms by (rule gtid_init_str)

theorem gtid_text_roundtrip_witness:
  "gtid_init ''3e11fa47-71ca-11e1-9e33-c80aa9429562:1-5:7'' None []
     = Inr \<lparr>sid = ''3e11fa47-71ca-11e1-9e33-c80aa9429562'', intervals = [(1, 6), (7, 8)]\<rparr>"
  using gtid_text_roundtrip [of "\<lparr>sid = ''3e11fa47-71ca-11e1-9e33-c80aa9429562'', intervals = [(1, 6), (7, 8)]\<rparr>"]
  by (simp add: valid_sid_def is_hexdigit_def wf_gtid_def wf_ivs_Cons nonneg_ivs_def gtid_str_def
      format_interval_def str_int_def str_nat.simps digit_char_literals)

text \<open>\<open>encode\<close> writes exactly \<open>encoded_length\<close> bytes, and \<open>decode\<close> of these bytes, followed by
  anything, returns the Gtid and leaves the rest unread.\<close>

theorem gtid_binary_roundtrip:
  assumes "valid_sid (sid g)" "map to_lower (sid g) = sid g" "wf_gtid g"
    and "u64_ivs (intervals g)" "intervals g \<noteq> []"
  shows "\<exists>bs. gtid_encode g = Inr bs \<and> int (length bs) = gtid_encoded_length g
    \<and> gtid_decode (bs @ z) = Inr (g, z)"
  using gtid_decode_encode [OF assms, of z] encoded_length_correct [OF assms(1,3,4)] by auto

theorem gtid_binary_roundtrip_witness:
  "\<exists>bs. gtid_encode \<lparr>sid = ''3e11fa47-71ca-11e1-9e33-c80aa9429562'', intervals = [(1, 6), (7, 8)]\<rparr> = Inr bs
     \<and> length bs = 56
     \<and> gtid_decode (bs @ [7]) = Inr (\<lparr>sid = ''3e11fa47-71ca-11e1-9e33-c80aa9429562'',
         intervals = [(1, 6), (7, 8)]\<rparr>, [7])"
  using gtid_binary_roundtrip [of "\<lparr>sid = ''3e11fa47-71ca-11e1-9e33-c80aa9429562'',
      intervals = [(1, 6), (7, 8)]\<rparr>" "[7]"]
  by (simp add: valid_sid_def is_hexdigit_def to_lower_def wf_gtid_def wf_ivs_Cons u64_ivs_def
      gtid_encoded_length_def)

end
