(* ===== verification/Gtid_Set.thy ===== *)
theory Gtid_Set
  imports Gtid_Codec
begin

text \<open>
  \<open>pymysqlreplication/gtid.py\<close>, class \<open>GtidSet\<close>: a list of \<open>Gtid\<close>s, one per server.
  Its denotation \<open>gset_trx\<close> is a set of pairs of a server identifier and a transaction number.
  Merging is union (and raises on a transaction that is already there), the textual and the binary
  form are read back; the containment test of two sets is membership of equal elements, not
  inclusion.
\<close>

section \<open>Definitions\<close>

datatype gtid_elem = GObj gtid | GText string

datatype gtidset_arg = ANone | AText string | AList "gtid_elem list" | AGtid gtid

fun to_gtid :: "gtid_elem \<Rightarrow> gtid res" where
  "to_gtid (GObj g) = Inr g"
| "to_gtid (GText s) = gtid_init (strip [CHR '' '', CHR 0x0A] s) None []"

fun gtidset_init :: "gtidset_arg \<Rightarrow> gtid list res" where
  "gtidset_init ANone = Inr []"
| "gtidset_init (AList xs) = (if xs = [] then Inr [] else map_res to_gtid xs)"
| "gtidset_init (AText s) =
     (if s = [] then Inr []
      else map_res (\<lambda>x. gtid_init (strip [CHR '' '', CHR 0x0A] x) None []) (split_on CHR '','' s))"
| "gtidset_init (AGtid g) = Inl AttributeError"

definition merge_gtid :: "gtid list \<Rightarrow> gtid \<Rightarrow> gtid list res" where
  "merge_gtid gtids g =
     bind_res
       (map_res (\<lambda>existing. if sid existing = sid g then gtid_add existing g else Inr existing) gtids)
       (\<lambda>new_gtids. Inr (if sid g \<notin> set (map sid new_gtids) then new_gtids @ [g] else new_gtids))"

datatype gtidset_operand = OpSet "gtid list" | OpGtid gtid | OpOther

fun gtidset_contains :: "gtid list \<Rightarrow> gtidset_operand \<Rightarrow> bool res" where
  "gtidset_contains gtids (OpSet other) =
     Inr (list_all (\<lambda>other_gtid. list_ex (\<lambda>x. gtid_eq x other_gtid) gtids) other)"
| "gtidset_contains gtids (OpGtid other) = Inr (list_ex (\<lambda>x. gtid_contains x other) gtids)"
| "gtidset_contains gtids OpOther = Inl NotImplementedError"

fun gtidset_add :: "gtid list \<Rightarrow> gtidset_operand \<Rightarrow> gtid list res" where
  "gtidset_add gtids (OpGtid other) =
     bind_res (gtidset_init (AList (map GObj gtids))) (\<lambda>new. merge_gtid new other)"
| "gtidset_add gtids (OpSet other) =
     bind_res (gtidset_init (AList (map GObj gtids))) (\<lambda>new. fold_res merge_gtid new other)"
| "gtidset_add gtids OpOther = Inl NotImplementedError"

definition gtidset_str :: "gtid list \<Rightarrow> string" where
  "gtidset_str gtids = join '','' (map gtid_str gtids)"

definition gtidset_encoded_length :: "gtid list \<Rightarrow> int" where
  "gtidset_encoded_length gtids = 8 + sum_list (map gtid_encoded_length gtids)"

definition gtidset_encoded :: "gtid list \<Rightarrow> bytes res" where
  "gtidset_encoded gtids =
     bind_res (pack_uint 8 (int (length gtids))) (\<lambda>n.
     bind_res (map_res gtid_encode gtids) (\<lambda>es. Inr (n @ concat es)))"

fun decode_gtids :: "nat \<Rightarrow> bytes \<Rightarrow> (gtid list \<times> bytes) res" where
  "decode_gtids 0 p = Inr ([], p)"
| "decode_gtids (Suc n) p =
     bind_res (gtid_decode p) (\<lambda>(g, p').
     bind_res (decode_gtids n p') (\<lambda>(gs, r). Inr (g # gs, r)))"

definition gtidset_decode :: "bytes \<Rightarrow> (gtid list \<times> bytes) res" where
  "gtidset_decode payload =
     bind_res (unpack_uint 8 (take 8 payload)) (\<lambda>n_sid.
     bind_res (decode_gtids (nat n_sid) (drop 8 payload)) (\<lambda>(gs, r).
     bind_res (gtidset_init (AList (map GObj gs))) (\<lambda>gs'. Inr (gs', r))))"

fun list_eq :: "gtid list \<Rightarrow> gtid list \<Rightarrow> bool" where
  "list_eq [] [] = True"
| "list_eq (g # gs) (h # hs) = (gtid_eq g h \<and> list_eq gs hs)"
| "list_eq _ _ = False"

definition gtidset_eq :: "gtid list \<Rightarrow> gtid list \<Rightarrow> bool" where
  "gtidset_eq gtids other = list_eq gtids other"

section \<open>The set interface\<close>

text \<open>The loop of \<open>merge_gtid\<close> over any keyed elements that keep the contract of
  \<open>keyed_sets\<close>: the collection keeps one element per key, and merging is union.\<close>

locale keyed_collection = keyed_sets key den inv plus
  for key :: "'g \<Rightarrow> 'k" and den :: "'g \<Rightarrow> int set" and inv :: "'g \<Rightarrow> bool"
    and plus :: "'g \<Rightarrow> 'g \<Rightarrow> 'g res" +
  fixes merge :: "'g list \<Rightarrow> 'g \<Rightarrow> 'g list res"
  assumes merge_eq: "merge gs g =
    bind_res (map_res (\<lambda>x. if key x = key g then plus x g else Inr x) gs)
      (\<lambda>ns. Inr (if key g \<notin> set (map key ns) then ns @ [g] else ns))"
begin

definition wf_coll :: "'g list \<Rightarrow> bool" where
  "wf_coll gs = (distinct (map key gs) \<and> (\<forall>g \<in> set gs. inv g))"

definition coll_den :: "'g list \<Rightarrow> ('k \<times> int) set" where
  "coll_den gs = {(k, t). \<exists>g \<in> set gs. key g = k \<and> t \<in> den g}"

lemma coll_den_simps [simp]:
  "coll_den [] = {}"
  "coll_den (g # gs) = {key g} \<times> den g \<union> coll_den gs"
  "coll_den (xs @ ys) = coll_den xs \<union> coll_den ys"
  by (auto simp: coll_den_def)

lemma merge_absent:
  "key g \<notin> set (map key gs) \<Longrightarrow> map_res (\<lambda>x. if key x = key g then plus x g else Inr x) gs = Inr gs"
  by (induction gs) auto

lemma merge_loop_disjoint:
  assumes "wf_coll gs" "inv g" "coll_den gs \<inter> {key g} \<times> den g = {}"
  shows "\<exists>ns. map_res (\<lambda>x. if key x = key g then plus x g else Inr x) gs = Inr ns
    \<and> map key ns = map key gs \<and> (\<forall>x \<in> set ns. inv x)
    \<and> coll_den ns = coll_den gs \<union> (if key g \<in> set (map key gs) then {key g} \<times> den g else {})"
  using assms(1,3)
proof (induction gs)
  case Nil
  then show ?case by simp
next
  case (Cons h gs)
  then have h: "inv h" "key h \<notin> set (map key gs)" "wf_coll gs" by (auto simp: wf_coll_def)
  show ?case
  proof (cases "key h = key g")
    case True
    with Cons.prems(2) have "den h \<inter> den g = {}" by auto
    then obtain c where c: "plus h g = Inr c" "inv c" "key c = key h" "den c = den h \<union> den g"
      using plus_disjoint h(1) assms(2) True by blast
    have rest: "map_res (\<lambda>x. if key x = key g then plus x g else Inr x) gs = Inr gs"
      using merge_absent h(2) True by simp
    show ?thesis
      by (intro exI [of _ "c # gs"])
        (use c rest True h(3) in \<open>auto simp: wf_coll_def\<close>)
  next
    case False
    have "coll_den gs \<inter> {key g} \<times> den g = {}" using Cons.prems(2) by auto
    with Cons.IH h(3) obtain ns where
      ns: "map_res (\<lambda>x. if key x = key g then plus x g else Inr x) gs = Inr ns"
        "map key ns = map key gs" "\<forall>x \<in> set ns. inv x"
        "coll_den ns = coll_den gs \<union> (if key g \<in> set (map key gs) then {key g} \<times> den g else {})"
      by blast
    show ?thesis
      by (intro exI [of _ "h # ns"]) (use ns False h(1) in auto)
  qed
qed

lemma merge_disjoint:
  assumes "wf_coll gs" "inv g" "coll_den gs \<inter> {key g} \<times> den g = {}"
  shows "\<exists>ns. merge gs g = Inr ns \<and> wf_coll ns \<and> coll_den ns = coll_den gs \<union> {key g} \<times> den g"
proof -
  obtain ns where
    ns: "map_res (\<lambda>x. if key x = key g then plus x g else Inr x) gs = Inr ns"
      "map key ns = map key gs" "\<forall>x \<in> set ns. inv x"
      "coll_den ns = coll_den gs \<union> (if key g \<in> set (map key gs) then {key g} \<times> den g else {})"
    using merge_loop_disjoint [OF assms] by blast
  have "key ` set ns = key ` set gs" using ns(2) by (metis list.set_map)
  then show ?thesis
    using ns assms(1,2) by (auto simp: merge_eq wf_coll_def simp del: set_map)
qed

lemma merge_clash:
  assumes "wf_coll gs" "inv g" "coll_den gs \<inter> {key g} \<times> den g \<noteq> {}"
  shows "\<exists>e. merge gs g = Inl e"
proof -
  have "\<exists>e. map_res (\<lambda>x. if key x = key g then plus x g else Inr x) gs = Inl e"
    using assms(1,3)
  proof (induction gs)
    case (Cons h gs)
    have h: "inv h" "wf_coll gs" using Cons.prems(1) by (auto simp: wf_coll_def)
    show ?case
    proof (cases "key h = key g \<and> den h \<inter> den g \<noteq> {}")
      case True
      with plus_clash h(1) assms(2) show ?thesis by fastforce
    next
      case False
      then have "coll_den gs \<inter> {key g} \<times> den g \<noteq> {}" using Cons.prems(2) by auto
      then obtain e where "map_res (\<lambda>x. if key x = key g then plus x g else Inr x) gs = Inl e"
        using Cons.IH h(2) by blast
      then show ?thesis by (cases "if key h = key g then plus h g else Inr h") auto
    qed
  qed simp
  then show ?thesis by (auto simp: merge_eq)
qed

lemma fold_merge_disjoint:
  assumes "wf_coll gs" "wf_coll hs" "coll_den gs \<inter> coll_den hs = {}"
  shows "\<exists>ns. fold_res merge gs hs = Inr ns \<and> wf_coll ns \<and> coll_den ns = coll_den gs \<union> coll_den hs"
  using assms
proof (induction hs arbitrary: gs)
  case Nil
  then show ?case by simp
next
  case (Cons h hs)
  have h: "inv h" "wf_coll hs" and nin: "key h \<notin> key ` set hs"
    using Cons.prems(2) by (auto simp: wf_coll_def)
  have disj: "coll_den hs \<inter> {key h} \<times> den h = {}"
    using nin unfolding coll_den_def by (auto simp: image_iff)
  have "coll_den gs \<inter> {key h} \<times> den h = {}" using Cons.prems(3) by auto
  from merge_disjoint [OF Cons.prems(1) h(1) this] obtain ns where
    ns: "merge gs h = Inr ns" "wf_coll ns" "coll_den ns = coll_den gs \<union> {key h} \<times> den h"
    by auto
  have "coll_den ns \<inter> coll_den hs = {}"
    unfolding ns(3) Int_Un_distrib2 using Cons.prems(3) disj by auto
  from Cons.IH [OF ns(2) h(2) this] ns show ?case by auto
qed

end

interpretation gset: keyed_collection sid gtid_trx wf_gtid gtid_add merge_gtid
  by unfold_locales (simp add: merge_gtid_def)

section \<open>Sets of transactions\<close>

definition wf_gset :: "gtid list \<Rightarrow> bool" where
  "wf_gset gs = (distinct (map sid gs) \<and> (\<forall>g \<in> set gs. wf_gtid g))"

definition gset_trx :: "gtid list \<Rightarrow> (string \<times> int) set" where
  "gset_trx gs = {(s, t). \<exists>g \<in> set gs. sid g = s \<and> t \<in> gtid_trx g}"

lemma wf_gset_coll: "gset.wf_coll = wf_gset"
  by (simp add: fun_eq_iff gset.wf_coll_def wf_gset_def)

lemma gset_trx_coll: "gset.coll_den = gset_trx"
  by (simp add: fun_eq_iff gset.coll_den_def gset_trx_def)

lemma gtidset_init_objs: "gtidset_init (AList (map GObj gs)) = Inr gs"
  by (auto simp: map_res_map intro!: map_res_Inr [of _ _ id, simplified])

lemma gtidset_contains_gtid_iff:
  assumes "wf_gset gs" "wf_gtid g" "intervals g \<noteq> []"
  shows "gtidset_contains gs (OpGtid g) = Inr ({sid g} \<times> gtid_trx g \<subseteq> gset_trx gs)"
proof -
  have ne: "gtid_trx g \<noteq> {}"
    using assms(2,3) by (cases "intervals g") (auto simp: wf_gtid_def gtid_trx_def wf_ivs_Cons)
  have one: "x = y" if "x \<in> set gs" "y \<in> set gs" "sid x = sid y" for x y
    using that assms(1) by (auto simp: wf_gset_def distinct_map inj_on_def)
  have "list_ex (\<lambda>x. gtid_contains x g) gs \<longleftrightarrow>
      (\<exists>x \<in> set gs. sid g = sid x \<and> gtid_trx g \<subseteq> gtid_trx x)"
    using assms(1,2) gtid_contains_iff by (fastforce simp: list_ex_iff wf_gset_def)
  also have "\<dots> \<longleftrightarrow> {sid g} \<times> gtid_trx g \<subseteq> gset_trx gs" (is "?l \<longleftrightarrow> ?r")
  proof
    assume ?r
    obtain t where "t \<in> gtid_trx g" using ne by blast
    with \<open>?r\<close> obtain x where x: "x \<in> set gs" "sid x = sid g" by (auto simp: gset_trx_def)
    have "gtid_trx g \<subseteq> gtid_trx x"
    proof
      fix u assume "u \<in> gtid_trx g"
      with \<open>?r\<close> obtain y where "y \<in> set gs" "sid y = sid g" "u \<in> gtid_trx y"
        by (auto simp: gset_trx_def)
      with one [of y x] x show "u \<in> gtid_trx x" by simp
    qed
    with x show ?l by metis
  qed (auto simp: gset_trx_def)
  finally show ?thesis by simp
qed

section \<open>Reading back the textual and the binary form\<close>

definition printable_gtid :: "gtid \<Rightarrow> bool" where
  "printable_gtid g = (valid_sid (sid g) \<and> wf_gtid g \<and> nonneg_ivs (intervals g) \<and> intervals g \<noteq> [])"

definition packable_gtid :: "gtid \<Rightarrow> bool" where
  "packable_gtid g = (valid_sid (sid g) \<and> map to_lower (sid g) = sid g \<and> wf_gtid g
     \<and> u64_ivs (intervals g) \<and> intervals g \<noteq> [])"

lemma hexdigit_chars: "is_hexdigit c \<Longrightarrow> c \<notin> {CHR '','', CHR '' '', CHR 0x0A, CHR '':''}"
  by (auto simp: is_hexdigit_def)

lemma valid_sid_chars:
  assumes "valid_sid s"
  shows "set s \<inter> {CHR '','', CHR '' '', CHR 0x0A, CHR '':''} = {}"
proof -
  obtain a b c d e where s: "s = a @ CHR ''-'' # b @ CHR ''-'' # c @ CHR ''-'' # d @ CHR ''-'' # e"
    and h: "\<forall>x \<in> set (a @ b @ c @ d @ e). is_hexdigit x"
    using valid_sid_parts [OF assms] by metis
  have "\<forall>x \<in> set s. x = CHR ''-'' \<or> is_hexdigit x" using h by (auto simp: s)
  then show ?thesis using hexdigit_chars by fastforce
qed

lemma gtid_str_chars:
  assumes "printable_gtid g"
  shows "set (gtid_str g) \<inter> {CHR '','', CHR '' '', CHR 0x0A} = {}" "gtid_str g \<noteq> []"
proof -
  have iv: "interval_text (format_interval iv)" if "iv \<in> set (intervals g)" for iv
    using that assms
    by (intro interval_text_format)
      (auto simp: printable_gtid_def wf_gtid_def wf_ivs_def nonneg_ivs_def list_all_iff)
  have "set (join '':'' (map format_interval (intervals g))) \<inter> {CHR '','', CHR '' '', CHR 0x0A} = {}"
    using set_join [of "'':''" "map format_interval (intervals g)"] iv
    by (fastforce simp: interval_text_def)
  then show "set (gtid_str g) \<inter> {CHR '','', CHR '' '', CHR 0x0A} = {}"
    using valid_sid_chars [of "sid g"] assms by (auto simp: gtid_str_def printable_gtid_def)
  show "gtid_str g \<noteq> []" by (simp add: gtid_str_def)
qed

lemma strip_gtid_str:
  assumes "printable_gtid g" "set pre \<subseteq> {CHR '' '', CHR 0x0A}"
  shows "strip [CHR '' '', CHR 0x0A] (pre @ gtid_str g) = gtid_str g"
  using assms(2)
proof (induction pre)
  case Nil
  have "x \<notin> set [CHR '' '', CHR 0x0A]" if "x \<in> set (gtid_str g)" for x
    using that gtid_str_chars(1) [OF assms(1)] by auto
  then show ?case
    using gtid_str_chars(2) [OF assms(1)] by (simp add: strip_id)
next
  case (Cons c pre)
  then show ?case by (simp add: strip_Cons)
qed

lemma split_gtidset_text:
  assumes "gs \<noteq> []" "\<forall>g \<in> set gs. printable_gtid g"
  shows "split_on CHR '','' (join '','' (map gtid_str gs)) = map gtid_str gs"
    and "\<exists>ps. split_on CHR '','' (join '', '' (map gtid_str gs)) = map2 (@) ps (map gtid_str gs)
      \<and> length ps = length gs \<and> (\<forall>p \<in> set ps. set p \<subseteq> {CHR '' '', CHR 0x0A})"
proof -
  have c: "CHR '','' \<notin> set (gtid_str g)" if "g \<in> set gs" for g
    using that assms(2) gtid_str_chars(1) by fastforce
  show "split_on CHR '','' (join '','' (map gtid_str gs)) = map gtid_str gs"
    using assms(1) c by (intro split_on_join) auto
  from assms(1) c
  show "\<exists>ps. split_on CHR '','' (join '', '' (map gtid_str gs)) = map2 (@) ps (map gtid_str gs)
      \<and> length ps = length gs \<and> (\<forall>p \<in> set ps. set p \<subseteq> {CHR '' '', CHR 0x0A})"
  proof (induction gs rule: list_nonempty_induct)
    case (single g)
    then show ?case by (intro exI [of _ "[[]]"]) (simp add: split_on_no_sep)
  next
    case (cons g gs)
    then obtain ps where
      ps: "split_on CHR '','' (join '', '' (map gtid_str gs)) = map2 (@) ps (map gtid_str gs)"
        "length ps = length gs" "\<forall>p \<in> set ps. set p \<subseteq> {CHR '' '', CHR 0x0A}"
      by auto
    obtain h hs where gs: "gs = h # hs" using cons.hyps by (cases gs) auto
    obtain p ps' where p: "ps = p # ps'" using ps(2) gs by (cases ps) auto
    have "split_on CHR '','' (join '', '' (map gtid_str (g # gs)))
        = gtid_str g # split_on CHR '','' (CHR '' '' # join '', '' (map gtid_str gs))"
      using cons.prems by (simp add: gs split_on_append)
    also have "\<dots> = map2 (@) ([] # (CHR '' '' # p) # ps') (map gtid_str (g # gs))"
      using ps(1) by (simp add: gs p)
    finally show ?case
      using ps(2,3) p by (intro exI [of _ "[] # (CHR '' '' # p) # ps'"]) auto
  qed
qed

lemma gtidset_init_text:
  assumes "gs \<noteq> []" "\<forall>g \<in> set gs. printable_gtid g" "split_on CHR '','' s = map2 (@) ps (map gtid_str gs)"
    and "length ps = length gs" "\<forall>p \<in> set ps. set p \<subseteq> {CHR '' '', CHR 0x0A}" "s \<noteq> []"
  shows "gtidset_init (AText s) = Inr gs"
proof -
  have "map_res (\<lambda>x. gtid_init (strip [CHR '' '', CHR 0x0A] x) None []) (map2 (@) ps (map gtid_str gs))
      = Inr gs"
    using assms(4,2,5)
  proof (induction ps gs rule: list_induct2)
    case (Cons p ps g gs)
    then show ?case
      using strip_gtid_str [of g p] gtid_init_str [of g] by (simp add: printable_gtid_def)
  qed simp
  with assms(3,6) show ?thesis by simp
qed

lemma join_not_Nil: "gs \<noteq> [] \<Longrightarrow> join sep (map gtid_str gs) \<noteq> []"
  by (cases gs; cases "tl gs") (auto simp: gtid_str_def)

lemma gtidset_init_str:
  assumes "gs \<noteq> []" "\<forall>g \<in> set gs. printable_gtid g"
  shows "gtidset_init (AText (gtidset_str gs)) = Inr gs"
    and "gtidset_init (AText (join '', '' (map gtid_str gs))) = Inr gs"
proof -
  have 1: "split_on CHR '','' (gtidset_str gs) = map2 (@) (map (\<lambda>_. []) gs) (map gtid_str gs)"
    using split_gtidset_text(1) [OF assms]
    by (simp add: gtidset_str_def zip_map1 zip_map2 zip_same_conv_map)
  show "gtidset_init (AText (gtidset_str gs)) = Inr gs"
    by (rule gtidset_init_text [OF assms 1])
      (use join_not_Nil [OF assms(1)] in \<open>auto simp: gtidset_str_def\<close>)
  from split_gtidset_text(2) [OF assms] show "gtidset_init (AText (join '', '' (map gtid_str gs))) = Inr gs"
    using gtidset_init_text [OF assms] join_not_Nil [OF assms(1)] by metis
qed

lemma decode_gtids_encoded:
  assumes "\<forall>g \<in> set gs. packable_gtid g"
  shows "\<exists>es. map_res gtid_encode gs = Inr es \<and> decode_gtids (length gs) (concat es @ z) = Inr (gs, z)
    \<and> int (length (concat es)) = sum_list (map gtid_encoded_length gs)"
  using assms
proof (induction gs)
  case Nil
  then show ?case by simp
next
  case (Cons g gs)
  then obtain es where es: "map_res gtid_encode gs = Inr es"
      "decode_gtids (length gs) (concat es @ z) = Inr (gs, z)"
      "int (length (concat es)) = sum_list (map gtid_encoded_length gs)"
    by auto
  have "packable_gtid g" using Cons.prems by simp
  then obtain bs where bs: "gtid_encode g = Inr bs"
      "gtid_decode (bs @ concat es @ z) = Inr (g, concat es @ z)"
      "int (length bs) = gtid_encoded_length g"
    using gtid_decode_encode [of g "concat es @ z"] encoded_length_correct [of g]
    by (auto simp: packable_gtid_def)
  with es show ?case by (intro exI [of _ "bs # es"]) simp
qed

lemma gtidset_decode_encoded:
  assumes "\<forall>g \<in> set gs. packable_gtid g" "length gs < 256 ^ 8"
  shows "\<exists>bs. gtidset_encoded gs = Inr bs \<and> int (length bs) = gtidset_encoded_length gs
    \<and> gtidset_decode (bs @ z) = Inr (gs, z)"
proof -
  let ?n = "le_bytes 8 (int (length gs))"
  obtain es where es: "map_res gtid_encode gs = Inr es"
      "decode_gtids (length gs) (concat es @ z) = Inr (gs, z)"
      "int (length (concat es)) = sum_list (map gtid_encoded_length gs)"
    using decode_gtids_encoded [OF assms(1)] by blast
  have n: "pack_uint 8 (int (length gs)) = Inr ?n" "unpack_uint 8 ?n = Inr (int (length gs))"
    using assms(2) by (auto intro!: pack_uint_ok unpack_uint_le_bytes)
  have "gtidset_encoded gs = Inr (?n @ concat es)" using es n by (simp add: gtidset_encoded_def)
  moreover have "gtidset_decode ((?n @ concat es) @ z) = Inr (gs, z)"
    using es n gtidset_init_objs [of gs] by (simp add: gtidset_decode_def del: gtidset_init.simps)
  moreover have "int (length (?n @ concat es)) = gtidset_encoded_length gs"
    using es(3) by (simp add: gtidset_encoded_length_def)
  ultimately show ?thesis by blast
qed

lemma list_eq_iff: "list_eq gs hs \<longleftrightarrow> gs = hs"
  by (induction gs hs rule: list_eq.induct) (auto simp: gtid_order_methods(5))

section \<open>Correctness of the operations of GtidSet\<close>

lemma gtidset_add_set_disjoint:
  assumes "wf_gset gs" "wf_gset hs" "gset_trx gs \<inter> gset_trx hs = {}"
  shows "\<exists>r. gtidset_add gs (OpSet hs) = Inr r \<and> wf_gset r \<and> gset_trx r = gset_trx gs \<union> gset_trx hs"
  using gset.fold_merge_disjoint [of gs hs] assms gtidset_init_objs [of gs]
  by (simp add: wf_gset_coll gset_trx_coll del: gtidset_init.simps)

text \<open>C14: \<open>a + b\<close> of two GtidSets without a common transaction is their union, with one canonical Gtid
  per server again.\<close>

theorem gtidset_add_union:
  assumes "wf_gset gs" "wf_gset hs" "gset_trx gs \<inter> gset_trx hs = {}"
  shows "\<exists>r. gtidset_add gs (OpSet hs) = Inr r \<and> wf_gset r \<and> gset_trx r = gset_trx gs \<union> gset_trx hs"
  using assms by (rule gtidset_add_set_disjoint)

theorem gtidset_add_union_witness:
  "\<exists>r. gtidset_add [\<lparr>sid = ''a'', intervals = [(1, 5)]\<rparr>]
        (OpSet [\<lparr>sid = ''b'', intervals = [(1, 3)]\<rparr>, \<lparr>sid = ''a'', intervals = [(5, 7)]\<rparr>]) = Inr r
     \<and> wf_gset r \<and> (''a'', 6) \<in> gset_trx r \<and> (''b'', 2) \<in> gset_trx r"
proof -
  let ?g = "[\<lparr>sid = ''a'', intervals = [(1, 5)]\<rparr>]"
  let ?h = "[\<lparr>sid = ''b'', intervals = [(1, 3)]\<rparr>, \<lparr>sid = ''a'', intervals = [(5, 7)]\<rparr>]"
  have w: "wf_gset ?g" "wf_gset ?h" by (simp_all add: wf_gset_def wf_gtid_def wf_ivs_Cons)
  have "gset_trx ?g \<inter> gset_trx ?h = {}" by (auto simp: gset_trx_def gtid_trx_def)
  moreover have "(''a'', 6) \<in> gset_trx ?h" "(''b'', 2) \<in> gset_trx ?h"
    by (auto simp: gset_trx_def gtid_trx_def)
  ultimately show ?thesis using gtidset_add_union [OF w] by blast
qed

text \<open>merging a Gtid into a GtidSet adds exactly its transactions when none of them is there yet.
  It raises, and so never loses a transaction silently, when one is.\<close>

theorem merge_gtid_union_or_raise:
  assumes "wf_gset gs" "wf_gtid g"
  shows "if gset_trx gs \<inter> {sid g} \<times> gtid_trx g = {}
    then \<exists>r. merge_gtid gs g = Inr r \<and> wf_gset r \<and> gset_trx r = gset_trx gs \<union> {sid g} \<times> gtid_trx g
    else \<exists>e. merge_gtid gs g = Inl e"
  using gset.merge_disjoint [of gs g] gset.merge_clash [of gs g] assms
  by (simp add: wf_gset_coll gset_trx_coll)

theorem merge_gtid_union_or_raise_witness:
  "(\<exists>e. merge_gtid [\<lparr>sid = ''a'', intervals = [(1, 5)]\<rparr>] \<lparr>sid = ''a'', intervals = [(4, 5)]\<rparr> = Inl e)"
proof -
  have "(''a'', 4) \<in> gset_trx [\<lparr>sid = ''a'', intervals = [(1, 5)]\<rparr>]
      \<inter> {''a''} \<times> gtid_trx \<lparr>sid = ''a'', intervals = [(4, 5)]\<rparr>"
    by (simp add: gset_trx_def gtid_trx_def)
  then show ?thesis
    using merge_gtid_union_or_raise [of "[\<lparr>sid = ''a'', intervals = [(1, 5)]\<rparr>]" "\<lparr>sid = ''a'', intervals = [(4, 5)]\<rparr>"]
    by (auto simp: wf_gset_def wf_gtid_def wf_ivs_Cons split: if_splits)
qed



text \<open>C16: \<open>GtidSet(str(s))\<close> is \<open>s\<close>, also when the Gtids are separated by a comma and a blank, the form
  in which the checkpoint writes them.\<close>

theorem gtidset_text_roundtrip:
  assumes "gs \<noteq> []" "\<forall>g \<in> set gs. printable_gtid g"
  shows "gtidset_init (AText (gtidset_str gs)) = Inr gs
    \<and> gtidset_init (AText (join '', '' (map gtid_str gs))) = Inr gs"
  using gtidset_init_str [OF assms] by simp

theorem gtidset_text_roundtrip_witness:
  "gtidset_init (AText ''3e11fa47-71ca-11e1-9e33-c80aa9429562:1-5, 4e11fa47-71ca-11e1-9e33-c80aa9429562:7'')
     = Inr [\<lparr>sid = ''3e11fa47-71ca-11e1-9e33-c80aa9429562'', intervals = [(1, 6)]\<rparr>,
            \<lparr>sid = ''4e11fa47-71ca-11e1-9e33-c80aa9429562'', intervals = [(7, 8)]\<rparr>]"
  using gtidset_text_roundtrip [of "[\<lparr>sid = ''3e11fa47-71ca-11e1-9e33-c80aa9429562'', intervals = [(1, 6)]\<rparr>,
            \<lparr>sid = ''4e11fa47-71ca-11e1-9e33-c80aa9429562'', intervals = [(7, 8)]\<rparr>]"]
  by (simp add: printable_gtid_def valid_sid_def is_hexdigit_def wf_gtid_def wf_ivs_Cons
      nonneg_ivs_def gtid_str_def format_interval_def str_int_def str_nat.simps digit_char_literals
      del: gtidset_init.simps)

text \<open>C15: \<open>encode\<close> of a GtidSet writes exactly \<open>encoded_length\<close> bytes, and \<open>decode\<close> of them, followed
  by anything, returns the set and leaves the rest unread.\<close>

theorem gtidset_binary_roundtrip:
  assumes "\<forall>g \<in> set gs. packable_gtid g" "length gs < 256 ^ 8"
  shows "\<exists>bs. gtidset_encoded gs = Inr bs \<and> int (length bs) = gtidset_encoded_length gs
    \<and> gtidset_decode (bs @ z) = Inr (gs, z)"
  using assms by (rule gtidset_decode_encoded)

theorem gtidset_binary_roundtrip_witness:
  "\<exists>bs. gtidset_encoded [\<lparr>sid = ''3e11fa47-71ca-11e1-9e33-c80aa9429562'', intervals = [(1, 6)]\<rparr>] = Inr bs
     \<and> length bs = 48
     \<and> gtidset_decode (bs @ [])
        = Inr ([\<lparr>sid = ''3e11fa47-71ca-11e1-9e33-c80aa9429562'', intervals = [(1, 6)]\<rparr>], [])"
  using gtidset_binary_roundtrip [of "[\<lparr>sid = ''3e11fa47-71ca-11e1-9e33-c80aa9429562'', intervals = [(1, 6)]\<rparr>]" "[]"]
  by (simp add: packable_gtid_def valid_sid_def is_hexdigit_def to_lower_def wf_gtid_def wf_ivs_Cons
      u64_ivs_def gtid_encoded_length_def gtidset_encoded_length_def)

end
