(* ===== verification/Py_Value.thy ===== *)
theory Py_Value
  imports Py_Regex
begin

text \<open>
  The Python values that column and JSON decoding produce and that the synchroniser passes on as
  statement parameters. A float keeps the bytes of its IEEE representation, a decimal its textual
  form, a set the order in which it is iterated. \<open>py_int\<close> is \<open>int(text, base)\<close> for the bases 2 and 10.
\<close>

datatype pyval =
    PNone
  | PBool bool
  | PInt int
  | PFloat bytes
  | PStr string
  | PBytes bytes
  | PDecimal string
  | PDate int int int
  | PTime int int int int
  | PDatetime int int int int int int int
  | PTimedelta int
  | PSet "string list"
  | PList "pyval list"
  | PDict "(pyval \<times> pyval) list"

section \<open>Integers from text\<close>

text \<open>\<open>int\<close> strips white space, takes a sign, in base 2 an optional prefix \<open>0b\<close>, and digits that
  single underscores may separate.\<close>

definition strip_space :: "string \<Rightarrow> string" where
  "strip_space s = rev (dropWhile is_space (rev (dropWhile is_space s)))"

definition base_digit :: "nat \<Rightarrow> char \<Rightarrow> bool" where
  "base_digit base c = (is_digit c \<and> char_digit c < base)"

fun grouped_digits :: "nat \<Rightarrow> nat \<Rightarrow> string \<Rightarrow> nat option" where
  "grouped_digits base acc [] = Some acc"
| "grouped_digits base acc (c # cs) =
     (if base_digit base c then grouped_digits base (base * acc + char_digit c) cs
      else if c = CHR ''_'' then
        (case cs of
           [] \<Rightarrow> None
         | d # ds \<Rightarrow> if base_digit base d then grouped_digits base (base * acc + char_digit d) ds else None)
      else None)"

definition unsigned_numeral :: "nat \<Rightarrow> string \<Rightarrow> nat option" where
  "unsigned_numeral base s =
     (case s of [] \<Rightarrow> None
      | c # _ \<Rightarrow> if base_digit base c then grouped_digits base 0 s else None)"

definition drop_prefix :: "nat \<Rightarrow> string \<Rightarrow> string" where
  "drop_prefix base s =
     (case s of
        a # b # c # r \<Rightarrow>
          if base = 2 \<and> a = CHR ''0'' \<and> to_lower b = CHR ''b'' then
            (if c = CHR ''_'' then r else c # r) else s
      | _ \<Rightarrow> s)"

definition py_int :: "nat \<Rightarrow> string \<Rightarrow> int res" where
  "py_int base s =
     (case strip_space s of
        [] \<Rightarrow> Inl ValueError
      | c # cs \<Rightarrow>
          let (sign, r) = (if c = CHR ''-'' then (-1, cs) else if c = CHR ''+'' then (1, cs) else (1, c # cs))
          in case unsigned_numeral base (drop_prefix base r) of
               None \<Rightarrow> Inl ValueError
             | Some n \<Rightarrow> Inr (sign * int n))"

lemma grouped_digits_val:
  "\<forall>c \<in> set s. is_digit c \<Longrightarrow> grouped_digits 10 acc s = Some (digits_val_acc acc s)"
proof (induction s arbitrary: acc)
  case (Cons c s)
  then have "char_digit c < 10" by (auto simp: is_digit_def char_digit_def)
  with Cons show ?case by (simp add: base_digit_def)
qed simp

lemma digit_not_space: "is_digit c \<Longrightarrow> \<not> is_space c"
  by (auto simp: is_digit_def is_space_def Let_def)

lemma strip_space_id:
  assumes "\<forall>c \<in> set s. \<not> is_space c"
  shows "strip_space s = s"
proof -
  have "dropWhile is_space t = t" if "set t = set s" for t
    using that assms by (cases t) auto
  then show ?thesis by (simp add: strip_space_def)
qed

lemma py_int_digits:
  assumes "s \<noteq> []" "\<forall>c \<in> set s. is_digit c"
  shows "py_int 10 s = Inr (int (digits_val s))"
proof -
  obtain c cs where s: "s = c # cs" using assms(1) by (cases s) auto
  have c: "is_digit c" "char_digit c < 10" "c \<noteq> CHR ''-''" "c \<noteq> CHR ''+''"
    using assms(2) s by (auto simp: is_digit_def char_digit_def)
  have "strip_space s = s" using assms(2) digit_not_space by (intro strip_space_id) blast
  moreover have "drop_prefix 10 s = s" by (simp add: drop_prefix_def split: list.splits)
  moreover have "unsigned_numeral 10 s = Some (digits_val s)"
    using assms(2) grouped_digits_val [of s 0] c
    by (simp add: unsigned_numeral_def s base_digit_def digits_val_def)
  ultimately show ?thesis using c by (simp add: py_int_def s)
qed

lemma py_int_str_nat [simp]: "py_int 10 (str_nat n) = Inr (int n)"
  using py_int_digits [of "str_nat n"] str_nat_digits by simp

end
