(* ===== verification/Constants.thy ===== *)
theory Constants
  imports Py_Base
begin

text \<open>
  The protocol constants of \<open>pymysqlreplication/constants\<close>: column types (\<open>FT_\<close>, from
  \<open>FIELD_TYPE.py\<close>), event types (from \<open>BINLOG.py\<close>), keys of the status variables of a query event
  (\<open>Q_\<close>, from \<open>STATUS_VAR_KEY.py\<close>) and the reasons for a missing value (\<open>NS_\<close>, from
  \<open>NONE_SOURCE.py\<close>). The definitions are simplification rules, so that the dispatch on a type code
  computes.
\<close>

section \<open>Column types\<close>

definition FT_DECIMAL :: int where [simp]: "FT_DECIMAL = 0"
definition FT_TINY :: int where [simp]: "FT_TINY = 1"
definition FT_SHORT :: int where [simp]: "FT_SHORT = 2"
definition FT_LONG :: int where [simp]: "FT_LONG = 3"
definition FT_FLOAT :: int where [simp]: "FT_FLOAT = 4"
definition FT_DOUBLE :: int where [simp]: "FT_DOUBLE = 5"
definition FT_NULL :: int where [simp]: "FT_NULL = 6"
definition FT_TIMESTAMP :: int where [simp]: "FT_TIMESTAMP = 7"
definition FT_LONGLONG :: int where [simp]: "FT_LONGLONG = 8"
definition FT_INT24 :: int where [simp]: "FT_INT24 = 9"
definition FT_DATE :: int where [simp]: "FT_DATE = 10"
definition FT_TIME :: int where [simp]: "FT_TIME = 11"
definition FT_DATETIME :: int where [simp]: "FT_DATETIME = 12"
definition FT_YEAR :: int where [simp]: "FT_YEAR = 13"
definition FT_NEWDATE :: int where [simp]: "FT_NEWDATE = 14"
definition FT_VARCHAR :: int where [simp]: "FT_VARCHAR = 15"
definition FT_BIT :: int where [simp]: "FT_BIT = 16"
definition FT_TIMESTAMP2 :: int where [simp]: "FT_TIMESTAMP2 = 17"
definition FT_DATETIME2 :: int where [simp]: "FT_DATETIME2 = 18"
definition FT_TIME2 :: int where [simp]: "FT_TIME2 = 19"
definition FT_JSON :: int where [simp]: "FT_JSON = 245"
definition FT_NEWDECIMAL :: int where [simp]: "FT_NEWDECIMAL = 246"
definition FT_ENUM :: int where [simp]: "FT_ENUM = 247"
definition FT_SET :: int where [simp]: "FT_SET = 248"
definition FT_TINY_BLOB :: int where [simp]: "FT_TINY_BLOB = 249"
definition FT_MEDIUM_BLOB :: int where [simp]: "FT_MEDIUM_BLOB = 250"
definition FT_LONG_BLOB :: int where [simp]: "FT_LONG_BLOB = 251"
definition FT_BLOB :: int where [simp]: "FT_BLOB = 252"
definition FT_VAR_STRING :: int where [simp]: "FT_VAR_STRING = 253"
definition FT_STRING :: int where [simp]: "FT_STRING = 254"
definition FT_GEOMETRY :: int where [simp]: "FT_GEOMETRY = 255"
definition FT_CHAR :: int where [simp]: "FT_CHAR = FT_TINY"
definition FT_INTERVAL :: int where [simp]: "FT_INTERVAL = FT_ENUM"

section \<open>Event types\<close>

definition UNKNOWN_EVENT :: int where [simp]: "UNKNOWN_EVENT = 0"
definition START_EVENT_V3 :: int where [simp]: "START_EVENT_V3 = 1"
definition QUERY_EVENT :: int where [simp]: "QUERY_EVENT = 2"
definition STOP_EVENT :: int where [simp]: "STOP_EVENT = 3"
definition ROTATE_EVENT :: int where [simp]: "ROTATE_EVENT = 4"
definition INTVAR_EVENT :: int where [simp]: "INTVAR_EVENT = 5"
definition LOAD_EVENT :: int where [simp]: "LOAD_EVENT = 6"
definition SLAVE_EVENT :: int where [simp]: "SLAVE_EVENT = 7"
definition CREATE_FILE_EVENT :: int where [simp]: "CREATE_FILE_EVENT = 8"
definition APPEND_BLOCK_EVENT :: int where [simp]: "APPEND_BLOCK_EVENT = 9"
definition EXEC_LOAD_EVENT :: int where [simp]: "EXEC_LOAD_EVENT = 10"
definition DELETE_FILE_EVENT :: int where [simp]: "DELETE_FILE_EVENT = 11"
definition NEW_LOAD_EVENT :: int where [simp]: "NEW_LOAD_EVENT = 12"
definition RAND_EVENT :: int where [simp]: "RAND_EVENT = 13"
definition USER_VAR_EVENT :: int where [simp]: "USER_VAR_EVENT = 14"
definition FORMAT_DESCRIPTION_EVENT :: int where [simp]: "FORMAT_DESCRIPTION_EVENT = 15"
definition XID_EVENT :: int where [simp]: "XID_EVENT = 16"
definition BEGIN_LOAD_QUERY_EVENT :: int where [simp]: "BEGIN_LOAD_QUERY_EVENT = 17"
definition EXECUTE_LOAD_QUERY_EVENT :: int where [simp]: "EXECUTE_LOAD_QUERY_EVENT = 18"
definition TABLE_MAP_EVENT :: int where [simp]: "TABLE_MAP_EVENT = 19"
definition PRE_GA_WRITE_ROWS_EVENT :: int where [simp]: "PRE_GA_WRITE_ROWS_EVENT = 20"
definition PRE_GA_UPDATE_ROWS_EVENT :: int where [simp]: "PRE_GA_UPDATE_ROWS_EVENT = 21"
definition PRE_GA_DELETE_ROWS_EVENT :: int where [simp]: "PRE_GA_DELETE_ROWS_EVENT = 22"
definition WRITE_ROWS_EVENT_V1 :: int where [simp]: "WRITE_ROWS_EVENT_V1 = 23"
definition UPDATE_ROWS_EVENT_V1 :: int where [simp]: "UPDATE_ROWS_EVENT_V1 = 24"
definition DELETE_ROWS_EVENT_V1 :: int where [simp]: "DELETE_ROWS_EVENT_V1 = 25"
definition INCIDENT_EVENT :: int where [simp]: "INCIDENT_EVENT = 26"
definition HEARTBEAT_LOG_EVENT :: int where [simp]: "HEARTBEAT_LOG_EVENT = 27"
definition IGNORABLE_LOG_EVENT :: int where [simp]: "IGNORABLE_LOG_EVENT = 28"
definition ROWS_QUERY_LOG_EVENT :: int where [simp]: "ROWS_QUERY_LOG_EVENT = 29"
definition WRITE_ROWS_EVENT_V2 :: int where [simp]: "WRITE_ROWS_EVENT_V2 = 30"
definition UPDATE_ROWS_EVENT_V2 :: int where [simp]: "UPDATE_ROWS_EVENT_V2 = 31"
definition DELETE_ROWS_EVENT_V2 :: int where [simp]: "DELETE_ROWS_EVENT_V2 = 32"
definition GTID_LOG_EVENT :: int where [simp]: "GTID_LOG_EVENT = 33"
definition ANONYMOUS_GTID_LOG_EVENT :: int where [simp]: "ANONYMOUS_GTID_LOG_EVENT = 34"
definition PREVIOUS_GTIDS_LOG_EVENT :: int where [simp]: "PREVIOUS_GTIDS_LOG_EVENT = 35"
definition XA_PREPARE_EVENT :: int where [simp]: "XA_PREPARE_EVENT = 38"
definition PARTIAL_UPDATE_ROWS_EVENT :: int where [simp]: "PARTIAL_UPDATE_ROWS_EVENT = 39"
definition INTVAR_INVALID_INT_EVENT :: int where [simp]: "INTVAR_INVALID_INT_EVENT = 0"
definition INTVAR_LAST_INSERT_ID_EVENT :: int where [simp]: "INTVAR_LAST_INSERT_ID_EVENT = 1"
definition INTVAR_INSERT_ID_EVENT :: int where [simp]: "INTVAR_INSERT_ID_EVENT = 2"
definition MARIADB_ANNOTATE_ROWS_EVENT :: int where [simp]: "MARIADB_ANNOTATE_ROWS_EVENT = 160"
definition MARIADB_BINLOG_CHECKPOINT_EVENT :: int where [simp]: "MARIADB_BINLOG_CHECKPOINT_EVENT = 161"
definition MARIADB_GTID_EVENT :: int where [simp]: "MARIADB_GTID_EVENT = 162"
definition MARIADB_GTID_GTID_LIST_EVENT :: int where [simp]: "MARIADB_GTID_GTID_LIST_EVENT = 163"
definition MARIADB_START_ENCRYPTION_EVENT :: int where [simp]: "MARIADB_START_ENCRYPTION_EVENT = 164"
definition BINLOG_CHECKSUM_LEN :: int where [simp]: "BINLOG_CHECKSUM_LEN = 4"

section \<open>Status variables of a query event\<close>

definition Q_FLAGS2_CODE :: int where [simp]: "Q_FLAGS2_CODE = 0"
definition Q_SQL_MODE_CODE :: int where [simp]: "Q_SQL_MODE_CODE = 1"
definition Q_CATALOG_CODE :: int where [simp]: "Q_CATALOG_CODE = 2"
definition Q_AUTO_INCREMENT :: int where [simp]: "Q_AUTO_INCREMENT = 3"
definition Q_CHARSET_CODE :: int where [simp]: "Q_CHARSET_CODE = 4"
definition Q_TIME_ZONE_CODE :: int where [simp]: "Q_TIME_ZONE_CODE = 5"
definition Q_CATALOG_NZ_CODE :: int where [simp]: "Q_CATALOG_NZ_CODE = 6"
definition Q_LC_TIME_NAMES_CODE :: int where [simp]: "Q_LC_TIME_NAMES_CODE = 7"
definition Q_CHARSET_DATABASE_CODE :: int where [simp]: "Q_CHARSET_DATABASE_CODE = 8"
definition Q_TABLE_MAP_FOR_UPDATE_CODE :: int where [simp]: "Q_TABLE_MAP_FOR_UPDATE_CODE = 9"
definition Q_MASTER_DATA_WRITTEN_CODE :: int where [simp]: "Q_MASTER_DATA_WRITTEN_CODE = 10"
definition Q_INVOKER :: int where [simp]: "Q_INVOKER = 11"
definition Q_UPDATED_DB_NAMES :: int where [simp]: "Q_UPDATED_DB_NAMES = 12"
definition Q_MICROSECONDS :: int where [simp]: "Q_MICROSECONDS = 13"
definition Q_COMMIT_TS :: int where [simp]: "Q_COMMIT_TS = 14"
definition Q_COMMIT_TS2 :: int where [simp]: "Q_COMMIT_TS2 = 15"
definition Q_EXPLICIT_DEFAULTS_FOR_TIMESTAMP :: int where [simp]: "Q_EXPLICIT_DEFAULTS_FOR_TIMESTAMP = 16"
definition Q_DDL_LOGGED_WITH_XID :: int where [simp]: "Q_DDL_LOGGED_WITH_XID = 17"
definition Q_DEFAULT_COLLATION_FOR_UTF8MB4 :: int where [simp]: "Q_DEFAULT_COLLATION_FOR_UTF8MB4 = 18"
definition Q_SQL_REQUIRE_PRIMARY_KEY :: int where [simp]: "Q_SQL_REQUIRE_PRIMARY_KEY = 19"
definition Q_DEFAULT_TABLE_ENCRYPTION :: int where [simp]: "Q_DEFAULT_TABLE_ENCRYPTION = 20"
definition Q_HRNOW :: int where [simp]: "Q_HRNOW = 128"
definition Q_XID :: int where [simp]: "Q_XID = 129"

section \<open>Why a value is missing\<close>

definition NS_NULL :: string where [simp]: "NS_NULL = ''null''"
definition NS_OUT_OF_DATE_RANGE :: string where [simp]: "NS_OUT_OF_DATE_RANGE = ''out of date range''"
definition NS_OUT_OF_DATETIME_RANGE :: string where [simp]: "NS_OUT_OF_DATETIME_RANGE = ''out of datetime range''"
definition NS_OUT_OF_DATETIME2_RANGE :: string where [simp]: "NS_OUT_OF_DATETIME2_RANGE = ''out of datetime2 range''"
definition NS_EMPTY_SET :: string where [simp]: "NS_EMPTY_SET = ''empty set''"
definition NS_COLS_BITMAP :: string where [simp]: "NS_COLS_BITMAP = ''cols bitmap''"
definition NS_JSON_PARTIAL_UPDATE :: string where [simp]: "NS_JSON_PARTIAL_UPDATE = ''same with before values''"

end
