(* ===== verification/Operations.thy ===== *)
theory Operations
  imports Py_Value Constants
begin

text \<open>
  \<open>main.py\<close>, lines 67 to 163: the operations that the replication side hands to the target side and
  their translation to parameterised SQL. The lemmas count the placeholders of the generated
  statements against the parameters, and say which rows a statement is restricted to.
\<close>

section \<open>Definitions\<close>

datatype non_dml_type =
    CREATEDATABASE
  | DROPDATABASE
  | ALTERDATABASE
  | CREATETABLE
  | ALTERTABLE
  | DROPTABLE
  | RENAMETABLE
  | TRUNCATETABLE
  | CREATEINDEX

fun non_dml_value :: "non_dml_type \<Rightarrow> string" where
  "non_dml_value CREATEDATABASE = ''nondml_createdatabase''"
| "non_dml_value DROPDATABASE = ''nondml_dropdatabase''"
| "non_dml_value ALTERDATABASE = ''nondml_alterdatabase''"
| "non_dml_value CREATETABLE = ''nondml_createtable''"
| "non_dml_value ALTERTABLE = ''nondml_altertable''"
| "non_dml_value DROPTABLE = ''nondml_droptable''"
| "non_dml_value RENAMETABLE = ''nondml_renametable''"
| "non_dml_value TRUNCATETABLE = ''nondml_truncatetable''"
| "non_dml_value CREATEINDEX = ''nondml_createindex''"

type_synonym row_values = "(string, pyval) dict"

text \<open>The primary key of an event is a string, a tuple of strings, or \<open>None\<close>; the empty string and
  the empty tuple count as no key.\<close>

datatype primary_key = PkNone | PkStr string | PkTuple "string list"

record dml_insert =
  ins_schema :: string
  ins_table :: string
  ins_values :: row_values
  ins_primary_key :: primary_key

record dml_delete =
  del_schema :: string
  del_table :: string
  del_values :: row_values
  del_primary_key :: primary_key

record dml_update =
  upd_schema :: string
  upd_table :: string
  after_values :: row_values
  before_values :: row_values
  upd_primary_key :: primary_key

datatype operation_dml =
    DmlInsert dml_insert
  | DmlDelete dml_delete
  | DmlUpdate dml_update

record operation_non_dml =
  oper_type :: non_dml_type
  nd_schema :: "string option"
  nd_table :: "string option"
  nd_query :: string

record operation_gtid =
  server_uuid :: string
  xid :: string
  last_committed :: int

datatype operation =
    OperationNonDML operation_non_dml
  | OperationDML operation_dml
  | OperationHeartbeat
  | OperationCommit
  | OperationBegin
  | OperationGtid operation_gtid

fun dml_schema :: "operation_dml \<Rightarrow> string" where
  "dml_schema (DmlInsert r) = ins_schema r"
| "dml_schema (DmlDelete r) = del_schema r"
| "dml_schema (DmlUpdate r) = upd_schema r"

fun dml_table :: "operation_dml \<Rightarrow> string" where
  "dml_table (DmlInsert r) = ins_table r"
| "dml_table (DmlDelete r) = del_table r"
| "dml_table (DmlUpdate r) = upd_table r"

fun key_columns :: "primary_key \<Rightarrow> string list" where
  "key_columns PkNone = []"
| "key_columns (PkStr k) = (if k = [] then [] else [k])"
| "key_columns (PkTuple ks) = ks"

definition backquoted :: "string \<Rightarrow> string" where
  "backquoted k = CHR 0x60 # k @ [CHR 0x60]"

definition condition_of :: "string list \<Rightarrow> string" where
  "condition_of ks = join '' AND '' (map (\<lambda>k. backquoted k @ '' = %s'') ks)"

definition generate_condition_and_values ::
    "primary_key \<Rightarrow> row_values \<Rightarrow> (string \<times> pyval list) res" where
  "generate_condition_and_values primary_key values =
     (if key_columns primary_key \<noteq> [] then
        bind_res (map_res (\<lambda>k. dict_get k values) (key_columns primary_key))
          (\<lambda>primary_values. Inr (condition_of (key_columns primary_key), primary_values))
      else Inr (condition_of (dict_keys values), dict_values values))"

definition qualified_name :: "string \<Rightarrow> string \<Rightarrow> string" where
  "qualified_name schema table = backquoted schema @ ''.'' @ backquoted table"

fun dmlOperation2Sql :: "operation_dml \<Rightarrow> (string \<times> pyval list) res" where
  "dmlOperation2Sql (DmlInsert r) =
     (let keys = join '', '' (dict_keys (ins_values r));
          values_placeholder = join '','' (map (\<lambda>_. ''%s'') (ins_values r))
      in Inr (''REPLACE INTO '' @ qualified_name (ins_schema r) (ins_table r) @ ''('' @ keys @ '') VALUES(''
                @ values_placeholder @ '')'',
              dict_values (ins_values r)))"
| "dmlOperation2Sql (DmlDelete r) =
     bind_res (generate_condition_and_values (del_primary_key r) (del_values r))
       (\<lambda>(condition, primary_values).
          Inr (''DELETE FROM '' @ qualified_name (del_schema r) (del_table r) @ '' WHERE '' @ condition,
               primary_values))"
| "dmlOperation2Sql (DmlUpdate r) =
     (let set_clause = join '', '' (map (\<lambda>k. k @ '' = %s'') (dict_keys (after_values r)))
      in bind_res (generate_condition_and_values (upd_primary_key r) (before_values r))
           (\<lambda>(condition, primary_values).
              Inr (''UPDATE '' @ qualified_name (upd_schema r) (upd_table r) @ '' SET '' @ set_clause
                     @ '' WHERE '' @ condition,
                   dict_values (after_values r) @ primary_values)))"

section \<open>Placeholders\<close>

text \<open>The connector replaces the occurrences of \<open>%s\<close> from left to right by the parameters.\<close>

fun placeholders :: "string \<Rightarrow> nat" where
  "placeholders [] = 0"
| "placeholders [c] = 0"
| "placeholders (c # d # cs) =
     (if c = CHR ''%'' \<and> d = CHR ''s'' then Suc (placeholders cs) else placeholders (d # cs))"

definition plain :: "string \<Rightarrow> bool" where
  "plain s = (CHR ''%'' \<notin> set s)"

fun row_of :: "operation_dml \<Rightarrow> row_values list" where
  "row_of (DmlInsert r) = [ins_values r]"
| "row_of (DmlDelete r) = [del_values r]"
| "row_of (DmlUpdate r) = [after_values r, before_values r]"

fun pk_of :: "operation_dml \<Rightarrow> primary_key" where
  "pk_of (DmlInsert r) = ins_primary_key r"
| "pk_of (DmlDelete r) = del_primary_key r"
| "pk_of (DmlUpdate r) = upd_primary_key r"

definition plain_names :: "operation_dml \<Rightarrow> bool" where
  "plain_names d = (plain (dml_schema d) \<and> plain (dml_table d)
     \<and> list_all (\<lambda>r. list_all plain (dict_keys r)) (row_of d)
     \<and> list_all plain (key_columns (pk_of d)))"

lemma placeholders_plain: "plain s \<Longrightarrow> placeholders (s @ t) = placeholders t"
proof (induction s)
  case (Cons c s)
  then show ?case by (cases "s @ t") (auto simp: plain_def)
qed simp

lemma placeholders_mark [simp]: "placeholders (CHR ''%'' # CHR ''s'' # t) = Suc (placeholders t)"
  by simp

lemma plain_simps [simp]:
  "plain []" "plain (c # s) \<longleftrightarrow> c \<noteq> CHR ''%'' \<and> plain s" "plain (s @ t) \<longleftrightarrow> plain s \<and> plain t"
  by (auto simp: plain_def)

lemma placeholders_Cons [simp]: "c \<noteq> CHR ''%'' \<Longrightarrow> placeholders (c # t) = placeholders t"
  by (cases t) simp_all

lemma placeholders_join:
  assumes "\<And>x t. x \<in> set xs \<Longrightarrow> placeholders (x @ t) = n + placeholders t" "plain sep"
  shows "placeholders (join sep xs @ t) = n * length xs + placeholders t"
  using assms by (induction sep xs rule: join.induct) (auto simp: placeholders_plain)

lemma plain_join: "plain sep \<Longrightarrow> list_all plain xs \<Longrightarrow> plain (join sep xs)"
  by (induction sep xs rule: join.induct) auto

lemma placeholders_condition:
  "list_all plain ks \<Longrightarrow> placeholders (condition_of ks @ t) = length ks + placeholders t"
  unfolding condition_of_def
  by (subst placeholders_join [where n = 1])
    (auto simp: backquoted_def placeholders_plain list_all_iff)

lemma placeholders_qualified:
  "plain s \<Longrightarrow> plain u \<Longrightarrow> placeholders (qualified_name s u @ t) = placeholders t"
  by (simp add: qualified_name_def backquoted_def placeholders_plain)

lemma generate_condition_placeholders:
  assumes "generate_condition_and_values pk values = Inr (c, vs)"
    and "list_all plain (dict_keys values)" "list_all plain (key_columns pk)"
  shows "placeholders c = length vs"
  using assms placeholders_condition [of "key_columns pk" "[]"] placeholders_condition [of "dict_keys values" "[]"]
  by (auto simp: generate_condition_and_values_def dict_keys_def dict_values_def
      dest: map_res_length split: if_splits)

lemma dml_placeholders:
  assumes "dmlOperation2Sql d = Inr (sql, params)" "plain_names d"
  shows "placeholders sql = length params"
proof (cases d)
  case (DmlInsert r)
  have "placeholders (join '','' (map (\<lambda>_. ''%s'') (ins_values r)) @ '')'') = length (ins_values r)"
    by (subst placeholders_join [where n = 1]) auto
  with DmlInsert assms show ?thesis
    by (auto simp: plain_names_def placeholders_qualified placeholders_plain plain_join dict_values_def)
next
  case (DmlDelete r)
  with assms generate_condition_placeholders show ?thesis
    by (fastforce simp: plain_names_def placeholders_qualified)
next
  case (DmlUpdate r)
  have "placeholders (join '', '' (map (\<lambda>k. k @ '' = %s'') (dict_keys (after_values r))) @ t)
      = length (after_values r) + placeholders t" for t
    using assms(2) DmlUpdate
    by (subst placeholders_join [where n = 1])
      (auto simp: plain_names_def placeholders_plain list_all_iff dict_keys_def)
  with DmlUpdate assms generate_condition_placeholders show ?thesis
    by (fastforce simp: plain_names_def placeholders_qualified dict_values_def)
qed

text \<open>C24: the statement generated for a row operation has exactly as many placeholders as parameters,
  whenever the schema, table and column names contain no percent sign.\<close>

theorem dml_placeholders_match:
  assumes "dmlOperation2Sql d = Inr (sql, params)" "plain_names d"
  shows "placeholders sql = length params"
  using assms by (rule dml_placeholders)

theorem dml_placeholders_match_witness:
  "\<exists>sql params. dmlOperation2Sql (DmlUpdate \<lparr>upd_schema = ''db'', upd_table = ''t'',
      after_values = [(''id'', PInt 1), (''v'', PNone)], before_values = [(''id'', PInt 1), (''v'', PInt 7)],
      upd_primary_key = PkStr ''id''\<rparr>) = Inr (sql, params)
    \<and> placeholders sql = length params \<and> params = [PInt 1, PNone, PInt 1]"
proof -
  let ?d = "DmlUpdate \<lparr>upd_schema = ''db'', upd_table = ''t'',
      after_values = [(''id'', PInt 1), (''v'', PNone)], before_values = [(''id'', PInt 1), (''v'', PInt 7)],
      upd_primary_key = PkStr ''id''\<rparr>"
  obtain sql where sql: "dmlOperation2Sql ?d = Inr (sql, [PInt 1, PNone, PInt 1])"
    by (simp add: generate_condition_and_values_def dict_get_def dict_values_def)
  moreover have "plain_names ?d" by (simp add: plain_names_def dict_keys_def)
  ultimately show ?thesis using dml_placeholders_match by blast
qed

end
