(* ===== verification/Client.thy ===== *)
theory Client
  imports Operations
begin

text \<open>
  \<open>main.py\<close>, class \<open>MysqlClient\<close> (lines 247 to 278), over the MySQL connector, which is not part
  of the repository and therefore a parameter: a \<open>connector\<close> answers, from the calls made so far,
  whether the session is in a transaction and whether the next call succeeds. The state of the client
  is the history of its calls with their outcomes and the counter \<open>dml_cnt\<close>.

  The meaning of a history is \<open>committed\<close> and \<open>pending\<close>: the statements that are durable and those
  of the open transaction (autocommit is off; a DDL statement commits implicitly, as MySQL documents).
\<close>

section \<open>Definitions\<close>

datatype call =
    Connect string
  | OpenCursor
  | SetAutocommit bool
  | StartTransaction
  | Execute string "pyval list"
  | UseDatabase string
  | DdlCursor
  | DdlExecute string
  | DdlClose
  | Commit
  | Rollback

type_synonym history = "(call \<times> bool) list"

record connector =
  in_transaction :: "history \<Rightarrow> bool"
  call_ok :: "history \<Rightarrow> call \<Rightarrow> bool"

record client =
  hist :: history
  dml_cnt :: int

definition do_call :: "connector \<Rightarrow> call \<Rightarrow> (client, unit) sx" where
  "do_call K c = (\<lambda>s. let ok = call_ok K (hist s) c
     in (if ok then Inr () else Inl DBError, s\<lparr>hist := hist s @ [(c, ok)]\<rparr>))"

definition set_cnt :: "int \<Rightarrow> (client, unit) sx" where
  "set_cnt n = (\<lambda>s. (Inr (), s\<lparr>dml_cnt := n\<rparr>))"

definition client_init :: "connector \<Rightarrow> string \<Rightarrow> (client, unit) sx" where
  "client_init K settings =
     bind_sx (do_call K (Connect settings)) (\<lambda>_.
     bind_sx (do_call K OpenCursor) (\<lambda>_.
     bind_sx (do_call K (SetAutocommit False)) (\<lambda>_. set_cnt 0)))"

definition push_begin :: "connector \<Rightarrow> (client, unit) sx" where
  "push_begin K = (\<lambda>s. if in_transaction K (hist s) then (Inr (), s) else do_call K StartTransaction s)"

definition push_dml :: "connector \<Rightarrow> string \<Rightarrow> pyval list \<Rightarrow> (client, unit) sx" where
  "push_dml K sql_text params =
     bind_sx (do_call K (Execute sql_text params)) (\<lambda>_. \<lambda>s. set_cnt (dml_cnt s + 1) s)"

definition push_commit :: "connector \<Rightarrow> (client, unit) sx" where
  "push_commit K =
     bind_sx (\<lambda>s. if in_transaction K (hist s)
                  then (if dml_cnt s \<ge> 1 then do_call K Commit s else do_call K Rollback s)
                  else (Inr (), s))
       (\<lambda>_. set_cnt 0)"

text \<open>The \<open>with\<close> block closes the cursor whether or not the statement raised.\<close>

definition with_ddl_cursor :: "connector \<Rightarrow> string \<Rightarrow> (client, unit) sx" where
  "with_ddl_cursor K sql_text =
     bind_sx (do_call K DdlCursor) (\<lambda>_. \<lambda>s.
       case do_call K (DdlExecute sql_text) s of
         (r, s1) \<Rightarrow> bind_sx (do_call K DdlClose) (\<lambda>_. lift_sx r) s1)"

definition push_nondml :: "connector \<Rightarrow> string option \<Rightarrow> string \<Rightarrow> (client, unit) sx" where
  "push_nondml K db sql_text =
     bind_sx (push_commit K) (\<lambda>_.
     bind_sx (case db of
                None \<Rightarrow> ret_sx ()
              | Some d \<Rightarrow> if d \<noteq> [] then do_call K (UseDatabase d) else ret_sx ())
       (\<lambda>_. with_ddl_cursor K sql_text))"

section \<open>What a history means\<close>

datatype stmt = SDml string "pyval list" | SDdl string

record db =
  committed :: "stmt list"
  pending :: "stmt list"
  tx_open :: bool

fun db_call :: "db \<Rightarrow> call \<Rightarrow> db" where
  "db_call d StartTransaction = \<lparr>committed = committed d @ pending d, pending = [], tx_open = True\<rparr>"
| "db_call d (Execute s p) = d\<lparr>pending := pending d @ [SDml s p], tx_open := True\<rparr>"
| "db_call d (DdlExecute s) =
     \<lparr>committed = committed d @ pending d @ [SDdl s], pending = [], tx_open = False\<rparr>"
| "db_call d Commit = \<lparr>committed = committed d @ pending d, pending = [], tx_open = False\<rparr>"
| "db_call d Rollback = \<lparr>committed = committed d, pending = [], tx_open = False\<rparr>"
| "db_call d c = d"

definition db_step :: "db \<Rightarrow> call \<times> bool \<Rightarrow> db" where
  "db_step d e = (if snd e then db_call d (fst e) else d)"

definition db_of :: "history \<Rightarrow> db" where
  "db_of h = foldl db_step \<lparr>committed = [], pending = [], tx_open = False\<rparr> h"

fun stmts :: "history \<Rightarrow> stmt list" where
  "stmts [] = []"
| "stmts ((c, ok) # h) =
     (if ok then (case c of Execute s p \<Rightarrow> [SDml s p] | DdlExecute s \<Rightarrow> [SDdl s] | _ \<Rightarrow> []) else []) @ stmts h"

text \<open>What the client relies on: the connector reports the state of the transaction.\<close>

definition faithful :: "connector \<Rightarrow> bool" where
  "faithful K = (\<forall>h. in_transaction K h = tx_open (db_of h))"

definition reliable :: "connector \<Rightarrow> bool" where
  "reliable K = (\<forall>h c. call_ok K h c)"

definition mysql_connector :: connector where
  "mysql_connector = \<lparr>in_transaction = (\<lambda>h. tx_open (db_of h)), call_ok = (\<lambda>_ _. True)\<rparr>"

section \<open>Lemmas\<close>

lemma mysql_connector_laws: "faithful mysql_connector" "reliable mysql_connector"
  by (simp_all add: faithful_def reliable_def mysql_connector_def)

lemma stmts_append [simp]: "stmts (h @ g) = stmts h @ stmts g"
  by (induction h rule: stmts.induct) auto

lemma db_of_append [simp]: "db_of (h @ g) = foldl db_step (db_of h) g"
  by (simp add: db_of_def)

lemmas client_defs = do_call_def set_cnt_def push_begin_def push_dml_def push_commit_def
  with_ddl_cursor_def push_nondml_def bind_sx_def lift_sx_def ret_sx_def raise_sx_def Let_def

text \<open>Which statements an operation of the client adds, whatever the connector answers.\<close>

lemma push_begin_stmts: "push_begin K s = (r, s') \<Longrightarrow> stmts (hist s') = stmts (hist s)"
  by (auto simp: client_defs split: if_splits)

lemma push_commit_stmts: "push_commit K s = (r, s') \<Longrightarrow> stmts (hist s') = stmts (hist s)"
  by (auto simp: client_defs split: if_splits sum.splits prod.splits)

lemma push_dml_stmts:
  "push_dml K q ps s = (r, s') \<Longrightarrow>
   (case r of Inr _ \<Rightarrow> stmts (hist s') = stmts (hist s) @ [SDml q ps] | Inl _ \<Rightarrow> stmts (hist s') = stmts (hist s))"
  by (auto simp: client_defs split: if_splits sum.splits prod.splits)

lemma with_ddl_cursor_stmts:
  "with_ddl_cursor K q s = (r, s') \<Longrightarrow>
   stmts (hist s') = stmts (hist s) @ [SDdl q] \<or> (stmts (hist s') = stmts (hist s) \<and> (\<exists>e. r = Inl e))"
  by (auto simp: client_defs split: if_splits sum.splits prod.splits)

lemma push_nondml_stmts:
  assumes "push_nondml K db q s = (r, s')"
  shows "stmts (hist s') = stmts (hist s) @ [SDdl q] \<or> (stmts (hist s') = stmts (hist s) \<and> (\<exists>e. r = Inl e))"
proof -
  obtain r1 s1 where 1: "push_commit K s = (r1, s1)" by (cases "push_commit K s")
  note h1 = push_commit_stmts [OF 1]
  let ?use = "case db of None \<Rightarrow> ret_sx () | Some d \<Rightarrow> if d \<noteq> [] then do_call K (UseDatabase d) else ret_sx ()"
  obtain r2 s2 where 2: "?use s1 = (r2, s2)" by (cases "?use s1")
  have h2: "stmts (hist s2) = stmts (hist s1)"
    using 2 by (auto simp: client_defs split: option.splits if_splits)
  have "with_ddl_cursor K q s2 = (r, s') \<or> (\<exists>e. r = Inl e \<and> (s' = s1 \<or> s' = s2))"
    using assms 1 2 unfolding push_nondml_def bind_sx_def by (auto split: sum.splits)
  then show ?thesis using with_ddl_cursor_stmts h1 h2 by fastforce
qed

text \<open>The invariant of the client: the counter is the number of pending statements, and there are
  pending statements only in an open transaction. \<open>push_commit\<close> then makes everything durable: it
  rolls back only when nothing is pending.\<close>

definition client_inv :: "client \<Rightarrow> bool" where
  "client_inv s = (dml_cnt s = int (length (pending (db_of (hist s))))
     \<and> (pending (db_of (hist s)) \<noteq> [] \<longrightarrow> tx_open (db_of (hist s))))"

abbreviation durable :: "client \<Rightarrow> stmt list" where
  "durable s \<equiv> committed (db_of (hist s))"

abbreviation unsettled :: "client \<Rightarrow> stmt list" where
  "unsettled s \<equiv> pending (db_of (hist s))"

lemma push_begin_inv:
  assumes "faithful K" "reliable K" "client_inv s"
  shows "\<exists>s'. push_begin K s = (Inr (), s') \<and> client_inv s' \<and> durable s' = durable s \<and> unsettled s' = unsettled s"
proof (cases "tx_open (db_of (hist s))")
  case True
  then show ?thesis using assms by (auto simp: push_begin_def faithful_def)
next
  case False
  then have "unsettled s = []" using assms(3) by (auto simp: client_inv_def)
  with False show ?thesis
    using assms by (auto simp: push_begin_def do_call_def faithful_def reliable_def client_inv_def db_step_def)
qed

lemma push_dml_inv:
  assumes "reliable K" "client_inv s"
  shows "\<exists>s'. push_dml K q ps s = (Inr (), s') \<and> client_inv s' \<and> durable s' = durable s
    \<and> unsettled s' = unsettled s @ [SDml q ps]"
  using assms by (auto simp: client_defs reliable_def client_inv_def db_step_def)

lemma push_commit_inv:
  assumes "faithful K" "reliable K" "client_inv s"
  shows "\<exists>s'. push_commit K s = (Inr (), s') \<and> client_inv s' \<and> durable s' = durable s @ unsettled s
    \<and> unsettled s' = [] \<and> \<not> tx_open (db_of (hist s'))"
proof (cases "unsettled s = []")
  case True
  then show ?thesis using assms by (auto simp: client_defs faithful_def reliable_def client_inv_def db_step_def)
next
  case False
  then have "1 \<le> dml_cnt s" using assms(3) by (cases "unsettled s") (auto simp: client_inv_def)
  with False show ?thesis
    using assms by (auto simp: client_defs faithful_def reliable_def client_inv_def db_step_def)
qed

lemma push_nondml_inv:
  assumes "faithful K" "reliable K" "client_inv s"
  shows "\<exists>s'. push_nondml K db q s = (Inr (), s') \<and> client_inv s'
    \<and> durable s' = durable s @ unsettled s @ [SDdl q] \<and> unsettled s' = []"
proof -
  obtain s1 where s1: "push_commit K s = (Inr (), s1)" "client_inv s1"
      "durable s1 = durable s @ unsettled s" "unsettled s1 = []"
    using push_commit_inv [OF assms] by blast
  with assms(2) show ?thesis
    unfolding push_nondml_def bind_sx_def with_ddl_cursor_def do_call_def lift_sx_def ret_sx_def
    by (auto simp: reliable_def client_inv_def db_step_def Let_def split: option.splits)
qed

section \<open>The target interface\<close>

text \<open>The commands of the client, their meaning on the durable and the pending statements, and the
  contract of a transactional target: each command does what it means. The lemma on sequences of
  commands holds for any such target.\<close>

datatype cmd =
    CBegin
  | CDml string "pyval list"
  | CCommit
  | CDdl "string option" string

fun meaning :: "cmd \<Rightarrow> stmt list \<times> stmt list \<Rightarrow> stmt list \<times> stmt list" where
  "meaning CBegin (d, u) = (d, u)"
| "meaning (CDml q ps) (d, u) = (d, u @ [SDml q ps])"
| "meaning CCommit (d, u) = (d @ u, [])"
| "meaning (CDdl db q) (d, u) = (d @ u @ [SDdl q], [])"

fun exec_all :: "('c \<Rightarrow> ('s, unit) sx) \<Rightarrow> 'c list \<Rightarrow> ('s, unit) sx" where
  "exec_all f [] = ret_sx ()"
| "exec_all f (c # cs) = bind_sx (f c) (\<lambda>_. exec_all f cs)"

lemma exec_all_append: "exec_all f (xs @ ys) s = bind_sx (exec_all f xs) (\<lambda>_. exec_all f ys) s"
proof (induction xs arbitrary: s)
  case (Cons x xs)
  then show ?case by (auto simp: bind_sx_def split: prod.splits sum.splits)
qed simp

locale transactional =
  fixes good :: "'k \<Rightarrow> bool"
    and perform :: "'k \<Rightarrow> cmd \<Rightarrow> ('s, unit) sx"
    and inv :: "'s \<Rightarrow> bool"
    and dur :: "'s \<Rightarrow> stmt list"
    and uns :: "'s \<Rightarrow> stmt list"
  assumes perform_meaning: "good K \<Longrightarrow> inv s \<Longrightarrow>
    \<exists>s'. perform K c s = (Inr (), s') \<and> inv s' \<and> (dur s', uns s') = meaning c (dur s, uns s)"
begin

lemma perform_all:
  "good K \<Longrightarrow> inv s \<Longrightarrow> \<exists>s'. exec_all (perform K) cs s = (Inr (), s') \<and> inv s'
    \<and> (dur s', uns s') = fold meaning cs (dur s, uns s)"
proof (induction cs arbitrary: s)
  case (Cons c cs)
  then obtain s1 where s1: "perform K c s = (Inr (), s1)" "inv s1"
      "(dur s1, uns s1) = meaning c (dur s, uns s)"
    using perform_meaning by blast
  with Cons.IH [OF Cons.prems(1) s1(2)] show ?case by (simp add: bind_sx_ok)
qed simp

end

fun run_cmd :: "connector \<Rightarrow> cmd \<Rightarrow> (client, unit) sx" where
  "run_cmd K CBegin = push_begin K"
| "run_cmd K (CDml q ps) = push_dml K q ps"
| "run_cmd K CCommit = push_commit K"
| "run_cmd K (CDdl db q) = push_nondml K db q"

interpretation target: transactional "\<lambda>K. faithful K \<and> reliable K" run_cmd client_inv durable unsettled
proof unfold_locales
  fix K :: connector and s c
  assume "faithful K \<and> reliable K" "client_inv s"
  then show "\<exists>s'. run_cmd K c s = (Inr (), s') \<and> client_inv s'
      \<and> (durable s', unsettled s') = meaning c (durable s, unsettled s)"
    using push_begin_inv push_dml_inv push_commit_inv push_nondml_inv by (cases c) fastforce+
qed

text \<open>C17: over a connector that reports the transaction state and whose calls succeed, the commands of
  the client do on the target what they mean: statements stay pending until a commit makes all of them
  durable, in order and without loss; the rollback of \<open>push_commit\<close> never discards a statement.\<close>

theorem client_commands_meaning:
  assumes "faithful K" "reliable K" "client_inv s"
  shows "\<exists>s'. exec_all (run_cmd K) cs s = (Inr (), s') \<and> client_inv s'
    \<and> (durable s', unsettled s') = fold meaning cs (durable s, unsettled s)"
  using target.perform_all [of K s cs] assms by blast

theorem client_commands_meaning_witness:
  "\<exists>s'. exec_all (run_cmd mysql_connector) [CBegin, CDml ''q'' [], CCommit] \<lparr>hist = [], dml_cnt = 0\<rparr> = (Inr (), s')
     \<and> durable s' = [SDml ''q'' []] \<and> unsettled s' = []"
proof -
  have "client_inv \<lparr>hist = [], dml_cnt = 0\<rparr>" by (simp add: client_inv_def db_of_def)
  from client_commands_meaning [OF mysql_connector_laws this, of "[CBegin, CDml ''q'' [], CCommit]"]
  show ?thesis by (fastforce simp: db_of_def)
qed

end
