(* ===== verification/Metrics.thy ===== *)
theory Metrics
  imports Operations
begin

text \<open>
  \<open>main.py\<close>, classes \<open>MetricController\<close> and \<open>Checkpoint\<close> (lines 450 to 520). The files they write are
  a dictionary from the file name to the content; writing succeeds. JSON documents are kept as the
  dictionary that was dumped, since \<open>json.load\<close> gives it back.
\<close>

section \<open>Metrics\<close>

datatype metric_attr = DML_INSERT | DML_UPDATE | DML_DELETE | NONDML | TRX | MERGE_TRX | DELAY

fun metric_value :: "metric_attr \<Rightarrow> string" where
  "metric_value DML_INSERT = ''dml_insert''"
| "metric_value DML_UPDATE = ''dml_update''"
| "metric_value DML_DELETE = ''dml_delete''"
| "metric_value NONDML = ''nondml''"
| "metric_value TRX = ''trx''"
| "metric_value MERGE_TRX = ''merge_trx''"
| "metric_value DELAY = ''delay''"

datatype file_content = JsonDict "(string, int) dict" | PlainText string

type_synonym files = "(string, file_content) dict"

record metric_controller =
  metrics :: "(string, int) dict"
  m_change :: bool

definition metric_names :: "string list" where
  "metric_names =
     map metric_value [DML_INSERT, DML_UPDATE, DML_DELETE, NONDML, TRX, MERGE_TRX, DELAY]
     @ map non_dml_value [CREATEDATABASE, DROPDATABASE, ALTERDATABASE, CREATETABLE, ALTERTABLE,
         DROPTABLE, RENAMETABLE, TRUNCATETABLE, CREATEINDEX]"

definition metric_init :: metric_controller where
  "metric_init = \<lparr>metrics = map (\<lambda>n. (n, 0)) metric_names, m_change = False\<rparr>"

text \<open>\<open>increment\<close> takes the value of the attribute, of either enumeration.\<close>

definition increment :: "string \<Rightarrow> metric_controller \<Rightarrow> metric_controller" where
  "increment attr m =
     (case map_of (metrics m) attr of
        None \<Rightarrow> m
      | Some n \<Rightarrow>
          if attr \<noteq> metric_value DELAY
          then \<lparr>metrics = dict_set attr (n + 1) (metrics m), m_change = True\<rparr>
          else m)"

definition set_delay :: "int \<Rightarrow> metric_controller \<Rightarrow> metric_controller res" where
  "set_delay v m =
     bind_res (dict_get ''delay'' (metrics m))
       (\<lambda>n. Inr \<lparr>metrics = dict_set ''delay'' (n + v) (metrics m), m_change = True\<rparr>)"

definition persist :: "metric_controller \<Rightarrow> files \<Rightarrow> metric_controller \<times> files" where
  "persist m fs =
     (m\<lparr>m_change := False\<rparr>,
      if m_change m then dict_set ''metrics.json'' (JsonDict (metrics m)) fs else fs)"

section \<open>Checkpoint\<close>

definition persist_checkpoint_gitdset :: "(string, int) dict \<Rightarrow> files \<Rightarrow> files" where
  "persist_checkpoint_gitdset gtidset fs = dict_set ''ckpt.gtidset.json'' (JsonDict gtidset) fs"

definition persist_checkpoint_position :: "(string \<times> int) option \<Rightarrow> files \<Rightarrow> files res" where
  "persist_checkpoint_position postion fs =
     (case postion of
        None \<Rightarrow> Inl IndexError
      | Some (f, p) \<Rightarrow>
          Inr (dict_set ''ckpt.logposition.txt'' (PlainText (f @ '':'' @ str_int p)) fs))"

definition last_xid :: "string \<Rightarrow> int res" where
  "last_xid part =
     py_int 10 (if CHR ''-'' \<in> set part then last (split_on CHR ''-'' part) else part)"

fun format_loop :: "string list \<Rightarrow> (string, int) dict \<Rightarrow> (string, int) dict res" where
  "format_loop [] d = Inr d"
| "format_loop (gtidset # rest) d =
     (let gtidsetf = split_on CHR '':'' gtidset
      in bind_res (last_xid (last gtidsetf)) (\<lambda>n. format_loop rest (dict_set (hd gtidsetf) n d)))"

definition format_gtidset :: "string \<Rightarrow> (string, int) dict res" where
  "format_gtidset gtidsets = format_loop (split_on CHR '','' gtidsets) []"

definition merge_max :: "(string, int) dict \<Rightarrow> (string, int) dict \<Rightarrow> (string, int) dict" where
  "merge_max start ckpt =
     fold (\<lambda>(k, v) acc. dict_set k (case map_of acc k of None \<Rightarrow> v | Some o' \<Rightarrow> max o' v) acc) ckpt start"

definition render_gtidset :: "(string, int) dict \<Rightarrow> string" where
  "render_gtidset d = join '', '' (map (\<lambda>(key, value). key @ '':1-'' @ str_int value) d)"

definition get_checkpoint_gtidset :: "string \<Rightarrow> files \<Rightarrow> string res" where
  "get_checkpoint_gtidset gtidset fs =
     bind_res (format_gtidset gtidset) (\<lambda>start.
       case map_of fs ''ckpt.json'' of
         None \<Rightarrow> Inr (render_gtidset start)
       | Some (JsonDict d) \<Rightarrow> Inr (render_gtidset (merge_max start d))
       | Some (PlainText _) \<Rightarrow> Inl ValueError)"

section \<open>Lemmas\<close>

lemma merge_max_lookup:
  assumes "distinct (map fst ckpt)"
  shows "map_of (merge_max start ckpt) k =
    (case map_of ckpt k of
       None \<Rightarrow> map_of start k
     | Some v \<Rightarrow> Some (case map_of start k of None \<Rightarrow> v | Some o' \<Rightarrow> max o' v))"
  using al.lookup_fold_store [OF assms, of "\<lambda>acc v. case acc of None \<Rightarrow> v | Some o' \<Rightarrow> max o' v" start k]
  by (simp add: merge_max_def)

lemma merge_max_distinct: "distinct (map fst start) \<Longrightarrow> distinct (map fst (merge_max start ckpt))"
  using al.wf_fold_store [of start "\<lambda>acc v. case acc of None \<Rightarrow> v | Some o' \<Rightarrow> max o' v" ckpt]
  by (simp add: merge_max_def)

lemma format_loop_distinct:
  "distinct (map fst d) \<Longrightarrow> format_loop gs d = Inr d' \<Longrightarrow> distinct (map fst d')"
proof (induction gs arbitrary: d)
  case (Cons g gs)
  then show ?case using distinct_dict_set [of d] by (fastforce simp: Let_def)
qed simp

text \<open>Rendering is read back by \<open>format_gtidset\<close>, up to the blank before every entry but the
  first.\<close>

lemma last_xid_range: "last_xid (''1-'' @ str_nat n) = Inr (int n)"
proof -
  have "split_on CHR ''-'' (''1-'' @ str_nat n) = [''1'', str_nat n]"
    by (simp add: split_on_no_sep str_nat_notin)
  then show ?thesis by (simp add: last_xid_def del: append_Cons)
qed

lemma format_render_single:
  assumes "CHR '':'' \<notin> set k" "CHR '','' \<notin> set k" "0 \<le> n"
  shows "format_gtidset (render_gtidset [(k, n)]) = Inr [(k, n)]"
proof -
  have t: "render_gtidset [(k, n)] = k @ '':1-'' @ str_nat (nat n)"
    using assms(3) by (simp add: render_gtidset_def str_int_nonneg)
  have "split_on CHR '','' (render_gtidset [(k, n)]) = [render_gtidset [(k, n)]]"
    using assms(2) by (intro split_on_no_sep) (simp add: t str_nat_notin)
  moreover have "split_on CHR '':'' (render_gtidset [(k, n)]) = [k, ''1-'' @ str_nat (nat n)]"
    using assms(1) by (simp add: t split_on_append split_on_no_sep str_nat_notin)
  moreover have "last_xid (''1-'' @ str_nat (nat n)) = Inr n" using last_xid_range [of "nat n"] assms(3) by simp
  ultimately show ?thesis by (simp add: format_gtidset_def)
qed

lemma increment_lookup:
  assumes "attr \<in> set (map fst (metrics m))" "attr \<noteq> ''delay''"
  shows "map_of (metrics (increment attr m)) k =
    (if k = attr then map_option (\<lambda>n. n + 1) (map_of (metrics m) attr) else map_of (metrics m) k)"
proof -
  obtain n where "map_of (metrics m) attr = Some n"
    using assms(1) by (metis domIff dom_map_of_conv_image_fst image_set option.exhaust)
  with assms(2) show ?thesis by (simp add: increment_def)
qed

lemma keys_increment: "map fst (metrics (increment attr m)) = map fst (metrics m)"
proof (cases "map_of (metrics m) attr")
  case (Some n)
  then have "attr \<in> set (map fst (metrics m))" by (metis map_of_eq_None_iff option.distinct(1) set_map)
  with Some show ?thesis by (simp add: increment_def map_fst_dict_set del: set_map)
qed (simp add: increment_def)

definition has_delay :: "metric_controller \<Rightarrow> bool" where
  "has_delay m = (map_of (metrics m) ''delay'' \<noteq> None)"

lemma has_delay_increment [simp]: "has_delay (increment a m) = has_delay m"
  by (auto simp: has_delay_def increment_def split: option.splits)

lemma set_delay_ok: "has_delay m \<Longrightarrow> \<exists>m'. set_delay v m = Inr m' \<and> has_delay m'"
  by (auto simp: has_delay_def set_delay_def dict_get_def)

lemma has_delay_init: "has_delay metric_init"
  by (simp add: has_delay_def metric_init_def metric_names_def)

section \<open>The start position\<close>

text \<open>C19: The start position, for a configured text that can be read. Without a file \<open>ckpt.json\<close> it is the configured
  one. With such a file that holds a document, the start position of every server is the maximum of the configured and
  the recorded transaction, a server that only one of them has keeps its value, and the text that is handed to the
  binlog stream lists each server once. (The program itself never writes this file; \<open>main.bak1.py\<close> does.)\<close>

theorem checkpoint_start_is_maximum:
  assumes "format_gtidset text' = Inr start"
  shows "(map_of fs ''ckpt.json'' = None \<longrightarrow> get_checkpoint_gtidset text' fs = Inr (render_gtidset start))
    \<and> (map_of fs ''ckpt.json'' = Some (JsonDict d) \<and> distinct (map fst d) \<longrightarrow>
        (\<exists>m. get_checkpoint_gtidset text' fs = Inr (render_gtidset m) \<and> distinct (map fst m)
          \<and> (\<forall>k. map_of m k = (case (map_of start k, map_of d k) of
               (None, v) \<Rightarrow> v | (Some a, None) \<Rightarrow> Some a | (Some a, Some b) \<Rightarrow> Some (max a b)))))"
proof (intro conjI impI)
  assume "map_of fs ''ckpt.json'' = None"
  with assms show "get_checkpoint_gtidset text' fs = Inr (render_gtidset start)" by (simp add: get_checkpoint_gtidset_def)
next
  assume d: "map_of fs ''ckpt.json'' = Some (JsonDict d) \<and> distinct (map fst d)"
  have "get_checkpoint_gtidset text' fs = Inr (render_gtidset (merge_max start d))"
    using assms d by (simp add: get_checkpoint_gtidset_def)
  moreover have "distinct (map fst (merge_max start d))"
    using format_loop_distinct [of "[]"] assms by (intro merge_max_distinct) (simp add: format_gtidset_def)
  moreover have "map_of (merge_max start d) k = (case (map_of start k, map_of d k) of
         (None, v) \<Rightarrow> v | (Some a, None) \<Rightarrow> Some a | (Some a, Some b) \<Rightarrow> Some (max a b))" for k
    using merge_max_lookup [of d start k] d by (simp split: option.splits)
  ultimately show "\<exists>m. get_checkpoint_gtidset text' fs = Inr (render_gtidset m) \<and> distinct (map fst m)
      \<and> (\<forall>k. map_of m k = (case (map_of start k, map_of d k) of
           (None, v) \<Rightarrow> v | (Some a, None) \<Rightarrow> Some a | (Some a, Some b) \<Rightarrow> Some (max a b)))"
    by blast
qed

theorem checkpoint_start_is_maximum_witness:
  "get_checkpoint_gtidset ''u:1-7,v:1-2'' [] = Inr (render_gtidset [(''u'', 7), (''v'', 2)])
   \<and> (\<exists>m. get_checkpoint_gtidset ''u:1-7,v:1-2'' [(''ckpt.json'', JsonDict [(''u'', 5), (''v'', 9), (''w'', 1)])]
      = Inr (render_gtidset m) \<and> map_of m ''u'' = Some 7 \<and> map_of m ''v'' = Some 9 \<and> map_of m ''w'' = Some 1)"
proof -
  have "format_gtidset ''u:1-7,v:1-2'' = Inr [(''u'', 7), (''v'', 2)]" by code_simp
  note c = checkpoint_start_is_maximum [OF this]
  have "\<exists>m. get_checkpoint_gtidset ''u:1-7,v:1-2'' [(''ckpt.json'', JsonDict [(''u'', 5), (''v'', 9), (''w'', 1)])]
      = Inr (render_gtidset m) \<and> map_of m ''u'' = Some 7 \<and> map_of m ''v'' = Some 9 \<and> map_of m ''w'' = Some 1"
    using c [of "[(''ckpt.json'', JsonDict [(''u'', 5), (''v'', 9), (''w'', 1)])]" "[(''u'', 5), (''v'', 9), (''w'', 1)]"] by fastforce
  with c [of "[]"] show ?thesis by simp
qed

text \<open>what \<open>persist_checkpoint_gitdset\<close> writes has no influence on the start position of the next
  run: the document is written under one name and looked up under another.\<close>

theorem checkpoint_is_not_read_back:
  "get_checkpoint_gtidset text' (persist_checkpoint_gitdset gtidset fs) = get_checkpoint_gtidset text' fs"
  by (simp add: get_checkpoint_gtidset_def persist_checkpoint_gitdset_def)

end
