(* ===== verification/Columns.thy ===== *)
theory Columns
  imports Operations
begin

text \<open>
  The metadata of a table as the row events use it: \<open>column.py\<close> (the attributes of a column),
  \<open>table.py\<close> and \<open>bitmap.py\<close> of \<open>pymysqlreplication\<close>. An attribute that only some column types set
  is an option; reading it when it is absent raises \<open>AttributeError\<close>. A column without a name
  (\<open>None\<close> in the code) has the empty string as its name: every use of the name treats both alike.
\<close>

section \<open>Definitions\<close>

record column =
  ctype :: int
  name :: string
  unsigned :: bool
  is_primary :: bool
  character_set_name :: "string option"
  collation_name :: "string option"
  enum_values :: "string list option"
  set_values :: "string list option"
  visibility :: bool
  max_length :: "int option"
  size :: "int option"
  fsp :: "int option"
  length_size :: "int option"
  precision :: "int option"
  decimals :: "int option"
  bits :: "int option"
  nbytes :: "int option"

definition attr :: "'a option \<Rightarrow> 'a res" where
  "attr v = (case v of None \<Rightarrow> Inl AttributeError | Some x \<Rightarrow> Inr x)"

record table =
  table_id :: int
  t_schema :: string
  t_table :: string
  t_columns :: "column list"
  t_primary_key :: primary_key
  column_name_flag :: bool

definition primary_key_of :: "column list \<Rightarrow> primary_key" where
  "primary_key_of columns =
     (case map name (filter is_primary columns) of
        [] \<Rightarrow> PkStr []
      | [k] \<Rightarrow> PkStr k
      | ks \<Rightarrow> PkTuple ks)"

definition table_init ::
    "int \<Rightarrow> string \<Rightarrow> string \<Rightarrow> column list \<Rightarrow> primary_key option \<Rightarrow> bool \<Rightarrow> table" where
  "table_init tid schema tab columns pk flag =
     \<lparr>table_id = tid, t_schema = schema, t_table = tab, t_columns = columns,
      t_primary_key = (case pk of None \<Rightarrow> primary_key_of columns | Some k \<Rightarrow> k),
      column_name_flag = flag\<rparr>"

definition bitCountInByte :: "nat list" where
  "bitCountInByte =
    [0, 1, 1, 2, 1, 2, 2, 3, 1, 2, 2, 3, 2, 3, 3, 4,
     1, 2, 2, 3, 2, 3, 3, 4, 2, 3, 3, 4, 3, 4, 4, 5,
     1, 2, 2, 3, 2, 3, 3, 4, 2, 3, 3, 4, 3, 4, 4, 5,
     2, 3, 3, 4, 3, 4, 4, 5, 3, 4, 4, 5, 4, 5, 5, 6,
     1, 2, 2, 3, 2, 3, 3, 4, 2, 3, 3, 4, 3, 4, 4, 5,
     2, 3, 3, 4, 3, 4, 4, 5, 3, 4, 4, 5, 4, 5, 5, 6,
     2, 3, 3, 4, 3, 4, 4, 5, 3, 4, 4, 5, 4, 5, 5, 6,
     3, 4, 4, 5, 4, 5, 5, 6, 4, 5, 5, 6, 5, 6, 6, 7,
     1, 2, 2, 3, 2, 3, 3, 4, 2, 3, 3, 4, 3, 4, 4, 5,
     2, 3, 3, 4, 3, 4, 4, 5, 3, 4, 4, 5, 4, 5, 5, 6,
     2, 3, 3, 4, 3, 4, 4, 5, 3, 4, 4, 5, 4, 5, 5, 6,
     3, 4, 4, 5, 4, 5, 5, 6, 4, 5, 5, 6, 5, 6, 6, 7,
     2, 3, 3, 4, 3, 4, 4, 5, 3, 4, 4, 5, 4, 5, 5, 6,
     3, 4, 4, 5, 4, 5, 5, 6, 4, 5, 5, 6, 5, 6, 6, 7,
     3, 4, 4, 5, 4, 5, 5, 6, 4, 5, 5, 6, 5, 6, 6, 7,
     4, 5, 5, 6, 5, 6, 6, 7, 5, 6, 6, 7, 6, 7, 7, 8]"

definition BitCount :: "bytes \<Rightarrow> nat" where
  "BitCount bitmap = fold (\<lambda>bit n. n + bitCountInByte ! unat bit) bitmap 0"

text \<open>The callers only test whether the result of \<open>BitGet\<close> is zero; positions are non-negative.\<close>

definition BitGet :: "bytes \<Rightarrow> nat \<Rightarrow> int res" where
  "BitGet bitmap position =
     (if position div 8 < length bitmap
      then Inr (and (uint (bitmap ! (position div 8))) (push_bit (position mod 8) 1))
      else Inl IndexError)"

section \<open>The bit count table\<close>

fun ones :: "nat \<Rightarrow> int \<Rightarrow> nat" where
  "ones 0 k = 0"
| "ones (Suc n) k = (if odd k then 1 else 0) + ones n (k div 2)"

lemma ones_bits: "ones n k = card {i. i < n \<and> bit k i}"
proof (induction n arbitrary: k)
  case (Suc n)
  have "{i. i < Suc n \<and> bit k i} = (if odd k then {0} else {}) \<union> Suc ` {i. i < n \<and> bit (k div 2) i}"
    by (auto simp: image_iff bit_0 less_Suc_eq_0_disj simp flip: bit_Suc)
  then show ?case using Suc by (simp add: card_image card_insert_if)
qed simp

lemma bitCountInByte_ones: "bitCountInByte = map (ones 8) [0..255]"
  by code_simp

lemma BitCount_sum: "BitCount bitmap = sum_list (map (\<lambda>b. card {i. i < 8 \<and> bit b i}) bitmap)"
proof -
  have one: "bitCountInByte ! unat b = card {i. i < 8 \<and> bit b i}" for b :: byte
  proof -
    have "unat b < 256" using unsigned_less [where 'a = nat, of b] by simp
    moreover from this have "[0..255] ! unat b = uint b" 
      using uint_lt2p [of b] by (subst nth_upto) auto
    ultimately have "bitCountInByte ! unat b = ones 8 (uint b)"
      by (simp add: bitCountInByte_ones)
    also have "{i. i < 8 \<and> bit (uint b) i} = {i. i < 8 \<and> bit b i}" by (auto simp: bit_uint_iff)
    then have "ones 8 (uint b) = card {i. i < 8 \<and> bit b i}" by (simp add: ones_bits)
    finally show ?thesis .
  qed
  have "fold (\<lambda>bit n. n + bitCountInByte ! unat bit) bitmap k
      = k + sum_list (map (\<lambda>b. card {i. i < 8 \<and> bit b i}) bitmap)" for k
    by (induction bitmap arbitrary: k) (simp_all add: one)
  then show ?thesis by (simp add: BitCount_def)
qed

lemma BitGet_nonzero:
  assumes "position div 8 < length bitmap"
  shows "\<exists>v. BitGet bitmap position = Inr v \<and> (v \<noteq> 0 \<longleftrightarrow> bit (bitmap ! (position div 8)) (position mod 8))"
proof -
  have "and (uint b) (push_bit n 1) = push_bit n (of_bool (bit b n))" for b :: byte and n
    by (rule bit_eqI) (auto simp: bit_simps)
  then have "and (uint b) (push_bit n 1) \<noteq> 0 \<longleftrightarrow> bit b n" for b :: byte and n
    by simp
  with assms show ?thesis by (simp add: BitGet_def)
qed

lemma key_columns_primary_key_of:
  "\<forall>c \<in> set cs. is_primary c \<longrightarrow> name c \<noteq> [] \<Longrightarrow>
   key_columns (primary_key_of cs) = map name (filter is_primary cs)"
proof -
  assume "\<forall>c \<in> set cs. is_primary c \<longrightarrow> name c \<noteq> []"
  then have "[] \<notin> set (map name (filter is_primary cs))" by force
  then show ?thesis
    by (cases "map name (filter is_primary cs)") (auto simp: primary_key_of_def simp del: set_map set_filter split: list.splits)
qed

end
