(* ===== verification/Nondml.thy ===== *)
theory Nondml
  imports Operations "HOL-Library.Sublist"
begin

text \<open>
  \<open>main.py\<close>, lines 166 to 244: the patterns that classify a statement of a query event, and
  \<open>extract_schema\<close>, which takes the first pattern that matches anywhere in the statement. The
  lemmas show when a pattern cannot match (its two words do not follow each other anywhere in the statement) and
  that a table statement with a qualified name gives its schema and its table.
\<close>

section \<open>Definitions\<close>

definition Sp0 :: rx where "Sp0 = Star (Cls is_space)"

definition Sp1 :: rx where "Sp1 = Plus (Cls is_space)"

definition Backquote :: rx where "Backquote = Opt (Chr (CHR 0x60))"

definition Name :: "nat \<Rightarrow> rx" where "Name n = Cap n (Plus (Cls is_wordchar))"

definition AnyStar :: rx where "AnyStar = Star (Cls (\<lambda>c. c \<noteq> CHR 0x0A))"

definition Words2 :: "string \<Rightarrow> string \<Rightarrow> rx" where
  "Words2 a b = Seqs [Sp0, Word_ci a, Sp1, Word_ci b, Sp1]"

definition Db_name :: rx where "Db_name = Seqs [Backquote, Name 1, Backquote]"

definition Tab_name :: rx where
  "Tab_name = Seqs [Opt (Seqs [Backquote, Name 1, Backquote, Chr CHR ''.'']), Backquote, Name 2, Backquote]"

definition nondml_patterns :: "(rx \<times> non_dml_type) list" where
  "nondml_patterns =
    [(Seqs [Words2 ''create'' ''database'',
            Opt (Seqs [Word_ci ''if'', Sp1, Word_ci ''not'', Sp1, Word_ci ''exists'', Sp1]), Db_name, Sp0],
      CREATEDATABASE),
     (Seqs [Words2 ''alter'' ''database'', Db_name, Sp0], ALTERDATABASE),
     (Seqs [Words2 ''drop'' ''database'', Opt (Seqs [Word_ci ''if'', Sp1, Word_ci ''exists'', Sp1]), Db_name, Sp0],
      DROPDATABASE),
     (Seqs [Words2 ''create'' ''table'', Tab_name, Seqs [Opt (Cls is_space), AnyStar]], CREATETABLE),
     (Seqs [Words2 ''alter'' ''table'', Tab_name, Seqs [Sp1, AnyStar]], ALTERTABLE),
     (Seqs [Words2 ''drop'' ''table'', Tab_name, Sp0], DROPTABLE),
     (Seqs [Words2 ''rename'' ''table'', Tab_name, Seqs [Sp1, AnyStar]], RENAMETABLE),
     (Seqs [Words2 ''truncate'' ''table'', Tab_name, Sp0], TRUNCATETABLE),
     (Seqs [Words2 ''create'' ''index'', Plus (Cls is_wordchar), Sp1, Word_ci ''on'', Sp1, Tab_name,
            Seqs [Opt (Cls is_space), AnyStar]],
      CREATEINDEX)]"

definition is_database_type :: "non_dml_type \<Rightarrow> bool" where
  "is_database_type t = (t \<in> {CREATEDATABASE, ALTERDATABASE, DROPDATABASE})"

type_synonym extracted = "non_dml_type option \<times> string option \<times> string option"

fun extract_loop :: "(rx \<times> non_dml_type) list \<Rightarrow> string \<Rightarrow> extracted" where
  "extract_loop [] statement = (None, None, None)"
| "extract_loop ((regex, ddl_type) # ps) statement =
     (case rx_search regex statement of
        None \<Rightarrow> extract_loop ps statement
      | Some m \<Rightarrow>
          if is_database_type ddl_type then (Some ddl_type, None, None)
          else (Some ddl_type, rx_group m 1, rx_group m 2))"

definition extract_schema :: "string \<Rightarrow> extracted" where
  "extract_schema statement = extract_loop nondml_patterns statement"

section \<open>Patterns that cannot match\<close>

definition lower :: "string \<Rightarrow> string" where "lower s = map to_lower s"

text \<open>\<open>followed a b s\<close>: somewhere in \<open>s\<close>, in any case, stand the words \<open>a\<close> and \<open>b\<close> with only white space between them.\<close>

definition followed :: "string \<Rightarrow> string \<Rightarrow> string \<Rightarrow> bool" where
  "followed a b s = list_ex (\<lambda>t. prefix a t \<and> drop (length a) t \<noteq> [] \<and> is_space (hd (drop (length a) t))
     \<and> prefix b (dropWhile is_space (drop (length a) t))) (suffixes (lower s))"

definition is_name :: "string \<Rightarrow> bool" where
  "is_name w = (w \<noteq> [] \<and> list_all is_wordchar w)"

definition spaces :: "string \<Rightarrow> bool" where
  "spaces s = (s \<noteq> [] \<and> list_all is_space s)"

lemma rx_run_suffix: "(t, c) \<in> set (rx_run r s) \<Longrightarrow> suffix t s"
proof (induction r s arbitrary: t c rule: rx_run.induct)
  case (2 p s)
  then show ?case by (auto split: list.splits if_splits simp: suffix_Cons)
next
  case (3 a b s)
  then show ?case by (fastforce intro: suffix_order.trans)
next
  case (5 a s)
  from "5.prems" consider "t = s"
    | t' c' d where "(t', c') \<in> set (rx_run a s)" "length t' < length s" "(t, d) \<in> set (rx_run (Star a) t')"
    by (auto split: if_splits simp del: rx_run.simps(5) simp: rx_run.simps(5) [of a s])
  then show ?case
  proof cases
    case 2
    with "5.IH" show ?thesis by (blast intro: suffix_order.trans)
  qed simp
qed (auto split: if_splits)

lemma Word_ci_run: "(t, c) \<in> set (rx_run (Word_ci w) s) \<Longrightarrow> \<exists>p. s = p @ t \<and> lower p = lower w"
proof (induction w arbitrary: s t c)
  case Nil
  then show ?case by (simp add: Word_ci_def)
next
  case (Cons x w)
  then obtain y s' d where s: "s = y # s'" "to_lower y = to_lower x" "(t, d) \<in> set (rx_run (Word_ci w) s')"
    by (auto simp: Word_ci_def split: list.splits if_splits)
  with Cons.IH obtain p where "s' = p @ t" "lower p = lower w" by blast
  with s show ?case by (intro exI [of _ "y # p"]) (simp add: lower_def)
qed

lemma space_lower: "is_space c \<Longrightarrow> to_lower c = c"
  by (auto simp: is_space_def to_lower_def Let_def)

lemma Star_Cls_run: "(t, c) \<in> set (rx_run (Star (Cls p)) s) \<Longrightarrow> \<exists>x. s = x @ t \<and> list_all p x"
proof (induction s arbitrary: c)
  case Nil
  then show ?case by simp
next
  case (Cons y s)
  show ?case
  proof (cases "t = y # s")
    case False
    with Cons.prems obtain d where "p y" "(t, d) \<in> set (rx_run (Star (Cls p)) s)"
      by (auto simp: rx_run.simps(5) [of _ "y # s"] simp del: rx_run.simps(5) split: if_splits)
    with Cons.IH obtain x where "s = x @ t" "list_all p x" by blast
    with \<open>p y\<close> show ?thesis by (intro exI [of _ "y # x"]) simp
  qed simp
qed

lemma Sp1_run: "(t, c) \<in> set (rx_run Sp1 s) \<Longrightarrow> \<exists>x. s = x @ t \<and> spaces x"
proof -
  assume "(t, c) \<in> set (rx_run Sp1 s)"
  then obtain y s' d where "s = y # s'" "is_space y" "(t, d) \<in> set (rx_run (Star (Cls is_space)) s')"
    by (auto simp: Sp1_def Plus_def simp del: rx_run.simps(5) split: list.splits if_splits)
  with Star_Cls_run [of t d is_space s'] obtain x where "s' = x @ t" "list_all is_space x" by blast
  with \<open>s = y # s'\<close> \<open>is_space y\<close> show ?thesis by (intro exI [of _ "y # x"]) (simp add: spaces_def)
qed

lemma Seq_runE:
  assumes "(t, c) \<in> set (rx_run (Seq a b) s)"
  obtains u d e where "(u, d) \<in> set (rx_run a s)" "(t, e) \<in> set (rx_run b u)"
  using assms by auto

lemma Words2_run:
  assumes "(t, c) \<in> set (rx_run (Seq (Words2 a b) r) s)" "b \<noteq> []" "\<not> is_space (hd (lower b))"
  shows "followed (lower a) (lower b) s"
proof -
  obtain s1 s2 s3 s4 c1 c2 c3 c4 where "(s1, c1) \<in> set (rx_run Sp0 s)" "(s2, c2) \<in> set (rx_run (Word_ci a) s1)"
      "(s3, c3) \<in> set (rx_run Sp1 s2)" "(s4, c4) \<in> set (rx_run (Word_ci b) s3)"
    using assms(1) unfolding Words2_def Seqs.simps by (elim Seq_runE) blast
  then obtain p x q where s1: "suffix s1 s" "s1 = p @ x @ q @ s4" and l: "lower p = lower a" "spaces x" "lower q = lower b"
    using rx_run_suffix Word_ci_run Sp1_run by metis
  have x: "lower x = x" using l(2) space_lower by (simp add: lower_def spaces_def list_all_iff map_idI)
  have t: "lower s1 = lower a @ x @ lower b @ lower s4" using s1(2) l x by (simp add: lower_def)
  have "dropWhile is_space (x @ lower b @ lower s4) = lower b @ lower s4"
    using l(2) assms(2,3) by (cases b) (auto simp: spaces_def list_all_iff lower_def dropWhile_append2)
  moreover have "lower s1 \<in> set (suffixes (lower s))" using s1(1) by (auto simp: suffix_def lower_def)
  ultimately show ?thesis
    unfolding followed_def list_ex_iff using l(2) t by (intro bexI [of _ "lower s1"]) (auto simp: spaces_def hd_append list_all_iff)
qed

lemma rx_search_fails: "(\<And>t. suffix t s \<Longrightarrow> rx_run r t = []) \<Longrightarrow> rx_search r s = None"
proof (induction s)
  case (Cons c s)
  then have "rx_run r (c # s) = []" "rx_search r s = None" by (simp_all add: suffix_Cons)
  then show ?case by (simp add: rx_match_None)
qed (simp add: rx_match_None)

lemma followed_suffix: "suffix t s \<Longrightarrow> followed a b t \<Longrightarrow> followed a b s"
proof -
  assume "suffix t s" "followed a b t"
  moreover from this(1) have "set (suffixes (lower t)) \<subseteq> set (suffixes (lower s))"
    by (auto simp: suffix_def lower_def)
  ultimately show ?thesis unfolding followed_def list_ex_iff by blast
qed

lemma pattern_fails:
  assumes "\<not> followed a b s" "lower a = a" "lower b = b" "b \<noteq> []" "\<not> is_space (hd b)"
  shows "rx_search (Seq (Words2 a b) r) s = None"
proof (rule rx_search_fails)
  fix t assume t: "suffix t s"
  show "rx_run (Seq (Words2 a b) r) t = []"
  proof (rule ccontr)
    assume "rx_run (Seq (Words2 a b) r) t \<noteq> []"
    then obtain x where "x \<in> set (rx_run (Seq (Words2 a b) r) t)" by (metis list.set_intros(1) neq_Nil_conv)
    then have "followed a b t" using Words2_run [of "fst x" "snd x" a b r t] assms(2-5) by simp
    with followed_suffix [OF t] assms(1) show False by blast
  qed
qed

section \<open>Qualified table statements\<close>

text \<open>A name is written with or without backquotes.\<close>

definition written_name :: "bool \<Rightarrow> string \<Rightarrow> string" where
  "written_name q w = (if q then backquoted w else w)"

definition table_ref :: "bool \<Rightarrow> bool \<Rightarrow> string \<Rightarrow> string \<Rightarrow> string" where
  "table_ref qd qt db tab = written_name qd db @ ''.'' @ written_name qt tab"

text \<open>\<open>stops\<close>: what follows a name that is not quoted.\<close>

definition stops :: "string \<Rightarrow> bool" where
  "stops y = (y = [] \<or> \<not> is_wordchar (hd y) \<and> hd y \<noteq> CHR 0x60)"

lemma backquote_not_word [simp]: "\<not> is_wordchar (CHR 0x60)" "\<not> is_space (CHR 0x60)"
  by (simp_all add: is_wordchar_def is_space_def)

lemma wordchar_not_space: "is_wordchar c \<Longrightarrow> \<not> is_space c \<and> c \<noteq> CHR 0x60"
  by (auto simp: is_wordchar_def is_space_def Let_def)

lemma space_stops: "is_space c \<Longrightarrow> stops (c # y)"
  using wordchar_not_space by (auto simp: stops_def)

lemma rx_first_Name:
  "is_name w \<Longrightarrow> y = [] \<or> \<not> is_wordchar (hd y) \<Longrightarrow> rx_first (Name n) (w @ y) = Some (y, [(n, w)])"
  using rx_first_Cap [OF rx_first_Plus_Cls [of w is_wordchar y], of n]
  by (simp add: Name_def is_name_def list_all_iff)

lemma rx_first_Backquote:
  "rx_first Backquote (CHR 0x60 # y) = Some (y, [])" "y = [] \<or> hd y \<noteq> CHR 0x60 \<Longrightarrow> rx_first Backquote y = Some (y, [])"
  by (simp_all add: Backquote_def rx_first_Opt rx_first_Opt_skip rx_run_Chr_fail)

text \<open>A written name, as the patterns read it.\<close>

lemma rx_first_written:
  assumes "is_name w" "q \<or> stops y" "rx_first r y = Some (z, c)"
  shows "rx_first (Seq Backquote (Seq (Name n) (Seq Backquote r))) (written_name q w @ y) = Some (z, (n, w) # c)"
proof -
  have w: "w \<noteq> []" "hd w \<noteq> CHR 0x60" using assms(1) wordchar_not_space by (cases w; auto simp: is_name_def)+
  have b: "rx_first Backquote (written_name q w @ y) = Some (w @ (if q then CHR 0x60 # y else y), [])"
    using w rx_first_Backquote by (auto simp: written_name_def backquoted_def)
  have n: "rx_first (Name n) (w @ (if q then CHR 0x60 # y else y)) = Some (if q then CHR 0x60 # y else y, [(n, w)])"
    using assms(1,2) by (intro rx_first_Name) (auto simp: stops_def)
  have b': "rx_first Backquote (if q then CHR 0x60 # y else y) = Some (y, [])"
    using assms(2) rx_first_Backquote by (auto simp: stops_def)
  from rx_first_Seq [OF b rx_first_Seq [OF n rx_first_Seq [OF b' assms(3)]]] show ?thesis by simp
qed

lemma rx_first_Sp1:
  "spaces sp \<Longrightarrow> y = [] \<or> \<not> is_space (hd y) \<Longrightarrow> rx_first Sp1 (sp @ y) = Some (y, [])"
  unfolding Sp1_def spaces_def by (rule rx_first_Plus_Cls) (auto simp: list_all_iff)

lemma rx_first_Tab_name:
  assumes "is_name db" "is_name tab" "qt \<or> stops rest"
  shows "rx_first Tab_name (table_ref qd qt db tab @ rest) = Some (rest, [(1, db), (2, tab)])"
proof -
  let ?t = "written_name qt tab @ rest"
  have dot: "rx_first (Seqs [Chr CHR ''.'']) (CHR ''.'' # ?t) = Some (?t, [] @ [])"
    unfolding Seqs.simps by (rule rx_first_Seq [OF rx_first_Chr]) simp
  have "stops (CHR ''.'' # ?t)" by (simp add: stops_def is_wordchar_def)
  then have "rx_first (Seqs [Backquote, Name 1, Backquote, Chr CHR ''.'']) (written_name qd db @ CHR ''.'' # ?t) = Some (?t, [(1, db)])"
    using rx_first_written [OF assms(1) _ dot, of qd 1] by simp
  then have o: "rx_first (Opt (Seqs [Backquote, Name 1, Backquote, Chr CHR ''.''])) (written_name qd db @ CHR ''.'' # ?t) = Some (?t, [(1, db)])"
    by (rule rx_first_Opt)
  have "rx_first (Seqs [Backquote, Name 2, Backquote]) ?t = Some (rest, [(2, tab)])"
    using rx_first_written [OF assms(2,3) rx_first_Eps, of 2] by simp
  from rx_first_Seq [OF o this] show ?thesis by (simp add: Tab_name_def table_ref_def)
qed

lemma rx_first_Words2:
  assumes "lower v' = lower v" "lower t' = lower t" "spaces s1" "spaces s2" "v' \<noteq> []" "t' \<noteq> []"
    and "\<not> is_space (hd v')" "\<not> is_space (hd t')" "y = [] \<or> \<not> is_space (hd y)"
  shows "rx_first (Words2 v t) (v' @ s1 @ t' @ s2 @ y) = Some (y, [])"
proof -
  have sp0: "rx_first Sp0 (v' @ s1 @ t' @ s2 @ y) = Some (v' @ s1 @ t' @ s2 @ y, [])"
    using assms(5,7) by (cases v') (simp_all add: Sp0_def rx_first_Star_Cls)
  have "rx_first (Words2 v t) (v' @ s1 @ t' @ s2 @ y) = Some (y, [] @ [] @ [] @ [] @ [] @ [])"
    unfolding Words2_def Seqs.simps
    by (rule rx_first_Seq [OF sp0], rule rx_first_Seq [OF rx_first_Word_ci],
        use assms(1) in \<open>simp add: lower_def\<close>, rule rx_first_Seq [OF rx_first_Sp1 [OF assms(3)]],
        use assms(6,8) in simp, rule rx_first_Seq [OF rx_first_Word_ci],
        use assms(2) in \<open>simp add: lower_def\<close>, rule rx_first_Seq [OF rx_first_Sp1 [OF assms(4)]],
        use assms(9) in simp) simp
  then show ?thesis by simp
qed

lemma lower_hd:
  assumes "lower x = w" "w \<noteq> []" "\<not> is_space (hd w)"
  shows "x \<noteq> []" "\<not> is_space (hd x)"
proof -
  show "x \<noteq> []" using assms(1,2) by (auto simp: lower_def)
  then obtain c cs where x: "x = c # cs" by (cases x) auto
  then have "to_lower c = hd w" using assms(1) by (auto simp: lower_def)
  with assms(3) x space_lower [of c] show "\<not> is_space (hd x)" by auto
qed

lemma table_ref_hd: "is_name db \<Longrightarrow> table_ref qd qt db tab \<noteq> [] \<and> \<not> is_space (hd (table_ref qd qt db tab))"
  using wordchar_not_space by (cases db) (auto simp: table_ref_def written_name_def backquoted_def is_name_def)

lemma table_pattern_matches:
  assumes "lower v' = v" "v \<noteq> []" "\<not> is_space (hd v)" "lower v = v" "lower t' = ''table''"
    and "spaces s1" "spaces s2" "is_name db" "is_name tab" "qt \<or> stops rest" "rx_first tail rest = Some (u, [])"
  shows "rx_search (Seqs [Words2 v ''table'', Tab_name, tail])
      (v' @ s1 @ t' @ s2 @ table_ref qd qt db tab @ rest) = Some [(1, db), (2, tab)]"
proof -
  have t: "lower ''table'' = ''table''" by code_simp
  note v = lower_hd [OF assms(1-3)]
  have tt: "t' \<noteq> []" "\<not> is_space (hd t')"
    using lower_hd [OF assms(5)] by (simp_all add: is_space_def)
  have w: "rx_first (Words2 v ''table'') (v' @ s1 @ t' @ s2 @ table_ref qd qt db tab @ rest)
      = Some (table_ref qd qt db tab @ rest, [])"
    using v tt assms t table_ref_hd [OF assms(8), of qd qt tab] by (intro rx_first_Words2) auto
  have "rx_first (Seqs [Words2 v ''table'', Tab_name, tail])
      (v' @ s1 @ t' @ s2 @ table_ref qd qt db tab @ rest) = Some (u, [] @ [(1, db), (2, tab)] @ [] @ [])"
    unfolding Seqs.simps
    by (rule rx_first_Seq [OF w], rule rx_first_Seq [OF rx_first_Tab_name [OF assms(8-10)]],
        rule rx_first_Seq [OF assms(11)]) simp
  then show ?thesis by (simp add: rx_search_first)
qed

lemma tails_match:
  "\<exists>u. rx_first Sp0 y = Some (u, [])" "\<exists>u. rx_first (Seqs [Opt (Cls is_space), AnyStar]) y = Some (u, [])"
  "y \<noteq> [] \<Longrightarrow> is_space (hd y) \<Longrightarrow> \<exists>u. rx_first (Seqs [Sp1, AnyStar]) y = Some (u, [])"
proof -
  have any: "rx_first (Seqs [AnyStar]) z = Some (dropWhile (\<lambda>c. c \<noteq> CHR 0x0A) z, [] @ [])" for z
    unfolding Seqs.simps AnyStar_def by (rule rx_first_Seq [OF rx_first_Star_Cls]) simp
  show "\<exists>u. rx_first Sp0 y = Some (u, [])" by (simp add: Sp0_def rx_first_Star_Cls)
  have "\<exists>u. rx_first (Opt (Cls is_space)) y = Some (u, [])"
    by (cases y) (auto simp: rx_first_def)
  then show "\<exists>u. rx_first (Seqs [Opt (Cls is_space), AnyStar]) y = Some (u, [])"
    using rx_first_Seq [OF _ any, of "Opt (Cls is_space)" y] by auto
  assume y: "y \<noteq> []" "is_space (hd y)"
  then obtain c cs where r: "y = c # cs" "is_space c" by (cases y) auto
  have "rx_first Sp1 y = Some (dropWhile is_space cs, [] @ [])"
    unfolding Sp1_def Plus_def r
    by (rule rx_first_Seq [where t = cs]) (use r(2) in \<open>simp_all add: rx_first_Cls rx_first_Star_Cls\<close>)
  then show "\<exists>u. rx_first (Seqs [Sp1, AnyStar]) y = Some (u, [])"
    using rx_first_Seq [OF _ any, of Sp1 y] by auto
qed

definition table_verbs :: "(string \<times> non_dml_type) list" where
  "table_verbs = [(''create'', CREATETABLE), (''alter'', ALTERTABLE), (''drop'', DROPTABLE),
     (''rename'', RENAMETABLE), (''truncate'', TRUNCATETABLE)]"

lemma lower_words:
  "lower ''create'' = ''create''" "lower ''alter'' = ''alter''" "lower ''drop'' = ''drop''"
  "lower ''rename'' = ''rename''" "lower ''truncate'' = ''truncate''" "lower ''table'' = ''table''"
  "lower ''database'' = ''database''"
  by code_simp+

text \<open>No earlier pattern of the list can match a statement.\<close>

definition no_earlier :: "nat \<Rightarrow> string \<Rightarrow> bool" where
  "no_earlier i stmt = (list_all (\<lambda>w. \<not> followed w ''database'' stmt) [''create'', ''alter'', ''drop'']
     \<and> list_all (\<lambda>w. \<not> followed w ''table'' stmt) (map fst (take i table_verbs)))"

lemma extract_table:
  assumes "i < length table_verbs" "lower v' = fst (table_verbs ! i)" "lower t' = ''table''"
    and "spaces s1" "spaces s2" "is_name db" "is_name tab" "qt \<or> stops rest"
    and "i \<in> {1, 3} \<longrightarrow> rest \<noteq> [] \<and> is_space (hd rest)"
    and "stmt = v' @ s1 @ t' @ s2 @ table_ref qd qt db tab @ rest" "no_earlier i stmt"
  shows "extract_schema stmt = (Some (snd (table_verbs ! i)), Some db, Some tab)"
proof -
  note fails = pattern_fails lower_words
  obtain u1 u2 where u: "rx_first Sp0 rest = Some (u1, [])"
      "rx_first (Seqs [Opt (Cls is_space), AnyStar]) rest = Some (u2, [])"
    using tails_match(1,2) [of rest] by blast
  have v: "fst (table_verbs ! i) \<noteq> []" "\<not> is_space (hd (fst (table_verbs ! i)))"
    "lower (fst (table_verbs ! i)) = fst (table_verbs ! i)"
    using assms(1) by (auto simp: table_verbs_def less_Suc_eq is_space_def lower_words)
  have hit: "rx_search (Seqs [Words2 (fst (table_verbs ! i)) ''table'', Tab_name, tail]) stmt
      = Some [(1, db), (2, tab)]" if "rx_first tail rest = Some (w, [])" for tail w
    unfolding assms(10) using table_pattern_matches [OF assms(2) v assms(3-8) that] .
  have alt: "rx_search (Seqs [Words2 (fst (table_verbs ! i)) ''table'', Tab_name, Seqs [Sp1, AnyStar]]) stmt = Some [(1, db), (2, tab)]"
    if "i \<in> {1, 3}" using tails_match(3) [of rest] assms(9) that hit by blast
  have sp: "\<not> is_space (CHR ''d'')" "\<not> is_space (CHR ''t'')" by code_simp+
  note run = extract_schema_def nondml_patterns_def table_verbs_def fails is_database_type_def no_earlier_def
    rx_group_def numeral_eq_Suc sp
  consider "i = 0" | "i = 1" | "i = 2" | "i = 3" | "i = 4"
    using assms(1) by (auto simp: table_verbs_def less_Suc_eq)
  then show ?thesis
    by cases (use hit [OF u(1)] hit [OF u(2)] alt assms(11) in \<open>simp_all add: run\<close>)
qed

text \<open>C23: A statement \<open>VERB TABLE db.tab ...\<close>, where \<open>VERB\<close> is create, alter, drop, rename or truncate, in any case and
  spacing, the names with or without backquotes and at once after the word table, is classified by its verb and gives
  the schema and the table. After alter and rename white space must follow the name. The statement must not contain,
  anywhere, a phrase that an earlier pattern looks for: \<open>create\<close>, \<open>alter\<close> or \<open>drop\<close> before \<open>database\<close>, or an earlier
  verb before \<open>table\<close>.\<close>

theorem extract_schema_table_statement:
  assumes "i < length table_verbs" "lower v' = fst (table_verbs ! i)" "lower t' = ''table''"
    and "spaces s1" "spaces s2" "is_name db" "is_name tab" "qt \<or> stops rest"
    and "i \<in> {1, 3} \<longrightarrow> rest \<noteq> [] \<and> is_space (hd rest)"
    and "stmt = v' @ s1 @ t' @ s2 @ table_ref qd qt db tab @ rest" "no_earlier i stmt"
  shows "extract_schema stmt = (Some (snd (table_verbs ! i)), Some db, Some tab)"
  using assms by (rule extract_table)

theorem extract_schema_table_statement_witness:
  "extract_schema (''Alter'' @ '' '' @ ''TABLE'' @ ''  '' @ table_ref False True ''shop'' ''orders'' @ '' add create_time int'')
     = (Some ALTERTABLE, Some ''shop'', Some ''orders'')"
proof -
  have "no_earlier 1 (''Alter'' @ '' '' @ ''TABLE'' @ ''  '' @ table_ref False True ''shop'' ''orders'' @ '' add create_time int'')"
    by code_simp
  moreover have "lower ''Alter'' = fst (table_verbs ! 1)" "lower ''TABLE'' = ''table''" "spaces '' ''" "spaces ''  ''"
      "is_name ''shop''" "is_name ''orders''" "is_space (hd '' add create_time int'')" "1 < length table_verbs"
      "snd (table_verbs ! 1) = ALTERTABLE" by code_simp+
  ultimately show ?thesis
    using extract_schema_table_statement [of 1 "''Alter''" "''TABLE''" "'' ''" "''  ''" "''shop''" "''orders''" True "'' add create_time int''"]
    by (metis list.distinct(1))
qed

end
