(* ===== verification/Replication.thy ===== *)
theory Replication
  imports Columns Nondml
begin

text \<open>
  \<open>main.py\<close>, lines 281 to 436: the replication side. The column values are adapted to the
  target (\<open>reset_col_val\<close>, \<open>reset_values\<close>), each event is handled by the handler of its class, and
  \<open>operation_stream\<close> is the generator that hands the operations on with the position of the
  event before. An event of the binlog stream is its class with the attributes that the handlers read;
  the rows are decoded when they are asked for, so asking for them may raise. The generator is the
  function from the events it consumes to the list of what it yields and, when it stops because of an
  exception, that exception.
\<close>

section \<open>Definitions\<close>

fun bit_length :: "nat \<Rightarrow> nat" where
  "bit_length n = (if n = 0 then 0 else Suc (bit_length (n div 2)))"

declare bit_length.simps [simp del]

definition to_bytes_big :: "int \<Rightarrow> bytes res" where
  "to_bytes_big n =
     (if n < 0 then Inl OverflowError else Inr (be_bytes ((bit_length (nat n) + 7) div 8) n))"

definition int_base2 :: "pyval \<Rightarrow> int res" where
  "int_base2 v =
     (case v of
        PStr s \<Rightarrow> py_int 2 s
      | PBytes b \<Rightarrow> py_int 2 (map (\<lambda>x. char_of (unat x)) b)
      | _ \<Rightarrow> Inl TypeError)"

definition as_str :: "pyval \<Rightarrow> string res" where
  "as_str v = (case v of PStr s \<Rightarrow> Inr s | _ \<Rightarrow> Inl TypeError)"

definition iter_strings :: "pyval \<Rightarrow> string list res" where
  "iter_strings v =
     (case v of
        PSet xs \<Rightarrow> Inr xs
      | PStr s \<Rightarrow> Inr (map (\<lambda>c. [c]) s)
      | PList xs \<Rightarrow> map_res as_str xs
      | PDict xs \<Rightarrow> map_res (\<lambda>x. as_str (fst x)) xs
      | PBytes b \<Rightarrow> if b = [] then Inr [] else Inl TypeError
      | _ \<Rightarrow> Inl TypeError)"

definition plain_types :: "int list" where
  "plain_types =
     [FT_VAR_STRING, FT_VARCHAR, FT_DECIMAL, FT_CHAR, FT_STRING, FT_SHORT, FT_LONG, FT_INT24,
      FT_LONGLONG, FT_FLOAT, FT_DOUBLE, FT_NEWDECIMAL, FT_DATE, FT_DATETIME2, FT_TIMESTAMP2,
      FT_TIME2, FT_YEAR, FT_BLOB, FT_ENUM]"

definition reset_col_val :: "int \<Rightarrow> pyval \<Rightarrow> pyval res" where
  "reset_col_val colum_type col_val =
     (if colum_type \<in> set plain_types then Inr col_val
      else if colum_type = FT_BIT then
        bind_res (int_base2 col_val) (\<lambda>n. bind_res (to_bytes_big n) (\<lambda>b. Inr (PBytes b)))
      else if colum_type = FT_SET then
        bind_res (iter_strings col_val) (\<lambda>xs. Inr (PStr (join '','' xs)))
      else Inl (PyException ''unreset col val type''))"

fun reset_loop :: "row_values \<Rightarrow> column list \<Rightarrow> row_values \<Rightarrow> row_values res" where
  "reset_loop values [] new_values = Inr new_values"
| "reset_loop values (column # cs) new_values =
     (case map_of values (name column) of
        None \<Rightarrow> reset_loop values cs new_values
      | Some v \<Rightarrow>
          bind_res (reset_col_val (ctype column) v)
            (\<lambda>v'. reset_loop values cs (dict_set (name column) v' new_values)))"

definition reset_values :: "row_values \<Rightarrow> column list \<Rightarrow> row_values res" where
  "reset_values values columns = reset_loop values columns []"

record rows_info =
  r_schema :: string
  r_table :: string
  r_columns :: "column list"
  r_primary_key :: primary_key

datatype binlog_event =
    TableMapEvent
  | UpdateRowsEvent rows_info "(row_values \<times> row_values) list res"
  | WriteRowsEvent rows_info "row_values list res"
  | DeleteRowsEvent rows_info "row_values list res"
  | GtidEvent string int
  | XidEvent
  | QueryEvent string bytes
  | RotateEvent string
  | HeartbeatLogEvent
  | OtherEvent

definition handle_event_update_rows ::
    "rows_info \<Rightarrow> (row_values \<times> row_values) list res \<Rightarrow> operation_dml list res" where
  "handle_event_update_rows e rows =
     bind_res rows (map_res (\<lambda>(after, before).
       bind_res (reset_values after (r_columns e)) (\<lambda>new_after_values.
       bind_res (reset_values before (r_columns e)) (\<lambda>new_before_values.
       Inr (DmlUpdate \<lparr>upd_schema = r_schema e, upd_table = r_table e, after_values = new_after_values,
              before_values = new_before_values, upd_primary_key = r_primary_key e\<rparr>)))))"

definition handle_event_write_rows :: "rows_info \<Rightarrow> row_values list res \<Rightarrow> operation_dml list res" where
  "handle_event_write_rows e rows =
     bind_res rows (map_res (\<lambda>values.
       bind_res (reset_values values (r_columns e)) (\<lambda>new_values.
       Inr (DmlInsert \<lparr>ins_schema = r_schema e, ins_table = r_table e, ins_values = new_values,
              ins_primary_key = r_primary_key e\<rparr>))))"

definition handle_event_delete_rows :: "rows_info \<Rightarrow> row_values list res \<Rightarrow> operation_dml list res" where
  "handle_event_delete_rows e rows =
     bind_res rows (map_res (\<lambda>values.
       bind_res (reset_values values (r_columns e)) (\<lambda>new_values.
       Inr (DmlDelete \<lparr>del_schema = r_schema e, del_table = r_table e, del_values = new_values,
              del_primary_key = r_primary_key e\<rparr>))))"

definition handle_event_gtid :: "string \<Rightarrow> int \<Rightarrow> operation res" where
  "handle_event_gtid gtid lc =
     (case split_on CHR '':'' gtid of
        [u, x] \<Rightarrow> Inr (OperationGtid \<lparr>server_uuid = u, xid = x, last_committed = lc\<rparr>)
      | _ \<Rightarrow> Inl ValueError)"

definition handle_event_xid :: "operation res" where
  "handle_event_xid = Inr OperationCommit"

definition handle_event_query :: "string \<Rightarrow> bytes \<Rightarrow> operation option res" where
  "handle_event_query query schema =
     (if query = ''BEGIN'' then Inr (Some OperationBegin)
      else if query = ''COMMIT'' then Inr None
      else case extract_schema query of
        (None, _, _) \<Rightarrow> Inl (PyException ''not know queryevent query'')
      | (Some ddltype, db, tab) \<Rightarrow>
          if is_database_type ddltype
          then Inr (Some (OperationNonDML
                 \<lparr>oper_type = ddltype, nd_schema = None, nd_table = None, nd_query = query\<rparr>))
          else
            bind_res (if length schema \<ge> 1 then bind_res (decode_utf8 schema) (\<lambda>s. Inr (Some s)) else Inr db)
              (\<lambda>sch. if sch \<noteq> None \<and> sch \<noteq> Some [] then
                 Inr (Some (OperationNonDML
                   \<lparr>oper_type = ddltype, nd_schema = sch, nd_table = tab, nd_query = query\<rparr>))
               else Inl (PyException ''db not know'')))"

definition handle_event_heartbeatlog :: "operation res" where
  "handle_event_heartbeatlog = Inr OperationHeartbeat"

text \<open>\<open>handle\<close> is the look-up in the dictionary of handlers followed by the call; a result that is
  \<open>None\<close>, or an empty list, yields nothing.\<close>

fun handle :: "binlog_event \<Rightarrow> operation list res" where
  "handle TableMapEvent = Inr []"
| "handle (UpdateRowsEvent e rows) =
     bind_res (handle_event_update_rows e rows) (\<lambda>ds. Inr (map OperationDML ds))"
| "handle (WriteRowsEvent e rows) =
     bind_res (handle_event_write_rows e rows) (\<lambda>ds. Inr (map OperationDML ds))"
| "handle (DeleteRowsEvent e rows) =
     bind_res (handle_event_delete_rows e rows) (\<lambda>ds. Inr (map OperationDML ds))"
| "handle (GtidEvent g lc) = bind_res (handle_event_gtid g lc) (\<lambda>x. Inr [x])"
| "handle XidEvent = bind_res handle_event_xid (\<lambda>x. Inr [x])"
| "handle (QueryEvent q s) =
     bind_res (handle_event_query q s) (\<lambda>x. Inr (case x of None \<Rightarrow> [] | Some y \<Rightarrow> [y]))"
| "handle (RotateEvent f) = Inr []"
| "handle HeartbeatLogEvent = bind_res handle_event_heartbeatlog (\<lambda>x. Inr [x])"
| "handle OtherEvent = Inr []"

record stream_item =
  item_event :: binlog_event
  item_timestamp :: int
  stream_log_file :: string
  stream_log_pos :: int

record yielded =
  y_log_file :: string
  y_log_pos :: int
  y_timestamp :: int
  y_operation :: operation

text \<open>The local variables of the generator; \<open>g_log_file\<close> is unbound until the first event that is
  not a heartbeat. \<open>logfile\<close> is the attribute that the rotate handler sets.\<close>

record gen_locals =
  g_log_file :: "string option"
  g_log_pos :: int
  g_end_log_pos :: int
  logfile :: "string option"

definition gen_init :: gen_locals where
  "gen_init = \<lparr>g_log_file = None, g_log_pos = 4, g_end_log_pos = 0, logfile = None\<rparr>"

definition handle_event_rotate :: "binlog_event \<Rightarrow> gen_locals \<Rightarrow> gen_locals" where
  "handle_event_rotate e g = (case e of RotateEvent f \<Rightarrow> g\<lparr>logfile := Some f\<rparr> | _ \<Rightarrow> g)"

definition gen_step :: "gen_locals \<Rightarrow> stream_item \<Rightarrow> (yielded list \<times> gen_locals) res" where
  "gen_step g it =
     (let g1 = (if item_event it \<noteq> HeartbeatLogEvent
                then g\<lparr>g_log_file := Some (stream_log_file it), g_end_log_pos := stream_log_pos it\<rparr>
                else g);
          g2 = handle_event_rotate (item_event it) g1
      in bind_res (handle (item_event it)) (\<lambda>ops.
         bind_res
           (if ops = [] then Inr []
            else case g_log_file g2 of
              None \<Rightarrow> Inl NameError
            | Some f \<Rightarrow> Inr (map (\<lambda>op. \<lparr>y_log_file = f, y_log_pos = g_log_pos g2,
                                y_timestamp = item_timestamp it, y_operation = op\<rparr>) ops))
           (\<lambda>ys. Inr (ys, g2\<lparr>g_log_pos := g_end_log_pos g2\<rparr>))))"

fun gen_loop :: "gen_locals \<Rightarrow> stream_item list \<Rightarrow> py_exc option \<Rightarrow> yielded list \<times> py_exc option" where
  "gen_loop g [] fin = ([], fin)"
| "gen_loop g (it # its) fin =
     (case gen_step g it of
        Inl e \<Rightarrow> ([], Some e)
      | Inr (ys, g') \<Rightarrow> (case gen_loop g' its fin of (zs, r) \<Rightarrow> (ys @ zs, r)))"

definition operation_stream :: "stream_item list \<Rightarrow> py_exc option \<Rightarrow> yielded list \<times> py_exc option" where
  "operation_stream its fin = gen_loop gen_init its fin"

fun filter_tables_loop :: "string list \<Rightarrow> (string, string list) dict \<Rightarrow> (string, string list) dict res" where
  "filter_tables_loop [] filter_dict = Inr filter_dict"
| "filter_tables_loop (dbtab # rest) filter_dict =
     (case split_on CHR ''.'' dbtab of
        [db, tab] \<Rightarrow>
          filter_tables_loop rest
            (case map_of filter_dict db of
               Some tabs \<Rightarrow> dict_set db (tabs @ [tab]) filter_dict
             | None \<Rightarrow> dict_set db [tab] filter_dict)
      | _ \<Rightarrow> Inl ValueError)"

definition format_filter_tables :: "string list \<Rightarrow> (string, string list) dict res" where
  "format_filter_tables tables = filter_tables_loop tables []"

section \<open>Column values\<close>

definition bin_val :: "string \<Rightarrow> nat" where
  "bin_val s = foldl (\<lambda>a c. 2 * a + (if c = CHR ''1'' then 1 else 0)) 0 s"

definition is_bits :: "string \<Rightarrow> bool" where
  "is_bits s = (s \<noteq> [] \<and> list_all (\<lambda>c. c = CHR ''0'' \<or> c = CHR ''1'') s)"

lemma bit_chars [simp]:
  "base_digit 2 CHR ''0''" "base_digit 2 CHR ''1''" "char_digit CHR ''0'' = 0" "char_digit CHR ''1'' = 1"
  by code_simp+

lemma grouped_digits_bits:
  "list_all (\<lambda>c. c = CHR ''0'' \<or> c = CHR ''1'') s \<Longrightarrow>
   grouped_digits 2 acc s = Some (foldl (\<lambda>a c. 2 * a + (if c = CHR ''1'' then 1 else 0)) acc s)"
  by (induction s arbitrary: acc) auto

lemma py_int_bits:
  assumes "is_bits s"
  shows "py_int 2 s = Inr (int (bin_val s))"
proof -
  obtain c cs where s: "s = c # cs" "c = CHR ''0'' \<or> c = CHR ''1''"
    using assms by (cases s) (auto simp: is_bits_def)
  have sp: "\<not> is_space CHR ''0''" "\<not> is_space CHR ''1''" by code_simp+
  have "\<not> is_space x" if "x = CHR ''0'' \<or> x = CHR ''1''" for x
    using that sp by metis
  moreover have "\<forall>x \<in> set s. x = CHR ''0'' \<or> x = CHR ''1''"
    using assms unfolding is_bits_def list_all_iff by blast
  ultimately have "strip_space s = s" by (intro strip_space_id) metis
  moreover have "drop_prefix 2 s = s"
  proof -
    have "to_lower CHR ''0'' \<noteq> CHR ''b''" "to_lower CHR ''1'' \<noteq> CHR ''b''" by code_simp+
    then show ?thesis
      using assms by (auto simp: drop_prefix_def is_bits_def split: list.splits)
  qed
  moreover have "unsigned_numeral 2 s = Some (bin_val s)"
    using assms s grouped_digits_bits [of s 0]
    by (auto simp: unsigned_numeral_def is_bits_def bin_val_def)
  ultimately show ?thesis using s by (auto simp: py_int_def)
qed

lemma bit_length_bound: "n < 2 ^ bit_length n"
proof (induction n rule: bit_length.induct)
  case (1 n)
  then show ?case by (cases "n = 0") (auto simp: bit_length.simps [of n])
qed

lemma to_bytes_big_val: "\<exists>b. to_bytes_big (int n) = Inr b \<and> be_val b = int n"
proof -
  let ?k = "(bit_length n + 7) div 8"
  have "bit_length n \<le> 8 * ?k" by linarith
  then have "(2::int) ^ bit_length n \<le> 2 ^ (8 * ?k)" by (rule power_increasing) simp
  also have "\<dots> = 256 ^ ?k" by (simp add: power_mult)
  finally have "int n < 256 ^ ?k"
    using bit_length_bound [of n] by (metis less_le_trans of_nat_less_numeral_power_cancel_iff)
  then show ?thesis by (simp add: to_bytes_big_def be_val_be_bytes)
qed

text \<open>a BIT column is passed to the target as the big-endian bytes of the number that its bit string
  denotes.\<close>

theorem reset_bit_value:
  assumes "is_bits s"
  shows "\<exists>b. reset_col_val FT_BIT (PStr s) = Inr (PBytes b) \<and> be_val b = int (bin_val s)"
  using to_bytes_big_val [of "bin_val s"] py_int_bits [OF assms]
  by (auto simp: reset_col_val_def plain_types_def int_base2_def)

theorem reset_bit_value_witness:
  "\<exists>b. reset_col_val FT_BIT (PStr ''100000001'') = Inr (PBytes b) \<and> be_val b = 257"
proof -
  have "is_bits ''100000001''" "bin_val ''100000001'' = 257" by code_simp+
  with reset_bit_value [of "''100000001''"] show ?thesis by simp
qed

lemma reset_loop_plain:
  assumes "\<forall>c \<in> set cs. ctype c \<in> set plain_types" "distinct (map name cs)"
    and "\<forall>c \<in> set cs. name c \<notin> fst ` set new"
  shows "reset_loop values cs new = Inr (new @
    concat (map (\<lambda>c. case map_of values (name c) of None \<Rightarrow> [] | Some v \<Rightarrow> [(name c, v)]) cs))"
  using assms
proof (induction cs arbitrary: new)
  case (Cons c cs)
  show ?case
  proof (cases "map_of values (name c)")
    case None
    with Cons show ?thesis by simp
  next
    case (Some v)
    have "dict_set (name c) v new = new @ [(name c, v)]" if "name c \<notin> fst ` set new"
      using that by (induction new) auto
    moreover have "\<forall>x \<in> set cs. name x \<notin> fst ` set (new @ [(name c, v)])"
      using Cons.prems(2,3) by (auto simp: image_iff)
    ultimately show ?thesis using Cons Some by (simp add: reset_col_val_def)
  qed
qed simp

text \<open>for columns of the types that need no conversion, the values that reach the target are those of
  the row image, in column order, restricted to the columns whose name the row image has.\<close>

theorem reset_values_plain_columns:
  assumes "\<forall>c \<in> set cs. ctype c \<in> set plain_types" "distinct (map name cs)"
  shows "reset_values values cs =
    Inr (concat (map (\<lambda>c. case map_of values (name c) of None \<Rightarrow> [] | Some v \<Rightarrow> [(name c, v)]) cs))"
  using reset_loop_plain [OF assms, of "[]"] by (simp add: reset_values_def)

definition blank_column :: "int \<Rightarrow> string \<Rightarrow> column" where
  "blank_column t n = \<lparr>ctype = t, name = n, unsigned = False, is_primary = False,
     character_set_name = None, collation_name = None, enum_values = None, set_values = None,
     visibility = False, max_length = None, size = None, fsp = None, length_size = None,
     precision = None, decimals = None, bits = None, nbytes = None\<rparr>"

theorem reset_values_plain_columns_witness:
  "reset_values [(''b'', PStr ''x''), (''a'', PInt 3)] [blank_column FT_LONG ''a'', blank_column FT_VARCHAR ''b'', blank_column FT_LONG ''c'']
     = Inr [(''a'', PInt 3), (''b'', PStr ''x'')]"
  using reset_values_plain_columns [of "[blank_column FT_LONG ''a'', blank_column FT_VARCHAR ''b'', blank_column FT_LONG ''c'']"
      "[(''b'', PStr ''x''), (''a'', PInt 3)]"]
  by (simp add: blank_column_def plain_types_def)

section \<open>The generator\<close>

definition ops_of :: "binlog_event \<Rightarrow> operation list" where
  "ops_of e = (case handle e of Inr ops \<Rightarrow> ops | Inl _ \<Rightarrow> [])"

definition yields_at :: "int \<Rightarrow> stream_item \<Rightarrow> yielded list" where
  "yields_at pos it = map (\<lambda>op. \<lparr>y_log_file = stream_log_file it, y_log_pos = pos,
     y_timestamp = item_timestamp it, y_operation = op\<rparr>) (ops_of (item_event it))"

lemma rotate_frame [simp]:
  "g_log_file (handle_event_rotate e g) = g_log_file g" "g_log_pos (handle_event_rotate e g) = g_log_pos g"
  "g_end_log_pos (handle_event_rotate e g) = g_end_log_pos g"
  by (simp_all add: handle_event_rotate_def split: binlog_event.splits)

lemma gen_step_ok:
  assumes "is_ok (handle (item_event it))" "item_event it \<noteq> HeartbeatLogEvent"
  shows "\<exists>g'. gen_step g it = Inr (yields_at (g_log_pos g) it, g') \<and> g_log_pos g' = stream_log_pos it"
proof -
  obtain ops where "handle (item_event it) = Inr ops" using assms(1) by (auto simp: is_ok_iff)
  with assms(2) show ?thesis by (cases "ops = []") (simp_all add: gen_step_def Let_def yields_at_def ops_of_def)
qed

lemma gen_loop_ok:
  assumes "\<forall>it \<in> set its. is_ok (handle (item_event it)) \<and> item_event it \<noteq> HeartbeatLogEvent"
  shows "gen_loop g its fin = (concat (map2 yields_at (g_log_pos g # map stream_log_pos its) its), fin)"
  using assms
proof (induction its arbitrary: g)
  case (Cons it its)
  then obtain g' where "gen_step g it = Inr (yields_at (g_log_pos g) it, g')" "g_log_pos g' = stream_log_pos it"
    using gen_step_ok [of it g] by auto
  with Cons show ?case by simp
qed simp

text \<open>The events before a place that move the position, that is, those that are not heartbeats.\<close>

definition moving :: "stream_item list \<Rightarrow> stream_item list" where
  "moving its = filter (\<lambda>it. item_event it \<noteq> HeartbeatLogEvent) its"

text \<open>The operations of the event with index \<open>i\<close>: the file is that of the last event up to it that is no heartbeat, the
  position the end of the last such event before it, or 4.\<close>

definition yields_of :: "stream_item list \<Rightarrow> nat \<Rightarrow> yielded list" where
  "yields_of its i = map (\<lambda>op. \<lparr>y_log_file = stream_log_file (last (moving (take (Suc i) its))),
       y_log_pos = (if moving (take i its) = [] then 4 else stream_log_pos (last (moving (take i its)))),
       y_timestamp = item_timestamp (its ! i), y_operation = op\<rparr>) (ops_of (item_event (its ! i)))"

text \<open>\<open>at_mark seen g\<close>: the locals of the generator after the events \<open>seen\<close>.\<close>

definition at_mark :: "stream_item list \<Rightarrow> gen_locals \<Rightarrow> bool" where
  "at_mark seen g = (if moving seen = [] then g_log_pos g = 4
     else g_log_file g = Some (stream_log_file (last (moving seen)))
       \<and> g_log_pos g = stream_log_pos (last (moving seen)) \<and> g_end_log_pos g = stream_log_pos (last (moving seen)))"

lemma gen_step_mark:
  assumes "at_mark seen g" "is_ok (handle (item_event it))" "moving (seen @ [it]) \<noteq> []"
  shows "\<exists>g'. gen_step g it = Inr (yields_of (seen @ it # its) (length seen), g') \<and> at_mark (seen @ [it]) g'"
proof -
  obtain ops where "handle (item_event it) = Inr ops" using assms(2) by (auto simp: is_ok_iff)
  with assms(1,3) show ?thesis
    by (auto simp: gen_step_def Let_def yields_of_def ops_of_def at_mark_def moving_def split: if_splits)
qed

lemma gen_loop_mark:
  assumes "at_mark seen g" "\<forall>it \<in> set es. is_ok (handle (item_event it))"
    and "es \<noteq> [] \<longrightarrow> moving (seen @ [hd es]) \<noteq> []"
  shows "\<exists>g'. gen_loop g (es @ its) fin = (case gen_loop g' its fin of (ys, r) \<Rightarrow>
      (concat (map (yields_of (seen @ es @ its)) [length seen..<length seen + length es]) @ ys, r))"
  using assms
proof (induction es arbitrary: seen g)
  case Nil
  then show ?case by (intro exI [of _ g]) simp
next
  case (Cons it es)
  obtain g1 where g1: "gen_step g it = Inr (yields_of (seen @ it # es @ its) (length seen), g1)" "at_mark (seen @ [it]) g1"
    using gen_step_mark [OF Cons.prems(1), of it "es @ its"] Cons.prems(2,3) by auto
  have "moving ((seen @ [it]) @ [hd es]) \<noteq> []" using Cons.prems(3) by (auto simp: moving_def split: if_splits)
  with Cons.IH [OF g1(2)] Cons.prems(2) obtain g' where g': "gen_loop g1 (es @ its) fin = (case gen_loop g' its fin of (ys, r) \<Rightarrow>
      (concat (map (yields_of (seen @ it # es @ its)) [Suc (length seen)..<Suc (length seen) + length es]) @ ys, r))"
    by auto
  have "[length seen..<length seen + length (it # es)] = length seen # [Suc (length seen)..<Suc (length seen) + length es]"
    by (subst upt_conv_Cons) simp_all
  with g1(1) g' show ?case by (intro exI [of _ g']) (simp split: prod.split)
qed

text \<open>C18: Every stream of events, heartbeats and events with a failing handler included. As long as the handlers accept
  the events and the first one is no heartbeat, the generator yields the operations of every event in order, each
  with the file of the last event up to it that is no heartbeat and the position where the last such event before it
  ended (4 for the first). After the last event it ends as the event stream ends. The first event that its handler
  rejects ends it with the exception of the handler, after the operations of all events before. A heartbeat as the
  first event ends it at once with the exception for the unbound name.\<close>

theorem operation_stream_in_order:
  assumes "\<forall>it \<in> set es. is_ok (handle (item_event it))" "es \<noteq> [] \<longrightarrow> item_event (hd es) \<noteq> HeartbeatLogEvent"
  shows "operation_stream es fin = (concat (map (yields_of es) [0..<length es]), fin)
    \<and> (handle (item_event bad) = Inl e \<longrightarrow>
        operation_stream (es @ bad # its) fin = (concat (map (yields_of (es @ bad # its)) [0..<length es]), Some e))
    \<and> (item_event beat = HeartbeatLogEvent \<longrightarrow> operation_stream (beat # its) fin = ([], Some NameError))"
proof (intro conjI impI)
  have m: "at_mark [] gen_init" "es \<noteq> [] \<longrightarrow> moving ([] @ [hd es]) \<noteq> []"
    using assms(2) by (simp_all add: at_mark_def moving_def gen_init_def)
  note loop = gen_loop_mark [OF m(1) assms(1) m(2), of _ fin, unfolded append_Nil list.size(3) add_0]
  show "operation_stream es fin = (concat (map (yields_of es) [0..<length es]), fin)"
    using loop [of "[]"] by (simp add: operation_stream_def)
  assume "handle (item_event bad) = Inl e"
  then have "gen_loop g (bad # its) fin = ([], Some e)" for g by (simp add: gen_step_def)
  with loop [of "bad # its"] show "operation_stream (es @ bad # its) fin = (concat (map (yields_of (es @ bad # its)) [0..<length es]), Some e)"
    by (auto simp: operation_stream_def simp del: gen_loop.simps)
next
  assume "item_event beat = HeartbeatLogEvent"
  then show "operation_stream (beat # its) fin = ([], Some NameError)"
    by (simp add: operation_stream_def gen_init_def gen_step_def handle_event_rotate_def handle_event_heartbeatlog_def)
qed

definition demo_item :: "binlog_event \<Rightarrow> int \<Rightarrow> stream_item" where
  "demo_item e pos = \<lparr>item_event = e, item_timestamp = 9, stream_log_file = ''f'', stream_log_pos = pos\<rparr>"

theorem operation_stream_in_order_witness:
  "operation_stream [demo_item (QueryEvent ''BEGIN'' []) 50, demo_item HeartbeatLogEvent 0, demo_item XidEvent 80] None
   = ([\<lparr>y_log_file = ''f'', y_log_pos = 4, y_timestamp = 9, y_operation = OperationBegin\<rparr>,
       \<lparr>y_log_file = ''f'', y_log_pos = 50, y_timestamp = 9, y_operation = OperationHeartbeat\<rparr>,
       \<lparr>y_log_file = ''f'', y_log_pos = 50, y_timestamp = 9, y_operation = OperationCommit\<rparr>], None)"
proof -
  let ?es = "[demo_item (QueryEvent ''BEGIN'' []) 50, demo_item HeartbeatLogEvent 0, demo_item XidEvent 80]"
  have "\<forall>it \<in> set ?es. is_ok (handle (item_event it))" "item_event (hd ?es) \<noteq> HeartbeatLogEvent"
    by (simp_all add: demo_item_def handle_event_query_def handle_event_xid_def handle_event_heartbeatlog_def)
  with operation_stream_in_order [of ?es None] have "operation_stream ?es None = (concat (map (yields_of ?es) [0..<length ?es]), None)"
    by blast
  moreover have "concat (map (yields_of ?es) [0..<length ?es]) =
      [\<lparr>y_log_file = ''f'', y_log_pos = 4, y_timestamp = 9, y_operation = OperationBegin\<rparr>,
       \<lparr>y_log_file = ''f'', y_log_pos = 50, y_timestamp = 9, y_operation = OperationHeartbeat\<rparr>,
       \<lparr>y_log_file = ''f'', y_log_pos = 50, y_timestamp = 9, y_operation = OperationCommit\<rparr>]" by code_simp
  ultimately show ?thesis by simp
qed

section \<open>Excluded tables\<close>

definition dotted :: "string \<times> string \<Rightarrow> string" where
  "dotted p = fst p @ ''.'' @ snd p"

definition no_dot :: "string \<times> string \<Rightarrow> bool" where
  "no_dot p = (CHR ''.'' \<notin> set (fst p) \<and> CHR ''.'' \<notin> set (snd p))"

lemma filter_tables_loop_ok:
  assumes "\<forall>p \<in> set ps. no_dot p"
  shows "\<exists>m. filter_tables_loop (map dotted ps) d = Inr m \<and>
    (\<forall>db. map_of m db = (case map_of d db of
       None \<Rightarrow> (if db \<in> fst ` set ps then Some (map snd (filter (\<lambda>p. fst p = db) ps)) else None)
     | Some ts \<Rightarrow> Some (ts @ map snd (filter (\<lambda>p. fst p = db) ps))))"
  using assms
proof (induction ps arbitrary: d)
  case (Cons p ps)
  have "split_on CHR ''.'' (dotted p) = [fst p, snd p]"
    using Cons.prems by (simp add: dotted_def no_dot_def split_on_append split_on_no_sep)
  moreover let ?d = "dict_set (fst p) (case map_of d (fst p) of Some ts \<Rightarrow> ts @ [snd p] | None \<Rightarrow> [snd p]) d"
  have "\<forall>p \<in> set ps. no_dot p" using Cons.prems by simp
  from Cons.IH [OF this, of ?d] obtain m where "filter_tables_loop (map dotted ps) ?d = Inr m"
      "\<forall>db. map_of m db = (case map_of ?d db of
       None \<Rightarrow> (if db \<in> fst ` set ps then Some (map snd (filter (\<lambda>p. fst p = db) ps)) else None)
     | Some ts \<Rightarrow> Some (ts @ map snd (filter (\<lambda>p. fst p = db) ps)))"
    by blast
  ultimately show ?case
    by (intro exI [of _ m]) (auto split: option.splits)
qed (simp split: option.splits)

text \<open>\<open>format_filter_tables\<close> groups the tables by schema, in the order of the list, and raises nothing
  on names with exactly one dot.\<close>

theorem format_filter_tables_groups:
  assumes "\<forall>p \<in> set ps. no_dot p"
  shows "\<exists>m. format_filter_tables (map dotted ps) = Inr m \<and>
    (\<forall>db. map_of m db = (if db \<in> fst ` set ps then Some (map snd (filter (\<lambda>p. fst p = db) ps)) else None))"
  using filter_tables_loop_ok [OF assms, of "[]"] by (simp add: format_filter_tables_def)

theorem format_filter_tables_groups_witness:
  "\<exists>m. format_filter_tables [''a.x'', ''b.y'', ''a.z''] = Inr m \<and> map_of m ''a'' = Some [''x'', ''z'']"
  using format_filter_tables_groups [of "[(''a'', ''x''), (''b'', ''y''), (''a'', ''z'')]"]
  by (fastforce simp: no_dot_def dotted_def)

end
