(* ===== verification/Sync.thy ===== *)
theory Sync
  imports Complex_Main Client Metrics Replication
begin

text \<open>
  \<open>main.py\<close>, class \<open>MysqlSync\<close> (lines 523 to 644): the loop that takes the operations of the
  replication side and applies them to the target, with merged commits, metrics and checkpoints. The
  object and the local variables of \<open>run\<close> are one record; \<open>time.time()\<close> is the parameter \<open>clock\<close>,
  the sequence of its readings, as rational numbers. What the connector does is the parameter \<open>K\<close>.
\<close>

section \<open>Definitions\<close>

record sync =
  mc :: client
  metric :: metric_controller
  sfiles :: files
  ticks :: nat
  merge_trx :: bool
  ckpt_interval :: rat
  s_last_committed :: int
  allow_commit :: bool
  allow_ckeckpoint :: bool
  latest_gtidset :: "(string, int) dict"
  latest_position :: "(string \<times> int) option"
  exclude_tables :: "(string, string list) dict"
  ts_0 :: rat
  operation_timestamp :: rat
  error_exit :: bool
  last_operation :: "operation option"

type_synonym clock = "nat \<Rightarrow> rat"

definition sync_start :: "bool \<Rightarrow> rat \<Rightarrow> files \<Rightarrow> client \<Rightarrow> sync" where
  "sync_start merge itvl fs c =
     \<lparr>mc = c, metric = metric_init, sfiles = fs, ticks = 0, merge_trx = merge, ckpt_interval = itvl,
      s_last_committed = -1, allow_commit = False, allow_ckeckpoint = False, latest_gtidset = [],
      latest_position = None, exclude_tables = [], ts_0 = 0, operation_timestamp = 0,
      error_exit = False, last_operation = None\<rparr>"

text \<open>\<open>__init__\<close> returns the start position that it hands to the binlog stream and the object.\<close>

definition sync_init ::
    "connector \<Rightarrow> string \<Rightarrow> string \<Rightarrow> bool \<Rightarrow> rat \<Rightarrow> files \<Rightarrow> (string \<times> sync) res" where
  "sync_init K target auto_position merge itvl fs =
     bind_res (get_checkpoint_gtidset auto_position fs) (\<lambda>start.
       case client_init K target \<lparr>hist = [], dml_cnt = 0\<rparr> of
         (Inl e, _) \<Rightarrow> Inl e
       | (Inr _, c) \<Rightarrow> Inr (start, sync_start merge itvl fs c))"

definition modify_sx :: "('s \<Rightarrow> 's) \<Rightarrow> ('s, unit) sx" where
  "modify_sx f = (\<lambda>s. (Inr (), f s))"

definition on_mc :: "(client, 'a) sx \<Rightarrow> (sync, 'a) sx" where
  "on_mc m = (\<lambda>s. case m (mc s) of (r, c) \<Rightarrow> (r, s\<lparr>mc := c\<rparr>))"

definition is_exception :: "py_exc \<Rightarrow> bool" where
  "is_exception e = (case e of SystemExit _ \<Rightarrow> False | Blocked \<Rightarrow> False | _ \<Rightarrow> True)"

definition try_sx :: "('s, unit) sx \<Rightarrow> ('s, unit) sx \<Rightarrow> ('s, unit) sx" where
  "try_sx m h = (\<lambda>s. case m s of
     (Inl e, s') \<Rightarrow> if is_exception e then h s' else (Inl e, s')
   | (Inr x, s') \<Rightarrow> (Inr x, s'))"

definition read_clock :: "clock \<Rightarrow> (sync, rat) sx" where
  "read_clock clock = (\<lambda>s. (Inr (clock (ticks s)), s\<lparr>ticks := ticks s + 1\<rparr>))"

definition py_trunc :: "rat \<Rightarrow> int" where
  "py_trunc x = (if x < 0 then \<lceil>x\<rceil> else \<lfloor>x\<rfloor>)"

definition merge_commit :: "connector \<Rightarrow> (sync, unit) sx" where
  "merge_commit K = (\<lambda>s.
     if allow_commit s then
       bind_sx (on_mc (push_commit K))
         (\<lambda>_. modify_sx (\<lambda>s. s\<lparr>allow_commit := False,
            metric := increment (metric_value MERGE_TRX) (metric s), allow_ckeckpoint := True\<rparr>)) s
     else (Inr (), s))"

definition checkpoint :: "(sync, unit) sx" where
  "checkpoint = (\<lambda>s.
     let s1 = s\<lparr>sfiles := persist_checkpoint_gitdset (latest_gtidset s) (sfiles s)\<rparr>
     in case persist_checkpoint_position (latest_position s1) (sfiles s1) of
          Inl e \<Rightarrow> (Inl e, s1)
        | Inr fs \<Rightarrow> (Inr (), s1\<lparr>sfiles := fs, allow_ckeckpoint := False\<rparr>))"

definition set_error :: "(sync, unit) sx" where
  "set_error = modify_sx (\<lambda>s. s\<lparr>error_exit := True\<rparr>)"

definition op_nondml :: "connector \<Rightarrow> operation_non_dml \<Rightarrow> (sync, unit) sx" where
  "op_nondml K n =
     bind_sx (merge_commit K) (\<lambda>_.
       try_sx
         (bind_sx (on_mc (push_nondml K (nd_schema n) (nd_query n)))
            (\<lambda>_. modify_sx (\<lambda>s. s\<lparr>metric := increment (non_dml_value (oper_type n)) (metric s)\<rparr>)))
         set_error)"

definition excluded :: "(string, string list) dict \<Rightarrow> operation_dml \<Rightarrow> bool" where
  "excluded ex d =
     (case map_of ex (dml_schema d) of None \<Rightarrow> False | Some tabs \<Rightarrow> dml_table d \<in> set tabs)"

fun dml_metric :: "operation_dml \<Rightarrow> metric_attr" where
  "dml_metric (DmlDelete r) = DML_DELETE"
| "dml_metric (DmlInsert r) = DML_INSERT"
| "dml_metric (DmlUpdate r) = DML_UPDATE"

definition op_dml :: "connector \<Rightarrow> operation_dml \<Rightarrow> (sync, unit) sx" where
  "op_dml K d =
     bind_sx (modify_sx (\<lambda>s. s\<lparr>metric := increment (metric_value (dml_metric d)) (metric s)\<rparr>)) (\<lambda>_.
       try_sx (bind_sx (lift_sx (dmlOperation2Sql d)) (\<lambda>(sql_text, params). on_mc (push_dml K sql_text params)))
         set_error)"

definition op_commit :: "connector \<Rightarrow> (sync, unit) sx" where
  "op_commit K =
     bind_sx (modify_sx (\<lambda>s. s\<lparr>metric := increment (metric_value TRX) (metric s)\<rparr>)) (\<lambda>_. \<lambda>s.
       if merge_trx s then (Inr (), s\<lparr>allow_commit := True\<rparr>) else on_mc (push_commit K) s)"

definition op_gtid :: "connector \<Rightarrow> string \<Rightarrow> int \<Rightarrow> operation_gtid \<Rightarrow> (sync, unit) sx" where
  "op_gtid K log_file log_pos g =
     bind_sx
       (\<lambda>s. if merge_trx s \<and> s_last_committed s \<noteq> last_committed g
            then bind_sx (merge_commit K) (\<lambda>_. modify_sx (\<lambda>s. s\<lparr>s_last_committed := last_committed g\<rparr>)) s
            else (Inr (), s))
       (\<lambda>_. bind_sx (lift_sx (py_int 10 (xid g)))
         (\<lambda>n. modify_sx (\<lambda>s. s\<lparr>latest_gtidset := dict_set (server_uuid g) n (latest_gtidset s),
                                latest_position := Some (log_file, log_pos)\<rparr>)))"

definition op_heartbeat :: "connector \<Rightarrow> clock \<Rightarrow> (sync, unit) sx" where
  "op_heartbeat K clock = (\<lambda>s.
     if last_operation s = Some OperationHeartbeat then
       bind_sx (read_clock clock) (\<lambda>t. bind_sx (modify_sx (\<lambda>s. s\<lparr>operation_timestamp := t\<rparr>))
         (\<lambda>_. merge_commit K)) s
     else (Inr (), s))"

fun dispatch :: "connector \<Rightarrow> clock \<Rightarrow> yielded \<Rightarrow> operation \<Rightarrow> (sync, unit) sx" where
  "dispatch K clock y (OperationNonDML n) = op_nondml K n"
| "dispatch K clock y (OperationDML d) = op_dml K d"
| "dispatch K clock y OperationBegin = on_mc (push_begin K)"
| "dispatch K clock y OperationCommit = op_commit K"
| "dispatch K clock y (OperationGtid g) = op_gtid K (y_log_file y) (y_log_pos y) g"
| "dispatch K clock y OperationHeartbeat = op_heartbeat K clock"

definition update_delay :: "clock \<Rightarrow> (sync, unit) sx" where
  "update_delay clock =
     bind_sx (read_clock clock) (\<lambda>t. \<lambda>s.
       case set_delay (py_trunc (t - operation_timestamp s)) (metric s) of
         Inl e \<Rightarrow> (Inl e, s)
       | Inr m \<Rightarrow> (Inr (), s\<lparr>metric := m\<rparr>))"

definition persist_metrics :: "sync \<Rightarrow> sync" where
  "persist_metrics s = (case persist (metric s) (sfiles s) of (m, fs) \<Rightarrow> s\<lparr>metric := m, sfiles := fs\<rparr>)"

definition periodic :: "clock \<Rightarrow> (sync, unit) sx" where
  "periodic clock =
     bind_sx (read_clock clock) (\<lambda>ts_1. \<lambda>s.
       if ts_1 \<ge> ts_0 s + ckpt_interval s then
         (let s1 = (persist_metrics s)\<lparr>ts_0 := ts_1\<rparr>
          in if allow_ckeckpoint s1 then checkpoint s1 else (Inr (), s1))
       else (Inr (), s))"

definition after_operation :: "clock \<Rightarrow> yielded \<Rightarrow> (sync, unit) sx" where
  "after_operation clock y =
     bind_sx (modify_sx (\<lambda>s. if y_operation y \<noteq> OperationHeartbeat
                             then s\<lparr>operation_timestamp := of_int (y_timestamp y)\<rparr> else s)) (\<lambda>_.
     bind_sx (update_delay clock) (\<lambda>_.
     bind_sx (periodic clock) (\<lambda>_.
     modify_sx (\<lambda>s. s\<lparr>last_operation := Some (y_operation y)\<rparr>))))"

definition skipped :: "sync \<Rightarrow> operation \<Rightarrow> bool" where
  "skipped s op = (case op of OperationDML d \<Rightarrow> excluded (exclude_tables s) d | _ \<Rightarrow> False)"

definition iteration :: "connector \<Rightarrow> clock \<Rightarrow> yielded \<Rightarrow> (sync, unit) sx" where
  "iteration K clock y =
     bind_sx (dispatch K clock y (y_operation y)) (\<lambda>_. after_operation clock y)"

text \<open>The loop over what the generator yields; \<open>fin\<close> is the exception with which the generator ends,
  if any. An excluded table continues with the next operation at once.\<close>

fun run_loop :: "connector \<Rightarrow> clock \<Rightarrow> yielded list \<Rightarrow> py_exc option \<Rightarrow> (sync, unit) sx" where
  "run_loop K clock [] fin s = (case fin of None \<Rightarrow> (Inr (), s) | Some e \<Rightarrow> (Inl e, s))"
| "run_loop K clock (y # ys) fin s =
     (if skipped s (y_operation y) then run_loop K clock ys fin s
      else case iteration K clock y s of
        (Inl e, s') \<Rightarrow> (Inl e, s')
      | (Inr _, s') \<Rightarrow> if error_exit s' then (Inr (), s') else run_loop K clock ys fin s')"

definition run :: "connector \<Rightarrow> clock \<Rightarrow> yielded list \<times> py_exc option \<Rightarrow> (sync, unit) sx" where
  "run K clock ops =
     bind_sx (read_clock clock) (\<lambda>t.
     bind_sx (modify_sx (\<lambda>s. s\<lparr>ts_0 := t, operation_timestamp := 0, error_exit := False,
                                last_operation := None\<rparr>)) (\<lambda>_.
     bind_sx (run_loop K clock (fst ops) (snd ops)) (\<lambda>_.
     bind_sx (merge_commit K) (\<lambda>_.
     bind_sx (modify_sx persist_metrics) (\<lambda>_. \<lambda>s.
       if error_exit s then (Inl (SystemExit 1), s) else (Inr (), s))))))"

end
