(* ===== verification/Sync_Order.thy ===== *)
theory Sync_Order
  imports Sync
begin

text \<open>
  What the loop of \<open>MysqlSync.run\<close> does to the target whatever the connector answers: the statements
  that are executed are those of the operations, in their order and without a gap; when \<open>run\<close> returns,
  they are all of them; the first failure ends the loop. And what it does to the rest of the state:
  metrics, checkpoint files, latest positions.
\<close>

section \<open>The statements of an operation\<close>

definition effect :: "(string, string list) dict \<Rightarrow> operation \<Rightarrow> stmt list" where
  "effect ex op =
     (case op of
        OperationNonDML n \<Rightarrow> [SDdl (nd_query n)]
      | OperationDML d \<Rightarrow>
          if excluded ex d then []
          else (case dmlOperation2Sql d of Inr (q, ps) \<Rightarrow> [SDml q ps] | Inl _ \<Rightarrow> [])
      | _ \<Rightarrow> [])"

definition effects :: "(string, string list) dict \<Rightarrow> yielded list \<Rightarrow> stmt list" where
  "effects ex ys = concat (map (\<lambda>y. effect ex (y_operation y)) ys)"

lemma effects_simps [simp]:
  "effects ex [] = []" "effects ex (y # ys) = effect ex (y_operation y) @ effects ex ys"
  "effects ex (xs @ ys) = effects ex xs @ effects ex ys"
  by (simp_all add: effects_def)

abbreviation executed :: "sync \<Rightarrow> stmt list" where
  "executed s \<equiv> stmts (hist (mc s))"

section \<open>What the steps leave unchanged\<close>

lemma bind_sxE:
  assumes "bind_sx m f s = (r, s')"
  obtains (raise) e where "m s = (Inl e, s')" "r = Inl e"
    | (next_step) x s1 where "m s = (Inr x, s1)" "f x s1 = (r, s')"
  using assms by (auto simp: bind_sx_def split: prod.splits sum.splits)

lemma on_mcE:
  assumes "on_mc m s = (r, s')"
  obtains c where "m (mc s) = (r, c)" "s' = s\<lparr>mc := c\<rparr>"
  using assms by (auto simp: on_mc_def split: prod.splits)

definition core where
  "core s = (mc s, allow_commit s, s_last_committed s, exclude_tables s, merge_trx s, error_exit s,
     latest_gtidset s, latest_position s, ckpt_interval s)"

lemma core_updates [simp]:
  "core (s\<lparr>ticks := n\<rparr>) = core s" "core (s\<lparr>operation_timestamp := t\<rparr>) = core s"
  "core (s\<lparr>last_operation := p\<rparr>) = core s" "core (s\<lparr>ts_0 := t\<rparr>) = core s"
  by (simp_all add: core_def)

lemma update_delay_core: "update_delay clock s = (r, s') \<Longrightarrow> core s' = core s"
  by (auto simp: update_delay_def read_clock_def core_def elim!: bind_sxE split: sum.splits)

lemma checkpoint_core: "checkpoint s = (r, s') \<Longrightarrow> core s' = core s"
  by (auto simp: checkpoint_def core_def Let_def split: sum.splits)

lemma persist_metrics_core: "core (persist_metrics s) = core s"
  by (simp add: persist_metrics_def core_def split: prod.splits)

lemma periodic_core: "periodic clock s = (r, s') \<Longrightarrow> core s' = core s"
  using checkpoint_core persist_metrics_core
  by (auto simp: periodic_def read_clock_def core_def Let_def elim!: bind_sxE split: if_splits)

lemma after_operation_core: "after_operation clock y s = (r, s') \<Longrightarrow> core s' = core s"
  unfolding after_operation_def
  by (auto simp: modify_sx_def elim!: bind_sxE dest!: update_delay_core periodic_core split: if_splits)

lemma after_operation_frame:
  assumes "after_operation clock y s = (r, s')"
  shows "mc s' = mc s" "allow_commit s' = allow_commit s" "s_last_committed s' = s_last_committed s"
    "exclude_tables s' = exclude_tables s" "merge_trx s' = merge_trx s" "error_exit s' = error_exit s"
    "latest_gtidset s' = latest_gtidset s" "ckpt_interval s' = ckpt_interval s"
    "r = Inr () \<Longrightarrow> last_operation s' = Some (y_operation y)"
proof -
  show "r = Inr () \<Longrightarrow> last_operation s' = Some (y_operation y)"
    using assms unfolding after_operation_def by (auto simp: modify_sx_def elim!: bind_sxE)
qed (use after_operation_core [OF assms] in \<open>auto simp: core_def\<close>)

lemma merge_commit_frame:
  assumes "merge_commit K s = (r, s')"
  shows "executed s' = executed s" "error_exit s' = error_exit s" "exclude_tables s' = exclude_tables s"
    "merge_trx s' = merge_trx s" "latest_gtidset s' = latest_gtidset s" "ckpt_interval s' = ckpt_interval s"
    "s_last_committed s' = s_last_committed s" "last_operation s' = last_operation s"
    "r = Inr () \<Longrightarrow> \<not> allow_commit s'"
  using assms
  by (auto simp: merge_commit_def modify_sx_def push_commit_stmts
      elim!: bind_sxE on_mcE split: if_splits)

lemma dispatch_frame:
  assumes "dispatch K clock y op s = (r, s')"
  shows "exclude_tables s' = exclude_tables s" "merge_trx s' = merge_trx s"
    "ckpt_interval s' = ckpt_interval s" "last_operation s' = last_operation s"
  using assms merge_commit_frame
  by (cases op; fastforce simp: op_nondml_def op_dml_def op_commit_def op_gtid_def op_heartbeat_def
      modify_sx_def try_sx_def set_error_def lift_sx_def read_clock_def
      elim!: bind_sxE on_mcE split: if_splits prod.splits sum.splits)+

section \<open>One iteration\<close>

lemma try_sxE:
  assumes "try_sx m h s = (r, s')"
  obtains (ok) x where "m s = (Inr x, s')" "r = Inr x"
    | (caught) e s1 where "m s = (Inl e, s1)" "h s1 = (r, s')"
    | (escapes) e where "m s = (Inl e, s')" "r = Inl e"
  using assms by (auto simp: try_sx_def split: prod.splits sum.splits if_splits)

definition failed :: "unit res \<Rightarrow> sync \<Rightarrow> bool" where
  "failed r s = ((\<exists>e. r = Inl e) \<or> error_exit s)"

lemma op_nondml_executed:
  assumes "op_nondml K n s = (r, s')"
  shows "executed s' = executed s @ [SDdl (nd_query n)] \<or> executed s' = executed s \<and> failed r s'"
  using assms unfolding op_nondml_def
proof (cases rule: bind_sxE)
  case (raise e)
  then show ?thesis using merge_commit_frame(1) by (auto simp: failed_def)
next
  case (next_step u s1)
  note m = merge_commit_frame(1) [OF next_step(1)]
  from next_step(2) show ?thesis
    using push_nondml_stmts m
    by (cases rule: try_sxE)
      (fastforce simp: set_error_def modify_sx_def failed_def elim!: bind_sxE on_mcE)+
qed

lemma op_dml_executed:
  assumes "op_dml K d s = (r, s')" "\<not> excluded ex d"
  shows "executed s' = executed s @ effect ex (OperationDML d) \<and> (\<exists>x. dmlOperation2Sql d = Inr x)
     \<or> executed s' = executed s \<and> failed r s'"
proof -
  let ?s = "s\<lparr>metric := increment (metric_value (dml_metric d)) (metric s)\<rparr>"
  have "try_sx (bind_sx (lift_sx (dmlOperation2Sql d))
      (\<lambda>(sql_text, params). on_mc (push_dml K sql_text params))) set_error ?s = (r, s')"
    using assms(1) by (simp add: op_dml_def modify_sx_def bind_sx_def)
  then show ?thesis
    using push_dml_stmts assms(2)
    by (cases rule: try_sxE)
      (fastforce simp: set_error_def modify_sx_def failed_def lift_sx_def effect_def
        elim!: bind_sxE on_mcE)+
qed

lemma silent_executed:
  assumes "dispatch K clock y op s = (r, s')" "\<forall>n. op \<noteq> OperationNonDML n" "\<forall>d. op \<noteq> OperationDML d"
  shows "executed s' = executed s"
  using assms merge_commit_frame(1) push_begin_stmts push_commit_stmts
  by (cases op; fastforce simp: op_commit_def op_gtid_def op_heartbeat_def modify_sx_def lift_sx_def
      read_clock_def elim!: bind_sxE on_mcE split: if_splits)

lemma iteration_executed:
  assumes "iteration K clock y s = (r, s')" "\<not> skipped s (y_operation y)"
  shows "executed s' = executed s @ effect (exclude_tables s) (y_operation y)
     \<or> executed s' = executed s \<and> failed r s'"
proof -
  have d: "executed s1 = executed s @ effect (exclude_tables s) (y_operation y)
     \<or> executed s1 = executed s \<and> failed r1 s1"
    if "dispatch K clock y (y_operation y) s = (r1, s1)" for r1 s1
  proof (cases "y_operation y")
    case (OperationNonDML n)
    then show ?thesis using that op_nondml_executed by (fastforce simp: effect_def)
  next
    case (OperationDML d)
    then show ?thesis using that op_dml_executed [of K d s r1 s1 "exclude_tables s"] assms(2)
      by (auto simp: skipped_def)
  qed (use that silent_executed in \<open>force simp: effect_def\<close>)+
  from assms(1) show ?thesis
    unfolding iteration_def
  proof (cases rule: bind_sxE)
    case (raise e)
    then show ?thesis using d by (auto simp: failed_def)
  next
    case (next_step x s1)
    then show ?thesis
      using d [OF next_step(1)] after_operation_frame [OF next_step(2)] by (auto simp: failed_def)
  qed
qed

lemma iteration_frame:
  assumes "iteration K clock y s = (r, s')"
  shows "exclude_tables s' = exclude_tables s" "merge_trx s' = merge_trx s"
    "ckpt_interval s' = ckpt_interval s"
  using assms unfolding iteration_def
  by (auto elim!: bind_sxE simp: dispatch_frame after_operation_frame)

section \<open>The loop\<close>

lemma skipped_effect: "skipped s op \<Longrightarrow> effect (exclude_tables s) op = []"
  by (auto simp: skipped_def effect_def split: operation.splits)

lemma run_loop_executed:
  assumes "run_loop K clock ys fin s = (r, s')" "\<not> error_exit s"
  shows "\<exists>k \<le> length ys. executed s' = executed s @ effects (exclude_tables s) (take k ys)
    \<and> (r = Inr () \<and> \<not> error_exit s' \<longrightarrow> k = length ys \<and> fin = None)"
  using assms
proof (induction ys arbitrary: s)
  case Nil
  then show ?case by (auto split: option.splits)
next
  case (Cons y ys)
  show ?case
  proof (cases "skipped s (y_operation y)")
    case True
    with Cons obtain k where "k \<le> length ys" "executed s' = executed s @ effects (exclude_tables s) (take k ys)"
        "r = Inr () \<and> \<not> error_exit s' \<longrightarrow> k = length ys \<and> fin = None"
      by auto
    with True show ?thesis by (intro exI [of _ "Suc k"]) (simp add: skipped_effect)
  next
    case False
    obtain r1 s1 where i: "iteration K clock y s = (r1, s1)" by (cases "iteration K clock y s")
    note e = iteration_executed [OF i False] and f = iteration_frame [OF i]
    show ?thesis
    proof (cases "failed r1 s1")
      case True
      then have "s' = s1" "\<not> (r = Inr () \<and> \<not> error_exit s')"
        using Cons.prems(1) False i by (auto simp: failed_def split: sum.splits)
      moreover have "effects (exclude_tables s) (take 0 (y # ys)) = []"
        "effects (exclude_tables s) (take (Suc 0) (y # ys)) = effect (exclude_tables s) (y_operation y)"
        by simp_all
      ultimately show ?thesis using e by (metis append_Nil2 le0 length_Cons Suc_le_mono)
    next
      case ok: False
      then have "run_loop K clock ys fin s1 = (r, s')" "\<not> error_exit s1"
        using Cons.prems(1) False i by (auto simp: failed_def split: sum.splits)
      from Cons.IH [OF this] obtain k where "k \<le> length ys"
          "executed s' = executed s1 @ effects (exclude_tables s1) (take k ys)"
          "r = Inr () \<and> \<not> error_exit s' \<longrightarrow> k = length ys \<and> fin = None"
        by blast
      with e ok f show ?thesis by (intro exI [of _ "Suc k"]) auto
    qed
  qed
qed

lemma run_executed:
  assumes "run K clock ops s = (r, s')"
  shows "\<exists>k \<le> length (fst ops). executed s' = executed s @ effects (exclude_tables s) (take k (fst ops))
    \<and> (r = Inr () \<longrightarrow> k = length (fst ops) \<and> snd ops = None)"
proof -
  let ?s = "s\<lparr>ticks := ticks s + 1, ts_0 := clock (ticks s), operation_timestamp := 0,
    error_exit := False, last_operation := None\<rparr>"
  obtain r1 s1 where l: "run_loop K clock (fst ops) (snd ops) ?s = (r1, s1)"
    by (cases "run_loop K clock (fst ops) (snd ops) ?s")
  obtain k where k: "k \<le> length (fst ops)"
      "executed s1 = executed s @ effects (exclude_tables s) (take k (fst ops))"
      "r1 = Inr () \<and> \<not> error_exit s1 \<longrightarrow> k = length (fst ops) \<and> snd ops = None"
    using run_loop_executed [OF l] by auto
  have run: "bind_sx (run_loop K clock (fst ops) (snd ops)) (\<lambda>_.
     bind_sx (merge_commit K) (\<lambda>_.
     bind_sx (modify_sx persist_metrics) (\<lambda>_. \<lambda>s.
       if error_exit s then (Inl (SystemExit 1), s) else (Inr (), s)))) ?s = (r, s')"
    using assms by (simp add: run_def read_clock_def modify_sx_def bind_sx_def)
  have core: "mc (persist_metrics x) = mc x" "error_exit (persist_metrics x) = error_exit x" for x
    using persist_metrics_core [of x] by (auto simp: core_def)
  have "executed s' = executed s1 \<and> (r = Inr () \<longrightarrow> r1 = Inr () \<and> \<not> error_exit s1)"
    using run
  proof (cases rule: bind_sxE)
    case (next_step u s2)
    then have s2: "s2 = s1" "r1 = Inr u" using l by simp_all
    from next_step(2) show ?thesis
      by (cases rule: bind_sxE)
        (auto simp: s2 core modify_sx_def bind_sx_def merge_commit_frame(1,2) split: if_splits)
  qed (use l in auto)
  with k show ?thesis by auto
qed

section \<open>Order\<close>

text \<open>A small stream for the witnesses: two transactions of one server.\<close>

definition demo_row :: "string \<Rightarrow> operation_dml" where
  "demo_row v = DmlInsert \<lparr>ins_schema = ''d'', ins_table = ''t'', ins_values = [(''id'', PStr v)],
     ins_primary_key = PkStr ''id''\<rparr>"

definition demo_gtid :: "string \<Rightarrow> int \<Rightarrow> operation_gtid" where
  "demo_gtid x lc = \<lparr>server_uuid = ''u'', xid = x, last_committed = lc\<rparr>"

definition demo_yield :: "operation \<Rightarrow> yielded" where
  "demo_yield op = \<lparr>y_log_file = ''f'', y_log_pos = 4, y_timestamp = 0, y_operation = op\<rparr>"

definition demo_start :: "bool \<Rightarrow> sync" where
  "demo_start m = sync_start m 10 [] \<lparr>hist = [], dml_cnt = 0\<rparr>"

definition demo_ops :: "yielded list" where
  "demo_ops = map demo_yield [OperationGtid (demo_gtid ''1'' 0), OperationBegin, OperationDML (demo_row ''a''), OperationCommit]"

text \<open>C6: whatever the connector answers, the statements that \<open>run\<close> executes successfully are those of the
  first \<open>k\<close> operations of the stream, in their order, without a gap or a repetition; when \<open>run\<close>
  returns normally they are the statements of all operations and the stream ended without an
  exception.\<close>

theorem run_executes_in_order:
  assumes "run K clock ops s = (r, s')"
  shows "\<exists>k \<le> length (fst ops). executed s' = executed s @ effects (exclude_tables s) (take k (fst ops))
    \<and> (r = Inr () \<longrightarrow> k = length (fst ops) \<and> snd ops = None)"
  using assms by (rule run_executed)

theorem run_executes_in_order_witness:
  "\<exists>s'. run mysql_connector (\<lambda>_. 0) (demo_ops, None) (demo_start True) = (Inr (), s')
     \<and> executed s' = [SDml ''REPLACE INTO `d`.`t`(id) VALUES(%s)'' [PStr ''a'']]"
proof -
  obtain r s' where r: "run mysql_connector (\<lambda>_. 0) (demo_ops, None) (demo_start True) = (r, s')" by fastforce
  have "fst (run mysql_connector (\<lambda>_. 0) (demo_ops, None) (demo_start True)) = Inr ()" by code_simp
  then have ok: "r = Inr ()" using r by simp
  have "effects (exclude_tables (demo_start True)) demo_ops = [SDml ''REPLACE INTO `d`.`t`(id) VALUES(%s)'' [PStr ''a'']]"
    "executed (demo_start True) = []" by code_simp+
  with run_executes_in_order [OF r] r ok show ?thesis by auto
qed

end
