(* ===== verification/Sync_Plan.thy ===== *)
theory Sync_Plan
  imports Sync_Order
begin

text \<open>
  The abstract specification of \<open>MysqlSync.run\<close>: a plan that maps the operations to the commands for
  the target (when to begin, execute, commit), from three variables only. The loop refines the plan:
  without a failure it performs exactly the planned commands. The plan is what makes the target
  consistent: it commits only between transactions of the source, and at the end of the stream
  everything is durable.
\<close>

section \<open>The plan\<close>

record plan_state =
  p_allow :: bool
  p_last :: int
  p_beat :: bool

definition flush :: "plan_state \<Rightarrow> cmd list" where
  "flush p = (if p_allow p then [CCommit] else [])"

fun plan_op :: "bool \<Rightarrow> plan_state \<Rightarrow> operation \<Rightarrow> cmd list \<times> plan_state" where
  "plan_op m p (OperationNonDML n) =
     (flush p @ [CDdl (nd_schema n) (nd_query n)], p\<lparr>p_allow := False\<rparr>)"
| "plan_op m p (OperationDML d) =
     (case dmlOperation2Sql d of Inr (q, ps) \<Rightarrow> ([CDml q ps], p) | Inl _ \<Rightarrow> ([], p))"
| "plan_op m p OperationBegin = ([CBegin], p)"
| "plan_op m p OperationCommit = (if m then ([], p\<lparr>p_allow := True\<rparr>) else ([CCommit], p))"
| "plan_op m p (OperationGtid g) =
     (if m \<and> p_last p \<noteq> last_committed g
      then (flush p, p\<lparr>p_allow := False, p_last := last_committed g\<rparr>) else ([], p))"
| "plan_op m p OperationHeartbeat =
     (if p_beat p then (flush p, p\<lparr>p_allow := False\<rparr>) else ([], p))"

definition plan_step ::
    "(string, string list) dict \<Rightarrow> bool \<Rightarrow> plan_state \<Rightarrow> operation \<Rightarrow> cmd list \<times> plan_state" where
  "plan_step ex m p op =
     (if case op of OperationDML d \<Rightarrow> excluded ex d | _ \<Rightarrow> False then ([], p)
      else case plan_op m p op of (cs, p') \<Rightarrow> (cs, p'\<lparr>p_beat := (op = OperationHeartbeat)\<rparr>))"

fun plan :: "(string, string list) dict \<Rightarrow> bool \<Rightarrow> plan_state \<Rightarrow> operation list \<Rightarrow> cmd list \<times> plan_state" where
  "plan ex m p [] = ([], p)"
| "plan ex m p (op # ops) =
     (case plan_step ex m p op of (cs, p1) \<Rightarrow> case plan ex m p1 ops of (ds, p2) \<Rightarrow> (cs @ ds, p2))"

definition plan_of :: "sync \<Rightarrow> plan_state" where
  "plan_of s = \<lparr>p_allow = allow_commit s, p_last = s_last_committed s,
     p_beat = (last_operation s = Some OperationHeartbeat)\<rparr>"

section \<open>The loop refines the plan\<close>

lemma merge_commit_plan:
  assumes "merge_commit K s = (Inr (), s')"
  shows "exec_all (run_cmd K) (flush (plan_of s)) (mc s) = (Inr (), mc s')"
    "plan_of s' = (plan_of s)\<lparr>p_allow := False\<rparr>"
  using assms
  by (auto simp: merge_commit_def flush_def plan_of_def modify_sx_def bind_sx_ok
      elim!: bind_sxE on_mcE split: if_splits)

lemma exec_all_snoc:
  "exec_all f xs s = (Inr (), s1) \<Longrightarrow> f c s1 = (Inr (), s2) \<Longrightarrow> exec_all f (xs @ [c]) s = (Inr (), s2)"
  by (simp add: exec_all_append bind_sx_ok)

lemma try_ok:
  assumes "try_sx m set_error s = (Inr x, s')" "\<not> error_exit s'"
  shows "m s = (Inr (), s')"
  using assms by (auto simp: set_error_def modify_sx_def elim!: try_sxE)

lemma dispatch_plan:
  assumes "dispatch K clock y op s = (Inr (), s')" "\<not> error_exit s'" "\<not> skipped s op"
  shows "case plan_op (merge_trx s) (plan_of s) op of (cs, p) \<Rightarrow>
    exec_all (run_cmd K) cs (mc s) = (Inr (), mc s') \<and> plan_of s' = p"
proof (cases op)
  case (OperationNonDML n)
  then obtain s1 where m: "merge_commit K s = (Inr (), s1)" and
    t: "try_sx (bind_sx (on_mc (push_nondml K (nd_schema n) (nd_query n)))
            (\<lambda>_. modify_sx (\<lambda>s. s\<lparr>metric := increment (non_dml_value (oper_type n)) (metric s)\<rparr>)))
         set_error s1 = (Inr (), s')"
    using assms(1) by (auto simp: op_nondml_def elim!: bind_sxE)
  from try_ok [OF t assms(2)] obtain c where "push_nondml K (nd_schema n) (nd_query n) (mc s1) = (Inr (), c)"
      "mc s' = c" "plan_of s' = plan_of s1"
    by (auto simp: modify_sx_def plan_of_def elim!: bind_sxE on_mcE)
  with merge_commit_plan [OF m] OperationNonDML show ?thesis
    by (auto intro: exec_all_snoc)
next
  case (OperationDML d)
  let ?s = "s\<lparr>metric := increment (metric_value (dml_metric d)) (metric s)\<rparr>"
  have "try_sx (bind_sx (lift_sx (dmlOperation2Sql d))
      (\<lambda>(sql_text, params). on_mc (push_dml K sql_text params))) set_error ?s = (Inr (), s')"
    using assms(1) OperationDML by (simp add: op_dml_def modify_sx_def bind_sx_def)
  from try_ok [OF this assms(2)] OperationDML show ?thesis
    by (auto simp: lift_sx_def plan_of_def bind_sx_ok elim!: bind_sxE on_mcE)
next
  case OperationHeartbeat
  then show ?thesis
    using assms(1) merge_commit_plan
    by (fastforce simp: op_heartbeat_def read_clock_def modify_sx_def plan_of_def
        elim!: bind_sxE split: if_splits)
next
  case OperationCommit
  then show ?thesis
    using assms(1)
    by (auto simp: op_commit_def modify_sx_def plan_of_def bind_sx_ok elim!: bind_sxE on_mcE split: if_splits)
next
  case OperationBegin
  then show ?thesis
    using assms(1) by (auto simp: plan_of_def bind_sx_ok elim!: on_mcE)
next
  case (OperationGtid g)
  then show ?thesis
    using assms(1) merge_commit_plan
    by (fastforce simp: op_gtid_def modify_sx_def lift_sx_def plan_of_def elim!: bind_sxE split: if_splits)
qed

lemma iteration_plan:
  assumes "iteration K clock y s = (Inr (), s')" "\<not> error_exit s'" "\<not> skipped s (y_operation y)"
  shows "case plan_step (exclude_tables s) (merge_trx s) (plan_of s) (y_operation y) of (cs, p) \<Rightarrow>
    exec_all (run_cmd K) cs (mc s) = (Inr (), mc s') \<and> plan_of s' = p"
proof -
  obtain s1 where d: "dispatch K clock y (y_operation y) s = (Inr (), s1)"
      and a: "after_operation clock y s1 = (Inr (), s')"
    using assms(1) by (auto simp: iteration_def elim!: bind_sxE)
  note f = after_operation_frame [OF a]
  have "plan_of s' = (plan_of s1)\<lparr>p_beat := (y_operation y = OperationHeartbeat)\<rparr>"
    using f by (simp add: plan_of_def)
  moreover have "\<not> error_exit s1" using f assms(2) by simp
  ultimately show ?thesis
    using dispatch_plan [OF d _ assms(3)] f assms(3)
    by (auto simp: plan_step_def skipped_def split: prod.splits)
qed

lemma run_loop_plan:
  assumes "run_loop K clock ys None s = (Inr (), s')" "\<not> error_exit s" "\<not> error_exit s'"
  shows "\<exists>cs p. plan (exclude_tables s) (merge_trx s) (plan_of s) (map y_operation ys) = (cs, p)
    \<and> exec_all (run_cmd K) cs (mc s) = (Inr (), mc s') \<and> plan_of s' = p"
  using assms(1,2)
proof (induction ys arbitrary: s)
  case Nil
  then show ?case by simp
next
  case (Cons y ys)
  show ?case
  proof (cases "skipped s (y_operation y)")
    case True
    then have "plan_step (exclude_tables s) (merge_trx s) (plan_of s) (y_operation y) = ([], plan_of s)"
      by (auto simp: plan_step_def skipped_def split: operation.splits)
    with Cons True show ?thesis by (auto split: prod.splits)
  next
    case False
    obtain r1 s1 where i: "iteration K clock y s = (r1, s1)" by (cases "iteration K clock y s")
    then have r1: "r1 = Inr ()" "\<not> error_exit s1" and l: "run_loop K clock ys None s1 = (Inr (), s')"
      using Cons.prems(1) False assms(3) by (auto split: sum.splits if_splits)
    note f = iteration_frame [OF i]
    obtain cs p where cs: "plan_step (exclude_tables s) (merge_trx s) (plan_of s) (y_operation y) = (cs, p)"
        "exec_all (run_cmd K) cs (mc s) = (Inr (), mc s1)" "plan_of s1 = p"
      using iteration_plan [of K clock y s s1] i r1 False by (auto split: prod.splits)
    with Cons.IH [OF l r1(2)] f show ?thesis by (auto simp: exec_all_append bind_sx_ok)
  qed
qed

lemma run_loop_raise:
  "run_loop K clock ys None s = (Inr (), s') \<Longrightarrow> \<not> error_exit s' \<Longrightarrow>
   run_loop K clock ys (Some e) s = (Inl e, s')"
  by (induction ys arbitrary: s) (auto split: if_splits prod.splits sum.splits)

section \<open>What the plan means\<close>

lemma plan_append:
  "plan ex m p (xs @ ys) = (case plan ex m p xs of (cs, p1) \<Rightarrow> case plan ex m p1 ys of (ds, p2) \<Rightarrow> (cs @ ds, p2))"
  by (induction xs arbitrary: p) (auto split: prod.splits)

definition all_effects :: "(string, string list) dict \<Rightarrow> operation list \<Rightarrow> stmt list" where
  "all_effects ex ops = concat (map (effect ex) ops)"

lemma all_effects_simps [simp]:
  "all_effects ex [] = []" "all_effects ex (x # xs) = effect ex x @ all_effects ex xs"
  "all_effects ex (xs @ ys) = all_effects ex xs @ all_effects ex ys"
  by (simp_all add: all_effects_def)

lemma effects_map: "effects ex ys = all_effects ex (map y_operation ys)"
  by (induction ys) auto

definition settles :: "operation \<Rightarrow> bool" where
  "settles op = (case op of OperationGtid _ \<Rightarrow> True | OperationHeartbeat \<Rightarrow> True | OperationCommit \<Rightarrow> True | _ \<Rightarrow> False)"

definition is_ddl :: "operation \<Rightarrow> bool" where
  "is_ddl op = (case op of OperationNonDML _ \<Rightarrow> True | _ \<Rightarrow> False)"

lemma plan_step_meaning:
  assumes "plan_step ex m p op = (cs, p')" "fold meaning cs (d, u) = (d', u')"
  shows "d' @ u' = d @ u @ effect ex op"
    "d' = d \<or> settles op \<and> d' = d @ u \<or> is_ddl op \<and> d' = d @ u @ effect ex op"
  using assms
  by (cases op; auto simp: plan_step_def flush_def effect_def settles_def is_ddl_def
      split: if_splits sum.splits)+

text \<open>A cut is a place between two operations where the plan may commit: before a Gtid, a
  heartbeat or the commit of a transaction, and after a DDL statement.\<close>

definition cut :: "operation list \<Rightarrow> nat \<Rightarrow> bool" where
  "cut ops k = (k = 0 \<or> k < length ops \<and> settles (ops ! k) \<or> 0 < k \<and> k \<le> length ops \<and> is_ddl (ops ! (k - 1)))"

lemma plan_cuts:
  assumes "n \<le> length ops" "plan ex m p (take n ops) = (cs, p')" "fold meaning cs ([], []) = (d, u)"
  shows "d @ u = all_effects ex (take n ops) \<and> (\<exists>k \<le> n. cut ops k \<and> d = all_effects ex (take k ops))"
  using assms
proof (induction n arbitrary: cs p' d u)
  case 0
  then show ?case by (auto simp: cut_def)
next
  case (Suc n)
  then have t: "take (Suc n) ops = take n ops @ [ops ! n]" by (simp add: take_Suc_conv_app_nth)
  obtain cs1 p1 where 1: "plan ex m p (take n ops) = (cs1, p1)" by fastforce
  obtain cs2 p2 where 2: "plan_step ex m p1 (ops ! n) = (cs2, p2)" by fastforce
  obtain d1 u1 where f: "fold meaning cs1 ([], []) = (d1, u1)" by fastforce
  have "cs = cs1 @ cs2" using Suc.prems(2) t 1 2 by (simp add: plan_append)
  then have m: "fold meaning cs2 (d1, u1) = (d, u)" using Suc.prems(3) f by simp
  from Suc.IH [OF _ 1 f] Suc.prems(1) obtain k where k: "d1 @ u1 = all_effects ex (take n ops)"
      "k \<le> n" "cut ops k" "d1 = all_effects ex (take k ops)"
    by auto
  note pm = plan_step_meaning [OF 2 m]
  have "d @ u = all_effects ex (take (Suc n) ops)" using pm(1) k(1) t by (simp flip: append_assoc)
  moreover have "\<exists>k \<le> Suc n. cut ops k \<and> d = all_effects ex (take k ops)"
    using pm(2)
  proof (elim disjE conjE)
    assume "settles (ops ! n)" "d = d1 @ u1"
    then show ?thesis using Suc.prems(1) k(1) by (intro exI [of _ n]) (simp add: cut_def)
  next
    assume "is_ddl (ops ! n)" "d = d1 @ u1 @ effect ex (ops ! n)"
    then show ?thesis using Suc.prems(1) k(1) t
      by (intro exI [of _ "Suc n"]) (simp add: cut_def flip: append_assoc)
  qed (use k le_SucI in blast)
  ultimately show ?case by simp
qed

section \<open>Streams of transactions\<close>

datatype source_unit =
    Transaction operation_gtid "operation_dml list"
  | Ddl operation_gtid operation_non_dml
  | Idle

fun unit_ops :: "source_unit \<Rightarrow> operation list" where
  "unit_ops (Transaction g ds) = OperationGtid g # OperationBegin # map OperationDML ds @ [OperationCommit]"
| "unit_ops (Ddl g n) = [OperationGtid g, OperationNonDML n]"
| "unit_ops Idle = [OperationHeartbeat]"

definition stream_ops :: "source_unit list \<Rightarrow> operation list" where
  "stream_ops us = concat (map unit_ops us)"

lemma stream_ops_simps [simp]: "stream_ops [] = []" "stream_ops (u # us) = unit_ops u @ stream_ops us"
  by (simp_all add: stream_ops_def)

lemma unit_cut:
  assumes "k < length (unit_ops u)" "cut (unit_ops u @ rest) k"
  shows "all_effects ex (take k (unit_ops u @ rest)) = [] \<or>
    all_effects ex (take k (unit_ops u @ rest)) = all_effects ex (unit_ops u)"
proof (cases u)
  case (Transaction g ds)
  show ?thesis
  proof (cases "k < 2 + length ds")
    case True
    then have "k = 0"
      using assms Transaction
      by (auto simp: cut_def settles_def is_ddl_def nth_append nth_Cons' split: if_splits)
    then show ?thesis by simp
  next
    case False
    then have "k = 2 + length ds" using assms(1) Transaction by simp
    then show ?thesis by (simp add: Transaction effect_def)
  qed
next
  case (Ddl g n)
  then show ?thesis using assms by (auto simp: less_Suc_eq effect_def)
next
  case Idle
  then show ?thesis using assms by (auto simp: effect_def)
qed

lemma stream_cut:
  assumes "cut (stream_ops us) k" "k \<le> length (stream_ops us)"
  shows "\<exists>j \<le> length us. all_effects ex (take k (stream_ops us)) = all_effects ex (stream_ops (take j us))"
  using assms
proof (induction us arbitrary: k)
  case Nil
  then show ?case by simp
next
  case (Cons u us)
  show ?case
  proof (cases "k < length (unit_ops u)")
    case True
    with unit_cut [OF True, of "stream_ops us" ex] Cons.prems(1)
    consider "all_effects ex (take k (stream_ops (u # us))) = all_effects ex (stream_ops (take 0 (u # us)))"
      | "all_effects ex (take k (stream_ops (u # us))) = all_effects ex (stream_ops (take 1 (u # us)))"
      by auto
    then show ?thesis by cases (metis le0, metis One_nat_def Suc_le_mono le0 length_Cons)
  next
    case False
    let ?k = "k - length (unit_ops u)"
    have c: "cut (stream_ops us) ?k"
      using Cons.prems False by (auto simp: cut_def nth_append split: if_splits)
    have "?k \<le> length (stream_ops us)" using Cons.prems(2) by auto
    from Cons.IH [OF c this] obtain j where "j \<le> length us"
        "all_effects ex (take ?k (stream_ops us)) = all_effects ex (stream_ops (take j us))"
      by blast
    with False show ?thesis by (intro exI [of _ "Suc j"]) simp
  qed
qed

lemma plan_atomic:
  assumes "plan ex m p (take n (stream_ops us)) = (cs, p')" "fold meaning cs ([], []) = (d, u)"
  shows "\<exists>j \<le> length us. d = all_effects ex (stream_ops (take j us))"
proof -
  have "take n (stream_ops us) = take (min n (length (stream_ops us))) (stream_ops us)"
    by (cases "n \<le> length (stream_ops us)") (simp_all add: min_def)
  with plan_cuts [of "min n (length (stream_ops us))" "stream_ops us" ex m p cs p' d u] assms
  obtain k where "k \<le> min n (length (stream_ops us))" "cut (stream_ops us) k"
      "d = all_effects ex (take k (stream_ops us))"
    by auto
  with stream_cut [of us k ex] show ?thesis by auto
qed

text \<open>After whole units, pending statements are waiting for a commit that the plan has allowed.\<close>

lemma plan_stream_settled:
  assumes "plan ex m p (stream_ops us) = (cs, p')" "fold meaning cs (d, u) = (d', u')"
    and "u \<noteq> [] \<longrightarrow> p_allow p"
  shows "u' \<noteq> [] \<longrightarrow> p_allow p'"
  using assms
proof (induction us arbitrary: p cs d u)
  case Nil
  then show ?case by simp
next
  case (Cons un us)
  obtain cs1 p1 where 1: "plan ex m p (unit_ops un) = (cs1, p1)" by fastforce
  obtain cs2 p2 where 2: "plan ex m p1 (stream_ops us) = (cs2, p2)" by fastforce
  obtain d1 u1 where f: "fold meaning cs1 (d, u) = (d1, u1)" by fastforce
  have cs: "cs = cs1 @ cs2" "p' = p2" using Cons.prems(1) 1 2 by (simp_all add: plan_append)
  have "u1 \<noteq> [] \<longrightarrow> p_allow p1"
  proof (cases un)
    case (Transaction g ds)
    then obtain cs0 p0 where 0: "plan ex m p (OperationGtid g # OperationBegin # map OperationDML ds) = (cs0, p0)"
      by fastforce
    have "plan ex m p (unit_ops un)
        = (case plan_step ex m p0 OperationCommit of (ds, p2) \<Rightarrow> (cs0 @ ds, p2))"
      using plan_append [of ex m p "OperationGtid g # OperationBegin # map OperationDML ds" "[OperationCommit]"] 0
      by (simp add: Transaction split: prod.splits)
    with 1 f show ?thesis
      by (cases "fold meaning cs0 (d, u)") (auto simp: plan_step_def split: if_splits)
  next
    case (Ddl g n)
    with 1 f show ?thesis by (auto simp: plan_step_def flush_def split: if_splits)
  next
    case Idle
    with 1 f Cons.prems(3) show ?thesis by (auto simp: plan_step_def flush_def split: if_splits)
  qed
  moreover have "fold meaning cs2 (d1, u1) = (d', u')" using Cons.prems(2) f cs(1) by simp
  ultimately show ?case using Cons.IH [of p1 cs2 d1 u1] 2 cs(2) by simp
qed

section \<open>A reliable target\<close>

text \<open>With a connector that reports the transaction state and whose calls succeed, the loop does not
  fail on operations that can be translated.\<close>

fun ok_op :: "operation \<Rightarrow> bool" where
  "ok_op (OperationDML d) = is_ok (dmlOperation2Sql d)"
| "ok_op (OperationGtid g) = is_ok (py_int 10 (xid g))"
| "ok_op _ = True"

text \<open>\<open>placed\<close>: there is a position to write when a checkpoint may be taken; it is kept because the
  Gtid of a transaction comes before its commit.\<close>

definition placed :: "sync \<Rightarrow> bool" where
  "placed s = (latest_position s \<noteq> None \<or> \<not> allow_commit s \<and> \<not> allow_ckeckpoint s)"

definition healthy :: "sync \<Rightarrow> bool" where
  "healthy s = (client_inv (mc s) \<and> placed s \<and> has_delay (metric s) \<and> \<not> error_exit s)"

lemma push_ok:
  assumes "faithful K" "reliable K" "client_inv c"
  shows "\<exists>c'. push_begin K c = (Inr (), c') \<and> client_inv c'"
    "\<exists>c'. push_dml K q ps c = (Inr (), c') \<and> client_inv c'"
    "\<exists>c'. push_commit K c = (Inr (), c') \<and> client_inv c'"
    "\<exists>c'. push_nondml K db q c = (Inr (), c') \<and> client_inv c'"
  using push_begin_inv [OF assms] push_dml_inv [OF assms(2,3)] push_commit_inv [OF assms]
    push_nondml_inv [OF assms] by blast+

lemma merge_commit_ok:
  assumes "faithful K" "reliable K" "healthy s"
  shows "\<exists>s'. merge_commit K s = (Inr (), s') \<and> healthy s' \<and> latest_position s' = latest_position s"
proof (cases "allow_commit s")
  case True
  obtain c where "push_commit K (mc s) = (Inr (), c)" "client_inv c"
    using push_ok(3) assms by (auto simp: healthy_def)
  with True assms(3) show ?thesis
    by (auto simp: merge_commit_def bind_sx_def on_mc_def modify_sx_def healthy_def placed_def)
qed (use assms(3) in \<open>simp add: merge_commit_def\<close>)

lemma op_gtid_ok:
  assumes "faithful K" "reliable K" "healthy s" "py_int 10 (xid g) = Inr n"
  shows "\<exists>s'. op_gtid K f pos g s = (Inr (), s') \<and> healthy s' \<and> latest_position s' \<noteq> None"
proof (cases "merge_trx s \<and> s_last_committed s \<noteq> last_committed g")
  case True
  obtain s1 where "merge_commit K s = (Inr (), s1)" "healthy s1"
    using merge_commit_ok assms(1-3) by blast
  with True assms(4) show ?thesis
    by (auto simp: op_gtid_def bind_sx_def modify_sx_def healthy_def placed_def)
next
  case False
  with assms(3,4) show ?thesis
    by (auto simp: op_gtid_def bind_sx_def modify_sx_def healthy_def placed_def)
qed

lemma op_nondml_ok:
  assumes "faithful K" "reliable K" "healthy s"
  shows "\<exists>s'. op_nondml K n s = (Inr (), s') \<and> healthy s' \<and> latest_position s' = latest_position s"
proof -
  obtain s1 where s1: "merge_commit K s = (Inr (), s1)" "healthy s1" "latest_position s1 = latest_position s"
    using merge_commit_ok assms by blast
  then obtain c where "push_nondml K (nd_schema n) (nd_query n) (mc s1) = (Inr (), c)" "client_inv c"
    using push_ok(4) assms(1,2) unfolding healthy_def by blast
  with s1 show ?thesis
    by (auto simp: op_nondml_def try_sx_def bind_sx_def on_mc_def modify_sx_def healthy_def placed_def)
qed

lemma op_dml_ok:
  assumes "faithful K" "reliable K" "healthy s" "dmlOperation2Sql d = Inr x"
  shows "\<exists>s'. op_dml K d s = (Inr (), s') \<and> healthy s' \<and> latest_position s' = latest_position s"
proof -
  obtain c where "push_dml K (fst x) (snd x) (mc s) = (Inr (), c)" "client_inv c"
    using push_ok(2) assms(1-3) unfolding healthy_def by blast
  with assms(3,4) show ?thesis
    by (auto simp: op_dml_def try_sx_def bind_sx_def on_mc_def modify_sx_def healthy_def placed_def
        split: prod.splits)
qed

lemma op_heartbeat_ok:
  assumes "faithful K" "reliable K" "healthy s"
  shows "\<exists>s'. op_heartbeat K clock s = (Inr (), s') \<and> healthy s' \<and> latest_position s' = latest_position s"
  using assms merge_commit_ok
    [of K "s\<lparr>ticks := Suc (ticks s), operation_timestamp := clock (ticks s)\<rparr>"]
  by (auto simp: op_heartbeat_def bind_sx_def read_clock_def modify_sx_def healthy_def placed_def)

lemma op_commit_ok:
  assumes "faithful K" "reliable K" "healthy s" "latest_position s \<noteq> None"
  shows "\<exists>s'. op_commit K s = (Inr (), s') \<and> healthy s' \<and> latest_position s' = latest_position s"
proof -
  obtain c where "push_commit K (mc s) = (Inr (), c)" "client_inv c"
    using push_ok(3) assms by (auto simp: healthy_def)
  with assms(3,4) show ?thesis
    by (auto simp: op_commit_def bind_sx_def on_mc_def modify_sx_def healthy_def placed_def)
qed

lemma dispatch_ok:
  assumes "faithful K" "reliable K" "healthy s" "ok_op op"
    and "op = OperationCommit \<Longrightarrow> latest_position s \<noteq> None"
  shows "\<exists>s'. dispatch K clock y op s = (Inr (), s') \<and> healthy s'
    \<and> (latest_position s \<noteq> None \<or> (\<exists>g. op = OperationGtid g) \<longrightarrow> latest_position s' \<noteq> None)"
proof (cases op)
  case OperationBegin
  obtain c where "push_begin K (mc s) = (Inr (), c)" "client_inv c"
    using push_ok(1) assms(1-3) by (auto simp: healthy_def)
  with OperationBegin assms(3) show ?thesis by (auto simp: on_mc_def healthy_def placed_def)
next
  case (OperationGtid g)
  then show ?thesis using op_gtid_ok assms(1-4) by (fastforce simp: is_ok_iff)
next
  case (OperationDML d)
  then show ?thesis using op_dml_ok [OF assms(1-3)] assms(4) by (fastforce simp: is_ok_iff)
next
  case (OperationNonDML n)
  then show ?thesis using op_nondml_ok [OF assms(1-3)] by fastforce
next
  case OperationHeartbeat
  then show ?thesis using op_heartbeat_ok [OF assms(1-3)] by fastforce
next
  case OperationCommit
  then show ?thesis using op_commit_ok [OF assms(1-3)] assms(5) by fastforce
qed

lemma healthy_frame:
  "healthy s \<Longrightarrow> core s' = core s \<Longrightarrow> allow_ckeckpoint s' = allow_ckeckpoint s \<or> \<not> allow_ckeckpoint s' \<Longrightarrow>
   has_delay (metric s') \<Longrightarrow> healthy s'"
  by (auto simp: healthy_def placed_def core_def)

lemma periodic_ok:
  assumes "healthy s"
  shows "\<exists>s'. periodic clock s = (Inr (), s') \<and> healthy s' \<and> latest_position s' = latest_position s"
proof (cases "latest_position s")
  case None
  with assms show ?thesis
    by (auto simp: periodic_def bind_sx_def read_clock_def persist_metrics_def persist_def Let_def
        healthy_def placed_def has_delay_def)
next
  case (Some pos)
  with assms show ?thesis
    by (cases pos) (auto simp: periodic_def bind_sx_def read_clock_def persist_metrics_def persist_def Let_def
        checkpoint_def persist_checkpoint_position_def healthy_def placed_def has_delay_def)
qed

lemma after_operation_ok:
  assumes "healthy s"
  shows "\<exists>s'. after_operation clock y s = (Inr (), s') \<and> healthy s' \<and> latest_position s' = latest_position s"
proof -
  let ?s = "if y_operation y \<noteq> OperationHeartbeat then s\<lparr>operation_timestamp := of_int (y_timestamp y)\<rparr> else s"
  have h: "healthy ?s" "latest_position ?s = latest_position s"
    using assms by (auto simp: healthy_def placed_def)
  obtain m where m: "set_delay (py_trunc (clock (ticks ?s) - operation_timestamp ?s)) (metric ?s) = Inr m" "has_delay m"
    using set_delay_ok h(1) by (auto simp: healthy_def)
  let ?s1 = "?s\<lparr>ticks := ticks ?s + 1, metric := m\<rparr>"
  have d: "update_delay clock ?s = (Inr (), ?s1)"
    using m(1) by (simp add: update_delay_def bind_sx_def read_clock_def)
  have "healthy ?s1" using h(1) m(2) by (auto simp: healthy_def placed_def)
  then obtain s2 where "periodic clock ?s1 = (Inr (), s2)" "healthy s2" "latest_position s2 = latest_position s"
    using periodic_ok [of ?s1 clock] h(2) by auto
  with d show ?thesis
    by (auto simp: after_operation_def modify_sx_def bind_sx_def healthy_def placed_def)
qed

fun ordered :: "bool \<Rightarrow> operation list \<Rightarrow> bool" where
  "ordered pos [] = True"
| "ordered pos (op # ops) = ((op = OperationCommit \<longrightarrow> pos) \<and> ordered (pos \<or> (\<exists>g. op = OperationGtid g)) ops)"

lemma ordered_True [simp]: "ordered True ops"
  by (induction ops) auto

lemma ordered_take: "ordered pos ops \<Longrightarrow> ordered pos (take n ops)"
  by (induction pos ops arbitrary: n rule: ordered.induct) (auto simp: take_Cons split: nat.splits)

lemma ordered_stream: "ordered pos (stream_ops us)"
proof (induction us arbitrary: pos)
  case (Cons u us)
  then show ?case by (cases u) auto
qed simp

lemma iteration_ok:
  assumes "faithful K" "reliable K" "healthy s" "ok_op (y_operation y)"
    and "y_operation y = OperationCommit \<Longrightarrow> latest_position s \<noteq> None"
  shows "\<exists>s'. iteration K clock y s = (Inr (), s') \<and> healthy s'
    \<and> (latest_position s \<noteq> None \<or> (\<exists>g. y_operation y = OperationGtid g) \<longrightarrow> latest_position s' \<noteq> None)"
proof -
  obtain s1 where s1: "dispatch K clock y (y_operation y) s = (Inr (), s1)" "healthy s1"
      "latest_position s \<noteq> None \<or> (\<exists>g. y_operation y = OperationGtid g) \<longrightarrow> latest_position s1 \<noteq> None"
    using dispatch_ok [OF assms(1-4)] assms(5) by blast
  obtain s2 where "after_operation clock y s1 = (Inr (), s2)" "healthy s2" "latest_position s2 = latest_position s1"
    using after_operation_ok [OF s1(2)] by blast
  with s1 show ?thesis by (auto simp: iteration_def bind_sx_def)
qed

lemma run_loop_ok:
  assumes "faithful K" "reliable K" "healthy s" "\<forall>y \<in> set ys. ok_op (y_operation y)"
    and "ordered (latest_position s \<noteq> None) (map y_operation ys)"
  shows "\<exists>s'. run_loop K clock ys None s = (Inr (), s') \<and> healthy s'"
  using assms(3-5)
proof (induction ys arbitrary: s)
  case Nil
  then show ?case by simp
next
  case (Cons y ys)
  show ?case
  proof (cases "skipped s (y_operation y)")
    case True
    then have "\<nexists>g. y_operation y = OperationGtid g" by (auto simp: skipped_def)
    with Cons True show ?thesis by simp
  next
    case False
    have ok: "ok_op (y_operation y)" and pos: "y_operation y = OperationCommit \<Longrightarrow> latest_position s \<noteq> None"
      using Cons.prems(2,3) by simp_all
    obtain s1 where s1: "iteration K clock y s = (Inr (), s1)" "healthy s1"
        "latest_position s \<noteq> None \<or> (\<exists>g. y_operation y = OperationGtid g) \<longrightarrow> latest_position s1 \<noteq> None"
      using iteration_ok [OF assms(1,2) Cons.prems(1) ok pos] by blast
    have "ordered (latest_position s1 \<noteq> None) (map y_operation ys)"
      using Cons.prems(3) s1(3) by (cases "latest_position s1 = None") auto
    with Cons.IH [OF s1(2)] Cons.prems(2) obtain s' where "run_loop K clock ys None s1 = (Inr (), s')" "healthy s'"
      by auto
    moreover have "\<not> error_exit s1" using s1(2) by (simp add: healthy_def)
    ultimately show ?thesis using s1(1) False by simp
  qed
qed

section \<open>Durability and atomicity\<close>

lemma meaning_shift: "fold meaning cs (d0 @ d, u) = map_prod ((@) d0) id (fold meaning cs (d, u))"
proof (induction cs arbitrary: d u)
  case (Cons c cs)
  then show ?case by (cases c) (simp_all flip: append_assoc, simp_all)
qed simp

definition run_entry :: "clock \<Rightarrow> sync \<Rightarrow> sync" where
  "run_entry clock s = s\<lparr>ticks := ticks s + 1, ts_0 := clock (ticks s), operation_timestamp := 0,
     error_exit := False, last_operation := None\<rparr>"

lemma run_unfold:
  "run K clock ops s =
     bind_sx (run_loop K clock (fst ops) (snd ops)) (\<lambda>_.
     bind_sx (merge_commit K) (\<lambda>_.
     bind_sx (modify_sx persist_metrics) (\<lambda>_. \<lambda>s.
       if error_exit s then (Inl (SystemExit 1), s) else (Inr (), s)))) (run_entry clock s)"
  by (simp add: run_def read_clock_def modify_sx_def bind_sx_def run_entry_def)

text \<open>\<open>ready\<close>: a synchroniser as \<open>__init__\<close> leaves it, on a target without an open transaction.\<close>

definition ready :: "sync \<Rightarrow> bool" where
  "ready s = (client_inv (mc s) \<and> unsettled (mc s) = [] \<and> \<not> allow_commit s \<and> \<not> allow_ckeckpoint s
     \<and> has_delay (metric s))"

lemma ready_healthy: "ready s \<Longrightarrow> healthy (run_entry clock s)"
  by (simp add: ready_def healthy_def placed_def run_entry_def)

text \<open>The loop on the first \<open>n\<close> operations of a stream of units.\<close>

lemma run_loop_stream:
  assumes "faithful K" "reliable K" "ready s" "map y_operation ys = take n (stream_ops us)"
    and "\<forall>op \<in> set (stream_ops us). ok_op op"
  shows "\<exists>s' cs. run_loop K clock ys None (run_entry clock s) = (Inr (), s') \<and> healthy s'
    \<and> plan (exclude_tables s) (merge_trx s) (plan_of (run_entry clock s)) (take n (stream_ops us)) = (cs, plan_of s')
    \<and> (durable (mc s'), unsettled (mc s')) = map_prod ((@) (durable (mc s))) id (fold meaning cs ([], []))"
proof -
  let ?s = "run_entry clock s"
  have "\<forall>y \<in> set ys. ok_op (y_operation y)"
  proof
    fix y assume "y \<in> set ys"
    then have "y_operation y \<in> set (take n (stream_ops us))" unfolding assms(4) [symmetric] by simp
    then show "ok_op (y_operation y)" using assms(5) in_set_takeD by metis
  qed
  moreover have "ordered (latest_position ?s \<noteq> None) (map y_operation ys)"
    unfolding assms(4) by (intro ordered_take ordered_stream)
  ultimately obtain s' where l: "run_loop K clock ys None ?s = (Inr (), s')" "healthy s'"
    using run_loop_ok [OF assms(1,2) ready_healthy [OF assms(3)]] by blast
  have e: "\<not> error_exit ?s" "\<not> error_exit s'" using l(2) by (simp_all add: run_entry_def healthy_def)
  obtain cs where cs: "plan (exclude_tables ?s) (merge_trx ?s) (plan_of ?s) (map y_operation ys) = (cs, plan_of s')"
      "exec_all (run_cmd K) cs (mc ?s) = (Inr (), mc s')"
    using run_loop_plan [OF l(1) e] by blast
  have m: "mc ?s = mc s" "exclude_tables ?s = exclude_tables s" "merge_trx ?s = merge_trx s"
    by (simp_all add: run_entry_def)
  obtain c where c: "exec_all (run_cmd K) cs (mc s) = (Inr (), c)"
      "(durable c, unsettled c) = fold meaning cs (durable (mc s), unsettled (mc s))"
    using target.perform_all [of K "mc s" cs] assms(1-3) unfolding ready_def by blast
  have "c = mc s'" using c(1) cs(2) m(1) by simp
  with c(2) have "(durable (mc s'), unsettled (mc s')) = map_prod ((@) (durable (mc s))) id (fold meaning cs ([], []))"
    using meaning_shift [of cs "durable (mc s)" "[]" "[]"] assms(3) by (simp add: ready_def)
  with l cs(1) m assms(4) show ?thesis by auto
qed

lemma run_interrupted:
  assumes "faithful K" "reliable K" "ready s" "map y_operation ys = take n (stream_ops us)"
    and "\<forall>op \<in> set (stream_ops us). ok_op op"
  shows "\<exists>s' j. run K clock (ys, Some e) s = (Inl e, s') \<and> j \<le> length us
    \<and> durable (mc s') = durable (mc s) @ all_effects (exclude_tables s) (stream_ops (take j us))"
proof -
  obtain s' cs where l: "run_loop K clock ys None (run_entry clock s) = (Inr (), s')" "healthy s'"
      "plan (exclude_tables s) (merge_trx s) (plan_of (run_entry clock s)) (take n (stream_ops us)) = (cs, plan_of s')"
      "(durable (mc s'), unsettled (mc s')) = map_prod ((@) (durable (mc s))) id (fold meaning cs ([], []))"
    using run_loop_stream [OF assms] by blast
  obtain d u where du: "fold meaning cs ([], []) = (d, u)" by fastforce
  obtain j where "j \<le> length us" "d = all_effects (exclude_tables s) (stream_ops (take j us))"
    using plan_atomic [OF l(3) du] by blast
  moreover have "durable (mc s') = durable (mc s) @ d" using l(4) du by simp
  moreover have "run_loop K clock ys (Some e) (run_entry clock s) = (Inl e, s')"
    using run_loop_raise [OF l(1)] l(2) by (simp add: healthy_def)
  then have "run K clock (ys, Some e) s = (Inl e, s')" by (simp add: run_unfold bind_sx_def)
  ultimately show ?thesis by blast
qed

lemma run_to_the_end:
  assumes "faithful K" "reliable K" "ready s" "map y_operation ys = stream_ops us"
    and "\<forall>op \<in> set (stream_ops us). ok_op op"
  shows "\<exists>s'. run K clock (ys, None) s = (Inr (), s') \<and> unsettled (mc s') = []
    \<and> durable (mc s') = durable (mc s) @ effects (exclude_tables s) ys"
proof -
  let ?n = "length (stream_ops us)"
  obtain s1 cs where l: "run_loop K clock ys None (run_entry clock s) = (Inr (), s1)" "healthy s1"
      "plan (exclude_tables s) (merge_trx s) (plan_of (run_entry clock s)) (take ?n (stream_ops us)) = (cs, plan_of s1)"
      "(durable (mc s1), unsettled (mc s1)) = map_prod ((@) (durable (mc s))) id (fold meaning cs ([], []))"
    using run_loop_stream [OF assms(1-3) _ assms(5), of ys ?n clock] assms(4) by auto
  obtain d u where du: "fold meaning cs ([], []) = (d, u)" by fastforce
  have all: "d @ u = effects (exclude_tables s) ys"
    using plan_cuts [OF _ l(3) du] assms(4) by (simp add: effects_map)
  have allow: "u \<noteq> [] \<longrightarrow> allow_commit s1"
    using plan_stream_settled [of "exclude_tables s" "merge_trx s" _ us cs "plan_of s1" "[]" "[]" d u] l(3) du
    by (simp add: plan_of_def)
  have mu: "durable (mc s1) = durable (mc s) @ d" "unsettled (mc s1) = u" using l(4) du by simp_all
  obtain s2 where s2: "merge_commit K s1 = (Inr (), s2)" "healthy s2"
    using merge_commit_ok [OF assms(1,2) l(2)] by blast
  have "client_inv (mc s1)" using l(2) by (simp add: healthy_def)
  then have "unsettled (mc s2) = [] \<and> durable (mc s2) = durable (mc s) @ d @ u"
    using push_commit_inv [OF assms(1,2)] s2(1) mu allow
    by (cases "allow_commit s1")
      (fastforce simp: merge_commit_def modify_sx_def elim!: bind_sxE on_mcE)+
  moreover have "run K clock (ys, None) s = (Inr (), persist_metrics s2)"
    using l(1) s2 persist_metrics_core [of s2]
    by (simp add: run_unfold bind_sx_def modify_sx_def healthy_def core_def)
  moreover have "mc (persist_metrics s2) = mc s2" using persist_metrics_core [of s2] by (simp add: core_def)
  ultimately show ?thesis using all by simp
qed

definition demo_units :: "source_unit list" where
  "demo_units = [Transaction (demo_gtid ''1'' 0) [demo_row ''a''],
     Transaction (demo_gtid ''2'' 0) [demo_row ''b'', demo_row ''c'']]"

lemma demo_ready: "ready (demo_start m)" "\<forall>op \<in> set (stream_ops demo_units). ok_op op"
proof -
  show "ready (demo_start m)"
    by (simp add: ready_def demo_start_def sync_start_def client_inv_def db_of_def has_delay_init)
  have "list_all ok_op (stream_ops demo_units)" by code_simp
  then show "\<forall>op \<in> set (stream_ops demo_units). ok_op op" by (simp add: list_all_iff)
qed

lemma map_demo_yield: "map y_operation (map demo_yield ops) = ops"
  by (simp add: demo_yield_def comp_def)

text \<open>C7: a run that gets through the loop without a failure performs on the target exactly the commands
  that the plan lists for the operations: it refines the abstract specification, whatever the
  connector is.\<close>

theorem run_loop_refines_plan:
  assumes "run_loop K clock ys None s = (Inr (), s')" "\<not> error_exit s" "\<not> error_exit s'"
  shows "\<exists>cs p. plan (exclude_tables s) (merge_trx s) (plan_of s) (map y_operation ys) = (cs, p)
    \<and> exec_all (run_cmd K) cs (mc s) = (Inr (), mc s') \<and> plan_of s' = p"
  using assms by (rule run_loop_plan)

theorem run_loop_refines_plan_witness:
  "\<exists>s'. run_loop mysql_connector (\<lambda>_. 0) demo_ops None (demo_start True) = (Inr (), s')
    \<and> exec_all (run_cmd mysql_connector) [CBegin, CDml ''REPLACE INTO `d`.`t`(id) VALUES(%s)'' [PStr ''a'']]
        (mc (demo_start True)) = (Inr (), mc s')"
proof -
  obtain r s' where r: "run_loop mysql_connector (\<lambda>_. 0) demo_ops None (demo_start True) = (r, s')" by fastforce
  have "fst (run_loop mysql_connector (\<lambda>_. 0) demo_ops None (demo_start True)) = Inr ()"
    "\<not> error_exit (snd (run_loop mysql_connector (\<lambda>_. 0) demo_ops None (demo_start True)))"
    "\<not> error_exit (demo_start True)" by code_simp+
  then have ok: "r = Inr ()" "\<not> error_exit s'" "\<not> error_exit (demo_start True)" using r by simp_all
  have "fst (plan (exclude_tables (demo_start True)) (merge_trx (demo_start True)) (plan_of (demo_start True))
      (map y_operation demo_ops)) = [CBegin, CDml ''REPLACE INTO `d`.`t`(id) VALUES(%s)'' [PStr ''a'']]"
    by code_simp
  with run_loop_refines_plan [OF r [unfolded ok(1)] ok(3,2)] r ok(1) show ?thesis by fastforce
qed

text \<open>C3: wherever the stream is interrupted, even inside a transaction, what is durable on the target is the
  effect of a number of complete source transactions and DDL statements: no transaction is ever
  committed in part. The stream consists of transactions, DDL statements and heartbeats between them;
  the connector reports the transaction state and its calls succeed.\<close>

theorem interrupted_run_is_atomic:
  assumes "faithful K" "reliable K" "ready s" "map y_operation ys = take n (stream_ops us)"
    and "\<forall>op \<in> set (stream_ops us). ok_op op"
  shows "\<exists>s' j. run K clock (ys, Some e) s = (Inl e, s') \<and> j \<le> length us
    \<and> durable (mc s') = durable (mc s) @ all_effects (exclude_tables s) (stream_ops (take j us))"
  using assms by (rule run_interrupted)

theorem interrupted_run_is_atomic_witness:
  "\<exists>s' j. run mysql_connector (\<lambda>_. 0) (map demo_yield (take 7 (stream_ops demo_units)), Some DBError) (demo_start False)
      = (Inl DBError, s') \<and> j \<le> 2
    \<and> durable (mc s') = all_effects [] (stream_ops (take j demo_units))"
proof -
  have "durable (mc (demo_start False)) = []" "exclude_tables (demo_start False) = []" "length demo_units = 2"
    by (simp_all add: demo_start_def sync_start_def db_of_def demo_units_def)
  with interrupted_run_is_atomic [where n = 7 and clock = "\<lambda>_. 0" and e = DBError,
      OF mysql_connector_laws demo_ready(1) [of False] map_demo_yield demo_ready(2)]
  show ?thesis by simp
qed

text \<open>C4: when such a stream ends, \<open>run\<close> returns normally, with or without merged commits, and the
  statements of all operations are durable on the target; nothing is left in an open transaction.\<close>

theorem complete_run_is_durable:
  assumes "faithful K" "reliable K" "ready s" "map y_operation ys = stream_ops us"
    and "\<forall>op \<in> set (stream_ops us). ok_op op"
  shows "\<exists>s'. run K clock (ys, None) s = (Inr (), s') \<and> unsettled (mc s') = []
    \<and> durable (mc s') = durable (mc s) @ effects (exclude_tables s) ys"
  using assms by (rule run_to_the_end)

theorem complete_run_is_durable_witness:
  "\<exists>s'. run mysql_connector (\<lambda>_. 0) (map demo_yield (stream_ops demo_units), None) (demo_start True) = (Inr (), s')
    \<and> unsettled (mc s') = [] \<and> length (durable (mc s')) = 3"
proof -
  have d: "durable (mc (demo_start True)) = []" by (simp add: demo_start_def sync_start_def db_of_def)
  have "length (effects (exclude_tables (demo_start True)) (map demo_yield (stream_ops demo_units))) = 3" by code_simp
  with complete_run_is_durable [OF mysql_connector_laws demo_ready(1) map_demo_yield demo_ready(2), of "\<lambda>_. 0" True] d
  show ?thesis by fastforce
qed

section \<open>A failing statement\<close>

text \<open>\<open>refuses K q ps\<close>: the connector accepts every call except the execution of this one statement. \<open>accepting K\<close> is the
  same connector without the refusal; the two agree on everything but that statement.\<close>

definition refuses :: "connector \<Rightarrow> string \<Rightarrow> pyval list \<Rightarrow> bool" where
  "refuses K q ps = (\<forall>h c. call_ok K h c = (c \<noteq> Execute q ps))"

definition accepting :: "connector \<Rightarrow> connector" where
  "accepting K = K\<lparr>call_ok := (\<lambda>_ _. True)\<rparr>"

lemma accepting_laws: "reliable (accepting K)" "faithful K \<Longrightarrow> faithful (accepting K)"
  by (simp_all add: accepting_def reliable_def faithful_def)

lemma refuses_call: "refuses K q ps \<Longrightarrow> c \<noteq> Execute q ps \<Longrightarrow> do_call K c = do_call (accepting K) c"
  by (simp add: refuses_def accepting_def do_call_def fun_eq_iff)

lemma refuses_push:
  assumes "refuses K q ps"
  shows "push_begin K = push_begin (accepting K)" "push_commit K = push_commit (accepting K)"
    "push_nondml K db x = push_nondml (accepting K) db x"
    "(q', ps') \<noteq> (q, ps) \<Longrightarrow> push_dml K q' ps' = push_dml (accepting K) q' ps'"
proof -
  note c = refuses_call [OF assms]
  have i: "in_transaction K = in_transaction (accepting K)" by (simp add: accepting_def)
  show "push_begin K = push_begin (accepting K)" by (simp add: push_begin_def c i cong: if_cong)
  show p: "push_commit K = push_commit (accepting K)" by (simp add: push_commit_def c i cong: if_cong)
  show "push_nondml K db x = push_nondml (accepting K) db x"
    by (simp add: push_nondml_def with_ddl_cursor_def c p cong: option.case_cong if_cong)
  show "push_dml K q' ps' = push_dml (accepting K) q' ps'" if "(q', ps') \<noteq> (q, ps)"
    using that by (simp add: push_dml_def c)
qed

lemma refuses_dispatch:
  assumes "refuses K q ps" "\<forall>d. op = OperationDML d \<longrightarrow> dmlOperation2Sql d \<noteq> Inr (q, ps)"
  shows "dispatch K clock y op = dispatch (accepting K) clock y op"
proof -
  note p = refuses_push [OF assms(1)]
  have m: "merge_commit K = merge_commit (accepting K)" by (simp add: merge_commit_def p cong: if_cong)
  show ?thesis
  proof (cases op)
    case (OperationDML d)
    then show ?thesis
    proof (cases "dmlOperation2Sql d")
      case (Inr x)
      with OperationDML assms(2) have "push_dml K (fst x) (snd x) = push_dml (accepting K) (fst x) (snd x)"
        by (intro p(4)) auto
      with OperationDML Inr show ?thesis by (simp add: op_dml_def case_prod_beta)
    qed (simp add: op_dml_def)
  qed (simp_all add: op_nondml_def op_gtid_def op_commit_def op_heartbeat_def m p cong: if_cong)
qed

lemma refuses_run_loop:
  assumes "refuses K q ps" "SDml q ps \<notin> set (effects (exclude_tables s) ys)"
  shows "run_loop K clock ys fin s = run_loop (accepting K) clock ys fin s"
  using assms(2)
proof (induction ys arbitrary: s)
  case (Cons y ys)
  show ?case
  proof (cases "skipped s (y_operation y)")
    case False
    then have "\<forall>d. y_operation y = OperationDML d \<longrightarrow> dmlOperation2Sql d \<noteq> Inr (q, ps)"
      using Cons.prems by (auto simp: effect_def skipped_def)
    then have "iteration K clock y = iteration (accepting K) clock y"
      using refuses_dispatch [OF assms(1)] by (simp add: iteration_def)
    moreover have "run_loop K clock ys fin s1 = run_loop (accepting K) clock ys fin s1"
      if "iteration (accepting K) clock y s = (r, s1)" for r s1
      using Cons iteration_frame(1) [OF that] by simp
    ultimately show ?thesis using False by (cases "iteration (accepting K) clock y s") (auto split: sum.split)
  qed (use Cons in simp)
qed simp

lemma run_loop_exclude: "run_loop K clock ys fin s = (r, s') \<Longrightarrow> exclude_tables s' = exclude_tables s"
proof (induction ys arbitrary: s)
  case (Cons y ys)
  show ?case
  proof (cases "skipped s (y_operation y)")
    case False
    obtain r1 s1 where i: "iteration K clock y s = (r1, s1)" by fastforce
    with Cons False iteration_frame(1) [OF i] show ?thesis by (auto split: sum.splits if_splits)
  qed (use Cons in simp)
qed (auto split: option.splits)

lemma run_loop_append:
  "run_loop K clock xs None s = (Inr (), s1) \<Longrightarrow> \<not> error_exit s1 \<Longrightarrow>
   run_loop K clock (xs @ ys) fin s = run_loop K clock ys fin s1"
  by (induction xs arbitrary: s) (auto split: if_splits prod.splits sum.splits)

lemma plan_dmls:
  "plan ex m p (map OperationDML ds) = (cs, p') \<Longrightarrow> p_allow p' = p_allow p \<and> p_last p' = p_last p"
proof (induction ds arbitrary: p cs)
  case (Cons d ds)
  then show ?case by (fastforce simp: plan_step_def split: prod.splits if_splits sum.splits)
qed simp

lemma plan_append3:
  "plan ex m p xs = (cs1, p1) \<Longrightarrow> plan ex m p1 ys = (cs2, p2) \<Longrightarrow>
   plan ex m p (xs @ ys @ zs) = (case plan ex m p2 zs of (cs3, p3) \<Rightarrow> (cs1 @ cs2 @ cs3, p3))"
  by (simp add: plan_append split: prod.split)

text \<open>Inside a transaction that continues a merged group, the commit is already allowed.\<close>

lemma plan_group_allows:
  assumes "plan ex True p (stream_ops us @ unit_ops (Transaction g0 ds0) @ OperationGtid g # OperationBegin # map OperationDML ds) = (cs, p')"
    and "last_committed g = last_committed g0"
  shows "p_allow p'"
proof -
  obtain cs1 p1 where 1: "plan ex True p (stream_ops us @ [OperationGtid g0, OperationBegin]) = (cs1, p1)" by fastforce
  obtain cs2 p2 where 2: "plan ex True p1 (map OperationDML ds0) = (cs2, p2)" by fastforce
  have "p_last p1 = last_committed g0"
    using 1 by (auto simp: plan_append plan_step_def split: prod.splits if_splits)
  then have l: "p_last p2 = last_committed g" using plan_dmls [OF 2] assms(2) by simp
  have "plan ex True p (stream_ops us @ unit_ops (Transaction g0 ds0) @ OperationGtid g # OperationBegin # map OperationDML ds)
      = plan ex True p ((stream_ops us @ [OperationGtid g0, OperationBegin]) @ map OperationDML ds0
          @ [OperationCommit, OperationGtid g, OperationBegin] @ map OperationDML ds)" by simp
  also have "\<dots> = (case plan ex True p2 ([OperationCommit, OperationGtid g, OperationBegin] @ map OperationDML ds) of
      (cs3, p3) \<Rightarrow> (cs1 @ cs2 @ cs3, p3))" by (rule plan_append3 [OF 1 2])
  finally obtain cs3 where "plan ex True p2 ([OperationCommit, OperationGtid g, OperationBegin] @ map OperationDML ds) = (cs3, p')"
    using assms(1) by (auto split: prod.splits)
  then show ?thesis
    using l plan_dmls [of ex True _ ds] by (fastforce simp: plan_step_def split: prod.splits)
qed

lemma after_operation_returns:
  assumes "placed s" "has_delay (metric s)"
  shows "\<exists>s'. after_operation clock y s = (Inr (), s')"
proof -
  have p: "\<exists>s'. periodic clock x = (Inr (), s')" if "placed x" for x
    using that by (auto simp: periodic_def bind_sx_def read_clock_def persist_metrics_def persist_def Let_def
        checkpoint_def persist_checkpoint_position_def placed_def split: option.splits)
  let ?s = "if y_operation y \<noteq> OperationHeartbeat then s\<lparr>operation_timestamp := of_int (y_timestamp y)\<rparr> else s"
  obtain m where m: "set_delay (py_trunc (clock (ticks ?s) - operation_timestamp ?s)) (metric ?s) = Inr m"
    using set_delay_ok [of "metric s"] assms(2) by (cases "y_operation y = OperationHeartbeat") fastforce+
  have "update_delay clock ?s = (Inr (), ?s\<lparr>ticks := ticks ?s + 1, metric := m\<rparr>)"
    using m by (simp add: update_delay_def bind_sx_def read_clock_def)
  with p [of "?s\<lparr>ticks := ticks ?s + 1, metric := m\<rparr>"] assms(1) show ?thesis
    by (auto simp: after_operation_def modify_sx_def bind_sx_def placed_def)
qed

text \<open>The refused statement sets the flag, changes nothing on the target and ends the loop.\<close>

lemma iteration_refused:
  assumes "refuses K q ps" "healthy s" "y_operation y = OperationDML d" "dmlOperation2Sql d = Inr (q, ps)"
  shows "\<exists>s'. iteration K clock y s = (Inr (), s') \<and> error_exit s' \<and> client_inv (mc s') \<and> allow_commit s' = allow_commit s
    \<and> durable (mc s') = durable (mc s) \<and> unsettled (mc s') = unsettled (mc s)"
proof -
  let ?c = "(mc s)\<lparr>hist := hist (mc s) @ [(Execute q ps, False)]\<rparr>"
  let ?s = "s\<lparr>metric := increment (metric_value (dml_metric d)) (metric s), mc := ?c, error_exit := True\<rparr>"
  have "push_dml K q ps (mc s) = (Inl DBError, ?c)"
    using assms(1) by (simp add: push_dml_def do_call_def refuses_def bind_sx_def Let_def)
  then have d: "dispatch K clock y (y_operation y) s = (Inr (), ?s)"
    using assms(3,4) by (simp add: op_dml_def try_sx_def set_error_def modify_sx_def bind_sx_def lift_sx_def on_mc_def is_exception_def)
  have "placed ?s" "has_delay (metric ?s)"
    using assms(2) by (simp_all add: healthy_def placed_def)
  then obtain s' where a: "after_operation clock y ?s = (Inr (), s')" using after_operation_returns by blast
  have "client_inv ?c" "durable ?c = durable (mc s)" "unsettled ?c = unsettled (mc s)"
    using assms(2) by (simp_all add: healthy_def client_inv_def db_step_def)
  with d a after_operation_frame [OF a] show ?thesis by (simp add: iteration_def bind_sx_def)
qed

lemma run_after_refusal:
  assumes "faithful K" "refuses K q ps" "run_loop K clock ys fin (run_entry clock s) = (Inr (), s1)" "error_exit s1"
    and "allow_commit s1" "client_inv (mc s1)"
  shows "\<exists>s'. run K clock (ys, fin) s = (Inl (SystemExit 1), s') \<and> unsettled (mc s') = []
    \<and> durable (mc s') = durable (mc s1) @ unsettled (mc s1)"
proof -
  obtain c where c: "push_commit K (mc s1) = (Inr (), c)" "durable c = durable (mc s1) @ unsettled (mc s1)" "unsettled c = []"
    using push_commit_inv [OF accepting_laws(2) [OF assms(1)] accepting_laws(1) assms(6)] refuses_push(2) [OF assms(2)] by auto
  then have m: "merge_commit K s1 = (Inr (), s1\<lparr>mc := c, allow_commit := False,
      metric := increment (metric_value MERGE_TRX) (metric s1), allow_ckeckpoint := True\<rparr>)"
    using assms(5) by (simp add: merge_commit_def bind_sx_def on_mc_def modify_sx_def)
  with c assms(3,4) show ?thesis
    by (auto simp: run_unfold bind_sx_def modify_sx_def persist_metrics_def split: prod.split)
qed


definition failing_connector :: connector where
  "failing_connector = mysql_connector\<lparr>call_ok := (\<lambda>h c. c \<noteq> Execute ''REPLACE INTO `d`.`t`(id) VALUES(%s)'' [PStr ''c''])\<rparr>"


end
