(* ===== verification/Sync_State.thy ===== *)
theory Sync_State
  imports Sync_Plan
begin

text \<open>
  What \<open>MysqlSync.run\<close> records besides the statements: the latest Gtid of every server, the metrics
  and the checkpoint files.
\<close>

section \<open>Checkpoint files\<close>

abbreviation ckpt_file :: "sync \<Rightarrow> file_content option" where
  "ckpt_file s \<equiv> map_of (sfiles s) ''ckpt.gtidset.json''"

definition no_checkpoint :: "sync \<Rightarrow> bool" where
  "no_checkpoint s = (\<not> merge_trx s \<and> \<not> allow_commit s \<and> \<not> allow_ckeckpoint s)"

lemma merge_commit_idle: "no_checkpoint s \<Longrightarrow> merge_commit K s = (Inr (), s)"
  by (simp add: no_checkpoint_def merge_commit_def)

lemma dispatch_no_checkpoint:
  assumes "dispatch K clock y op s = (r, s')" "no_checkpoint s"
  shows "no_checkpoint s' \<and> sfiles s' = sfiles s"
proof (cases op)
  case (OperationNonDML n)
  with assms merge_commit_idle show ?thesis
    by (auto simp: op_nondml_def bind_sx_ok [where m = "merge_commit K"] set_error_def modify_sx_def
        no_checkpoint_def elim!: try_sxE bind_sxE on_mcE)
next
  case (OperationDML d)
  with assms show ?thesis
    by (auto simp: op_dml_def set_error_def modify_sx_def lift_sx_def
        no_checkpoint_def elim!: try_sxE bind_sxE on_mcE)
next
  case OperationHeartbeat
  with assms show ?thesis
    by (auto simp: op_heartbeat_def read_clock_def modify_sx_def merge_commit_def
        no_checkpoint_def elim!: bind_sxE split: if_splits)
next
  case OperationCommit
  with assms show ?thesis
    by (auto simp: op_commit_def modify_sx_def no_checkpoint_def elim!: bind_sxE on_mcE split: if_splits)
next
  case OperationBegin
  with assms show ?thesis by (auto simp: no_checkpoint_def elim!: on_mcE)
next
  case (OperationGtid g)
  with assms show ?thesis
    by (auto simp: op_gtid_def modify_sx_def lift_sx_def no_checkpoint_def elim!: bind_sxE split: if_splits)
qed

lemma after_no_checkpoint:
  assumes "after_operation clock y s = (r, s')" "no_checkpoint s"
  shows "no_checkpoint s' \<and> ckpt_file s' = ckpt_file s"
proof -
  have d: "no_checkpoint s2 \<and> sfiles s2 = sfiles s1" if "update_delay clock s1 = (r2, s2)" "no_checkpoint s1" for s1 s2 r2
    using that by (auto simp: update_delay_def read_clock_def no_checkpoint_def elim!: bind_sxE split: sum.splits)
  have p: "no_checkpoint s2 \<and> ckpt_file s2 = ckpt_file s1" if "periodic clock s1 = (r2, s2)" "no_checkpoint s1" for s1 s2 r2
    using that by (auto simp: periodic_def read_clock_def no_checkpoint_def persist_metrics_def persist_def Let_def
        elim!: bind_sxE split: if_splits)
  let ?s = "if y_operation y \<noteq> OperationHeartbeat then s\<lparr>operation_timestamp := of_int (y_timestamp y)\<rparr> else s"
  have "no_checkpoint ?s" "ckpt_file ?s = ckpt_file s" using assms(2) by (auto simp: no_checkpoint_def)
  moreover have "bind_sx (update_delay clock) (\<lambda>_. bind_sx (periodic clock) (\<lambda>_.
     modify_sx (\<lambda>s. s\<lparr>last_operation := Some (y_operation y)\<rparr>))) ?s = (r, s')"
    using assms(1) by (simp add: after_operation_def bind_sx_def modify_sx_def)
  ultimately show ?thesis
    using d p by (elim bind_sxE) (fastforce simp: modify_sx_def no_checkpoint_def)+
qed

lemma run_loop_no_checkpoint:
  "run_loop K clock ys fin s = (r, s') \<Longrightarrow> no_checkpoint s \<Longrightarrow> no_checkpoint s' \<and> ckpt_file s' = ckpt_file s"
proof (induction ys arbitrary: s)
  case Nil
  then show ?case by (auto split: option.splits)
next
  case (Cons y ys)
  show ?case
  proof (cases "skipped s (y_operation y)")
    case True
    with Cons show ?thesis by simp
  next
    case False
    obtain r1 s1 where i: "iteration K clock y s = (r1, s1)" by fastforce
    then have n: "no_checkpoint s1 \<and> ckpt_file s1 = ckpt_file s"
      using Cons.prems(2) dispatch_no_checkpoint after_no_checkpoint unfolding iteration_def
      by (elim bind_sxE) (fastforce+)
    with Cons False i show ?thesis by (auto split: sum.splits if_splits)
  qed
qed

lemma run_no_checkpoint:
  assumes "run K clock ops s = (r, s')" "no_checkpoint s"
  shows "ckpt_file s' = ckpt_file s"
proof -
  have e: "no_checkpoint (run_entry clock s)" "ckpt_file (run_entry clock s) = ckpt_file s"
    using assms(2) by (simp_all add: no_checkpoint_def run_entry_def)
  obtain r1 s1 where l: "run_loop K clock (fst ops) (snd ops) (run_entry clock s) = (r1, s1)" by fastforce
  note n = run_loop_no_checkpoint [OF l e(1)]
  have "ckpt_file (persist_metrics s1) = ckpt_file s1" by (simp add: persist_metrics_def persist_def)
  with assms(1) l n e(2) merge_commit_idle [of s1 K] show ?thesis
    by (auto simp: run_unfold modify_sx_def bind_sx_ok elim!: bind_sxE split: if_splits)
qed

section \<open>The latest Gtids\<close>

fun note_gtid :: "operation \<Rightarrow> (string, int) dict \<Rightarrow> (string, int) dict" where
  "note_gtid (OperationGtid g) d =
     (case py_int 10 (xid g) of Inr n \<Rightarrow> dict_set (server_uuid g) n d | Inl _ \<Rightarrow> d)"
| "note_gtid _ d = d"

lemma dispatch_gtids:
  assumes "dispatch K clock y op s = (Inr (), s')"
  shows "latest_gtidset s' = note_gtid op (latest_gtidset s)"
  using assms merge_commit_frame(5)
  by (cases op; fastforce simp: op_nondml_def op_dml_def op_commit_def op_gtid_def op_heartbeat_def
      modify_sx_def set_error_def lift_sx_def read_clock_def
      elim!: try_sxE bind_sxE on_mcE split: if_splits sum.splits)

lemma run_loop_gtids:
  "run_loop K clock ys fin s = (Inr (), s') \<Longrightarrow> \<not> error_exit s' \<Longrightarrow>
   latest_gtidset s' = fold note_gtid (map y_operation ys) (latest_gtidset s)"
proof (induction ys arbitrary: s)
  case Nil
  then show ?case by (auto split: option.splits)
next
  case (Cons y ys)
  show ?case
  proof (cases "skipped s (y_operation y)")
    case True
    then have "note_gtid (y_operation y) d = d" for d by (auto simp: skipped_def split: operation.splits)
    with Cons True show ?thesis by simp
  next
    case False
    obtain r1 s1 where i: "iteration K clock y s = (r1, s1)" by fastforce
    then have "r1 = Inr ()" "run_loop K clock ys fin s1 = (Inr (), s')"
      using Cons.prems False by (auto split: sum.splits if_splits)
    moreover from this i have "latest_gtidset s1 = note_gtid (y_operation y) (latest_gtidset s)"
      unfolding iteration_def by (auto simp: dispatch_gtids after_operation_frame(7) elim!: bind_sxE)
    ultimately show ?thesis using Cons by simp
  qed
qed

lemma run_gtids:
  assumes "run K clock ops s = (Inr (), s')"
  shows "latest_gtidset s' = fold note_gtid (map y_operation (fst ops)) (latest_gtidset s)"
proof -
  obtain r1 s1 where l: "run_loop K clock (fst ops) (snd ops) (run_entry clock s) = (r1, s1)" by fastforce
  obtain s2 where m: "r1 = Inr ()" "merge_commit K s1 = (Inr (), s2)" "\<not> error_exit s2" "s' = persist_metrics s2"
    using assms l persist_metrics_core
    by (auto simp: run_unfold modify_sx_def core_def elim!: bind_sxE split: if_splits)
  have "latest_gtidset s' = latest_gtidset s1"
    using m persist_metrics_core [of s2] merge_commit_frame(5) [OF m(2)] by (simp add: core_def)
  moreover have "\<not> error_exit s1" using m(3) merge_commit_frame(2) [OF m(2)] by simp
  ultimately show ?thesis using run_loop_gtids [of K clock "fst ops" "snd ops" _ s1] l m(1) by (simp add: run_entry_def)
qed

section \<open>Metrics\<close>

definition bumps :: "(string, string list) dict \<Rightarrow> operation \<Rightarrow> string list" where
  "bumps ex op =
     (case op of
        OperationNonDML n \<Rightarrow> [non_dml_value (oper_type n)]
      | OperationDML d \<Rightarrow> if excluded ex d then [] else [metric_value (dml_metric d)]
      | OperationCommit \<Rightarrow> [metric_value TRX]
      | _ \<Rightarrow> [])"

definition counter :: "string \<Rightarrow> bool" where
  "counter k = (k \<noteq> ''delay'' \<and> k \<noteq> ''merge_trx'')"

abbreviation tally :: "sync \<Rightarrow> string \<Rightarrow> int option" where
  "tally s k \<equiv> map_of (metrics (metric s)) k"

lemma tally_increment:
  "map_of (metrics m) k = Some n \<Longrightarrow> a \<noteq> ''delay'' \<Longrightarrow>
   map_of (metrics (increment a m)) k = Some (n + (if a = k then 1 else 0))"
  by (auto simp: increment_def split: option.splits)

lemma merge_commit_tally: "merge_commit K s = (r, s') \<Longrightarrow> counter k \<Longrightarrow> tally s k = Some n \<Longrightarrow> tally s' k = Some n"
  by (auto simp: merge_commit_def modify_sx_def tally_increment counter_def
      elim!: bind_sxE on_mcE split: if_splits)

lemma metric_key_not_delay [simp]:
  "non_dml_value t \<noteq> ''delay''" "metric_value (dml_metric d) \<noteq> ''delay''"
  by (cases t; simp) (cases d; simp)

lemma dispatch_tally:
  assumes "dispatch K clock y op s = (Inr (), s')" "\<not> error_exit s'" "\<not> skipped s op"
    and "counter k" "tally s k = Some n"
  shows "tally s' k = Some (n + int (count_list (bumps (exclude_tables s) op) k))"
proof (cases op)
  case (OperationNonDML q)
  then obtain s1 where m: "merge_commit K s = (Inr (), s1)" and
    t: "try_sx (bind_sx (on_mc (push_nondml K (nd_schema q) (nd_query q)))
            (\<lambda>_. modify_sx (\<lambda>s. s\<lparr>metric := increment (non_dml_value (oper_type q)) (metric s)\<rparr>)))
         set_error s1 = (Inr (), s')"
    using assms(1) by (auto simp: op_nondml_def elim!: bind_sxE)
  have "tally s1 k = Some n" using merge_commit_tally [OF m assms(4,5)] .
  with try_ok [OF t assms(2)] OperationNonDML show ?thesis
    by (auto simp: modify_sx_def bumps_def tally_increment elim!: bind_sxE on_mcE)
next
  case (OperationDML d)
  let ?s = "s\<lparr>metric := increment (metric_value (dml_metric d)) (metric s)\<rparr>"
  have "try_sx (bind_sx (lift_sx (dmlOperation2Sql d))
      (\<lambda>(sql_text, params). on_mc (push_dml K sql_text params))) set_error ?s = (Inr (), s')"
    using assms(1) OperationDML by (simp add: op_dml_def modify_sx_def bind_sx_def)
  from try_ok [OF this assms(2)] OperationDML assms(3,5) show ?thesis
    by (auto simp: lift_sx_def bumps_def skipped_def tally_increment elim!: bind_sxE on_mcE)
next
  case OperationHeartbeat
  with assms merge_commit_tally show ?thesis
    by (fastforce simp: op_heartbeat_def read_clock_def modify_sx_def bumps_def elim!: bind_sxE split: if_splits)
next
  case OperationCommit
  with assms show ?thesis
    by (auto simp: op_commit_def modify_sx_def bumps_def tally_increment elim!: bind_sxE on_mcE split: if_splits)
next
  case OperationBegin
  with assms show ?thesis by (auto simp: bumps_def elim!: on_mcE)
next
  case (OperationGtid g)
  with assms merge_commit_tally show ?thesis
    by (fastforce simp: op_gtid_def modify_sx_def lift_sx_def bumps_def elim!: bind_sxE split: if_splits)
qed

lemma after_operation_tally:
  assumes "after_operation clock y s = (r, s')" "counter k"
  shows "tally s' k = tally s k"
proof -
  have d: "tally s2 k = tally s1 k" if "update_delay clock s1 = (r2, s2)" for s1 s2 r2
    using that assms(2)
    by (auto simp: update_delay_def read_clock_def set_delay_def counter_def elim!: bind_sxE split: sum.splits)
  have p: "tally s2 k = tally s1 k" if "periodic clock s1 = (r2, s2)" for s1 s2 r2
    using that by (auto simp: periodic_def read_clock_def persist_metrics_def persist_def checkpoint_def Let_def
        elim!: bind_sxE split: if_splits sum.splits)
  show ?thesis
    using assms(1) unfolding after_operation_def
    by (auto simp: modify_sx_def d p elim!: bind_sxE split: if_splits)
qed

lemma run_loop_tally:
  "run_loop K clock ys fin s = (Inr (), s') \<Longrightarrow> \<not> error_exit s' \<Longrightarrow> counter k \<Longrightarrow> tally s k = Some n \<Longrightarrow>
   tally s' k = Some (n + int (count_list (concat (map (\<lambda>y. bumps (exclude_tables s) (y_operation y)) ys)) k))"
proof (induction ys arbitrary: s n)
  case Nil
  then show ?case by (auto split: option.splits)
next
  case (Cons y ys)
  show ?case
  proof (cases "skipped s (y_operation y)")
    case True
    then have "bumps (exclude_tables s) (y_operation y) = []"
      by (auto simp: skipped_def bumps_def split: operation.splits)
    with Cons True show ?thesis by simp
  next
    case False
    obtain r1 s1 where i: "iteration K clock y s = (r1, s1)" by fastforce
    then have r1: "r1 = Inr ()" "\<not> error_exit s1" "run_loop K clock ys fin s1 = (Inr (), s')"
      using Cons.prems False by (auto split: sum.splits if_splits)
    obtain s2 where s2: "dispatch K clock y (y_operation y) s = (Inr (), s2)"
        "after_operation clock y s2 = (Inr (), s1)"
      using i r1(1) by (auto simp: iteration_def elim!: bind_sxE)
    have "\<not> error_exit s2" using r1(2) after_operation_frame(6) [OF s2(2)] by simp
    from dispatch_tally [OF s2(1) this False Cons.prems(3,4)]
    have "tally s1 k = Some (n + int (count_list (bumps (exclude_tables s) (y_operation y)) k))"
      using after_operation_tally [OF s2(2) Cons.prems(3)] by simp
    with Cons.IH [OF r1(3) Cons.prems(2,3)] show ?thesis
      by (simp add: iteration_frame(1) [OF i] count_list_append)
  qed
qed

lemma run_tally:
  assumes "run K clock ops s = (Inr (), s')" "counter k" "tally s k = Some n"
  shows "tally s' k = Some (n + int (count_list (concat (map (\<lambda>y. bumps (exclude_tables s) (y_operation y)) (fst ops))) k))"
proof -
  obtain r1 s1 where l: "run_loop K clock (fst ops) (snd ops) (run_entry clock s) = (r1, s1)" by fastforce
  obtain s2 where m: "r1 = Inr ()" "merge_commit K s1 = (Inr (), s2)" "\<not> error_exit s2" "s' = persist_metrics s2"
    using assms l persist_metrics_core
    by (auto simp: run_unfold modify_sx_def core_def elim!: bind_sxE split: if_splits)
  have "\<not> error_exit s1" using m(3) merge_commit_frame(2) [OF m(2)] by simp
  from run_loop_tally [OF l [unfolded m(1)] this assms(2)] assms(3)
  have "tally s1 k = Some (n + int (count_list (concat (map (\<lambda>y. bumps (exclude_tables s) (y_operation y)) (fst ops))) k))"
    by (simp add: run_entry_def)
  with merge_commit_tally [OF m(2) assms(2)] m(4) show ?thesis by (simp add: persist_metrics_def persist_def)
qed

section \<open>Properties\<close>

text \<open>C21: without \<open>merge_trx\<close> no run ever writes a checkpoint, whatever the stream, the clock and the
  connector do.\<close>

theorem no_checkpoint_without_merge:
  assumes "run K clock ops s = (r, s')" "\<not> merge_trx s" "\<not> allow_commit s" "\<not> allow_ckeckpoint s"
  shows "map_of (sfiles s') ''ckpt.gtidset.json'' = map_of (sfiles s) ''ckpt.gtidset.json''"
  using run_no_checkpoint [OF assms(1)] assms(2-4) by (simp add: no_checkpoint_def)

theorem no_checkpoint_without_merge_witness:
  "map_of (sfiles (snd (run mysql_connector (\<lambda>n. 100 * of_nat n) (map demo_yield (stream_ops demo_units), None) (demo_start False))))
     ''ckpt.gtidset.json'' = None"
  using no_checkpoint_without_merge [OF prod.collapse [symmetric], of "demo_start False" mysql_connector
      "\<lambda>n. 100 * of_nat n" "(map demo_yield (stream_ops demo_units), None)"]
  by (simp add: demo_start_def sync_start_def)

text \<open>C20: after a normal run the recorded position of every server is the number of the last Gtid of that
  server in the stream, and a server without one keeps what was recorded before.\<close>

theorem latest_gtids_are_recorded:
  assumes "run K clock ops s = (Inr (), s')"
  shows "latest_gtidset s' = fold note_gtid (map y_operation (fst ops)) (latest_gtidset s)"
  using assms by (rule run_gtids)

theorem latest_gtids_are_recorded_witness:
  "latest_gtidset (snd (run mysql_connector (\<lambda>_. 0) (map demo_yield (stream_ops demo_units), None) (demo_start True)))
     = [(''u'', 2)]"
proof -
  have "fst (run mysql_connector (\<lambda>_. 0) (map demo_yield (stream_ops demo_units), None) (demo_start True)) = Inr ()"
    by code_simp
  then have "run mysql_connector (\<lambda>_. 0) (map demo_yield (stream_ops demo_units), None) (demo_start True)
      = (Inr (), snd (run mysql_connector (\<lambda>_. 0) (map demo_yield (stream_ops demo_units), None) (demo_start True)))"
    by (metis prod.collapse)
  from latest_gtids_are_recorded [OF this]
  have "latest_gtidset (snd (run mysql_connector (\<lambda>_. 0) (map demo_yield (stream_ops demo_units), None) (demo_start True)))
      = fold note_gtid (map y_operation (map demo_yield (stream_ops demo_units))) (latest_gtidset (demo_start True))"
    by simp
  also have "\<dots> = [(''u'', 2)]" by code_simp
  finally show ?thesis .
qed

text \<open>after a normal run every counter except the delay and the merged commits has grown by the number of
  operations of its kind that were not excluded.\<close>

theorem metrics_count_operations:
  assumes "run K clock ops s = (Inr (), s')" "counter k" "map_of (metrics (metric s)) k = Some n"
  shows "map_of (metrics (metric s')) k =
    Some (n + int (count_list (concat (map (\<lambda>y. bumps (exclude_tables s) (y_operation y)) (fst ops))) k))"
  using assms by (rule run_tally)

theorem metrics_count_operations_witness:
  "map_of (metrics (metric (snd (run mysql_connector (\<lambda>_. 0) (map demo_yield (stream_ops demo_units), None) (demo_start True)))))
     ''dml_insert'' = Some 3"
proof -
  let ?r = "run mysql_connector (\<lambda>_. 0) (map demo_yield (stream_ops demo_units), None) (demo_start True)"
  have "fst ?r = Inr ()" by code_simp
  then have r: "?r = (Inr (), snd ?r)" by (metis prod.collapse)
  have z: "map_of (metrics (metric (demo_start True))) ''dml_insert'' = Some 0" by code_simp
  have c: "count_list (concat (map (\<lambda>y. bumps (exclude_tables (demo_start True)) (y_operation y))
      (map demo_yield (stream_ops demo_units)))) ''dml_insert'' = 3" by code_simp
  have "counter ''dml_insert''" by (simp add: counter_def)
  from metrics_count_operations [OF r this z] show ?thesis unfolding fst_conv c by simp
qed

text \<open>C27: A checkpoint can run ahead of the target. Whenever, with merged commits, the Gtid of a transaction arrives that
  begins a new group while the group before waits for its commit, and the interval of the checkpoint has passed, the
  iteration commits the group before and writes a checkpoint that already names the new transaction, of which no
  statement has been executed: the history of statements is the one from before, and all of them belong to the
  transactions before.\<close>

theorem checkpoint_names_unapplied_transaction:
  assumes "faithful K" "reliable K" "healthy s" "merge_trx s" "allow_commit s"
    and "y_operation y = OperationGtid g" "last_committed g \<noteq> s_last_committed s" "py_int 10 (xid g) = Inr n"
    and "ts_0 s + ckpt_interval s \<le> clock (ticks s + 1)"
  shows "\<exists>s'. iteration K clock y s = (Inr (), s')
    \<and> map_of (sfiles s') ''ckpt.gtidset.json'' = Some (JsonDict (dict_set (server_uuid g) n (latest_gtidset s)))
    \<and> executed s' = executed s \<and> durable (mc s') = durable (mc s) @ unsettled (mc s) \<and> unsettled (mc s') = []"
proof -
  obtain c where c: "push_commit K (mc s) = (Inr (), c)" "durable c = durable (mc s) @ unsettled (mc s)" "unsettled c = []"
    using push_commit_inv [OF assms(1,2)] assms(3) unfolding healthy_def by blast
  define s1 where "s1 = s\<lparr>mc := c, allow_commit := False, metric := increment (metric_value MERGE_TRX) (metric s),
      allow_ckeckpoint := True, s_last_committed := last_committed g,
      latest_gtidset := dict_set (server_uuid g) n (latest_gtidset s), latest_position := Some (y_log_file y, y_log_pos y)\<rparr>"
  have d: "dispatch K clock y (y_operation y) s = (Inr (), s1)"
    using assms(4-8) c(1) by (simp add: op_gtid_def merge_commit_def bind_sx_def on_mc_def modify_sx_def lift_sx_def s1_def)
  have "has_delay (metric s1)" using assms(3) by (simp add: s1_def healthy_def)
  then obtain m where m: "set_delay (py_trunc (clock (ticks s) - of_int (y_timestamp y))) (metric s1) = Inr m"
    using set_delay_ok by blast
  have i: "\<exists>s'. iteration K clock y s = (Inr (), s') \<and> sfiles s' = dict_set ''ckpt.logposition.txt''
        (PlainText (y_log_file y @ '':'' @ str_int (y_log_pos y))) (persist_checkpoint_gitdset (latest_gtidset s1) (snd (persist m (sfiles s))))
      \<and> mc s' = c"
    using d m assms(6,9)
    by (simp add: iteration_def bind_sx_def after_operation_def modify_sx_def update_delay_def read_clock_def periodic_def
        persist_metrics_def checkpoint_def persist_checkpoint_position_def persist_def Let_def s1_def)
  moreover have "stmts (hist c) = stmts (hist (mc s))" using push_commit_stmts [OF c(1)] .
  ultimately show ?thesis using c(2,3) by (auto simp: persist_checkpoint_gitdset_def s1_def)
qed

text \<open>The state after the first transaction of the witnesses, reached by the loop itself.\<close>

definition demo_group :: sync where
  "demo_group = snd (run_loop mysql_connector (\<lambda>n. if n < 8 then 0 else 10)
     (map demo_yield (unit_ops (Transaction (demo_gtid ''1'' 0) [demo_row ''a'']))) None (demo_start True))"

definition gtid_waits :: "sync \<Rightarrow> bool" where
  "gtid_waits s = (dml_cnt (mc s) = int (length (unsettled (mc s)))
     \<and> tx_open (db_of (hist (mc s))) \<and> latest_position s = Some (''f'', 4) \<and> \<not> error_exit s
     \<and> map_of (metrics (metric s)) ''delay'' \<noteq> None
     \<and> merge_trx s \<and> allow_commit s \<and> last_committed (demo_gtid ''2'' 1) \<noteq> s_last_committed s
     \<and> py_int 10 (xid (demo_gtid ''2'' 1)) = Inr 2
     \<and> ts_0 s + ckpt_interval s \<le> (\<lambda>n. if n < 8 then 0 else 10) (ticks s + 1)
     \<and> dict_set (server_uuid (demo_gtid ''2'' 1)) 2 (latest_gtidset s) = [(''u'', 2)]
     \<and> executed s = [SDml ''REPLACE INTO `d`.`t`(id) VALUES(%s)'' [PStr ''a'']])"

theorem checkpoint_names_unapplied_transaction_witness:
  "\<exists>s'. iteration mysql_connector (\<lambda>n. if n < 8 then 0 else 10) (demo_yield (OperationGtid (demo_gtid ''2'' 1))) demo_group = (Inr (), s')
    \<and> map_of (sfiles s') ''ckpt.gtidset.json'' = Some (JsonDict [(''u'', 2)])
    \<and> executed s' = [SDml ''REPLACE INTO `d`.`t`(id) VALUES(%s)'' [PStr ''a'']]"
proof -
  have "gtid_waits demo_group" by code_simp
  then have f: "dml_cnt (mc demo_group) = int (length (unsettled (mc demo_group)))
      \<and> tx_open (db_of (hist (mc demo_group))) \<and> latest_position demo_group = Some (''f'', 4) \<and> \<not> error_exit demo_group
      \<and> map_of (metrics (metric demo_group)) ''delay'' \<noteq> None
      \<and> merge_trx demo_group \<and> allow_commit demo_group \<and> last_committed (demo_gtid ''2'' 1) \<noteq> s_last_committed demo_group
      \<and> py_int 10 (xid (demo_gtid ''2'' 1)) = Inr 2
      \<and> ts_0 demo_group + ckpt_interval demo_group \<le> (\<lambda>n. if n < 8 then 0 else 10) (ticks demo_group + 1)
      \<and> dict_set (server_uuid (demo_gtid ''2'' 1)) 2 (latest_gtidset demo_group) = [(''u'', 2)]
      \<and> executed demo_group = [SDml ''REPLACE INTO `d`.`t`(id) VALUES(%s)'' [PStr ''a'']]"
    by (simp add: gtid_waits_def)
  then have "healthy demo_group" by (simp add: healthy_def client_inv_def placed_def has_delay_def)
  moreover have "y_operation (demo_yield (OperationGtid (demo_gtid ''2'' 1))) = OperationGtid (demo_gtid ''2'' 1)"
    by (simp add: demo_yield_def)
  ultimately show ?thesis
    using f checkpoint_names_unapplied_transaction [OF mysql_connector_laws, of demo_group
        "demo_yield (OperationGtid (demo_gtid ''2'' 1))" "demo_gtid ''2'' 1" 2 "\<lambda>n. if n < 8 then 0 else 10"] by auto
qed

end
