(* ===== verification/Bytes_Util.thy ===== *)
theory Bytes_Util
  imports Py_Value
begin

text \<open>
  \<open>pymysqlreplication/util/bytes.py\<close>: integers, lengths, decimals and times from bytes, with the
  ranges that \<open>datetime\<close> and \<open>decimal\<close> check. A decimal value keeps the text from which
  \<open>decimal.Decimal\<close> is constructed.
\<close>

section \<open>Values of datetime and decimal\<close>

definition leap_year :: "int \<Rightarrow> bool" where
  "leap_year y = (y mod 4 = 0 \<and> (y mod 100 \<noteq> 0 \<or> y mod 400 = 0))"

definition days_in_month :: "int \<Rightarrow> int \<Rightarrow> int" where
  "days_in_month y m =
     (if m = 2 then (if leap_year y then 29 else 28) else if m \<in> {4, 6, 9, 11} then 30 else 31)"

definition date_ok :: "int \<Rightarrow> int \<Rightarrow> int \<Rightarrow> bool" where
  "date_ok y m d = (1 \<le> y \<and> y \<le> 9999 \<and> 1 \<le> m \<and> m \<le> 12 \<and> 1 \<le> d \<and> d \<le> days_in_month y m)"

definition time_ok :: "int \<Rightarrow> int \<Rightarrow> int \<Rightarrow> int \<Rightarrow> bool" where
  "time_ok h m s us = (0 \<le> h \<and> h < 24 \<and> 0 \<le> m \<and> m < 60 \<and> 0 \<le> s \<and> s < 60 \<and> 0 \<le> us \<and> us < 1000000)"

definition mk_date :: "int \<Rightarrow> int \<Rightarrow> int \<Rightarrow> pyval res" where
  "mk_date y m d = (if date_ok y m d then Inr (PDate y m d) else Inl ValueError)"

definition mk_time :: "int \<Rightarrow> int \<Rightarrow> int \<Rightarrow> int \<Rightarrow> pyval res" where
  "mk_time h m s us = (if time_ok h m s us then Inr (PTime h m s us) else Inl ValueError)"

definition mk_datetime :: "int \<Rightarrow> int \<Rightarrow> int \<Rightarrow> int \<Rightarrow> int \<Rightarrow> int \<Rightarrow> int \<Rightarrow> pyval res" where
  "mk_datetime y mo d h mi s us =
     (if date_ok y mo d \<and> time_ok h mi s us then Inr (PDatetime y mo d h mi s us) else Inl ValueError)"

definition decimal_text :: "string \<Rightarrow> bool" where
  "decimal_text s =
     (let t = (case s of CHR ''-'' # r \<Rightarrow> r | _ \<Rightarrow> s)
      in list_all (\<lambda>c. is_digit c \<or> c = CHR ''.'') t \<and> list_ex is_digit t \<and> length (filter (\<lambda>c. c = CHR ''.'') t) \<le> 1)"

definition mk_decimal :: "string \<Rightarrow> pyval res" where
  "mk_decimal s = (if decimal_text s then Inr (PDecimal s) else Inl (PyException ''InvalidOperation''))"

section \<open>Definitions\<close>

definition is_data_short :: "bytes \<Rightarrow> int \<Rightarrow> bool" where
  "is_data_short data expected = (int (length data) < expected)"

definition parse_int16 :: "bytes \<Rightarrow> int res" where "parse_int16 data = unpack_int 2 (take 2 data)"

definition parse_uint16 :: "bytes \<Rightarrow> int res" where "parse_uint16 data = unpack_uint 2 (take 2 data)"

definition parse_uint24 :: "bytes \<Rightarrow> int res" where
  "parse_uint24 data =
     bind_res (index_at data 0) (\<lambda>a. bind_res (index_at data 1) (\<lambda>b. bind_res (index_at data 2) (\<lambda>c.
       Inr (uint a + push_bit 8 (uint b) + push_bit 16 (uint c)))))"

definition parse_int32 :: "bytes \<Rightarrow> int res" where "parse_int32 data = unpack_int 4 (take 4 data)"

definition parse_uint32 :: "bytes \<Rightarrow> int res" where "parse_uint32 data = unpack_uint 4 (take 4 data)"

definition parse_int64 :: "bytes \<Rightarrow> int res" where "parse_int64 data = unpack_int 8 (take 8 data)"

definition parse_uint64 :: "bytes \<Rightarrow> int res" where "parse_uint64 data = unpack_uint 8 (take 8 data)"

definition parse_double :: "bytes \<Rightarrow> pyval res" where
  "parse_double data = (if length (take 8 data) = 8 then Inr (PFloat (take 8 data)) else Inl StructError)"

definition parse_string :: "int \<Rightarrow> int \<Rightarrow> bytes \<Rightarrow> bytes" where
  "parse_string n len data = slice_to len (slice_from n data)"

definition decode_count :: "bytes \<Rightarrow> bool \<Rightarrow> int res" where
  "decode_count data is_small = (if is_small then parse_uint16 data else parse_uint32 data)"

definition decode_uint :: "bytes \<Rightarrow> int res" where
  "decode_uint data = (if is_data_short data 2 then Inr 0 else parse_uint16 data)"

text \<open>The value (\<open>None\<close> for NULL), whether it is NULL, and the number of bytes.\<close>

definition length_encoded_int :: "bytes \<Rightarrow> (int option \<times> bool \<times> int) res" where
  "length_encoded_int data =
     (case data of
        [] \<Rightarrow> Inr (Some 0, True, 0)
      | c # r \<Rightarrow>
          if uint c = 251 then Inr (None, True, 1)
          else if uint c = 252 then bind_res (parse_uint16 r) (\<lambda>v. Inr (Some v, False, 3))
          else if uint c = 253 then bind_res (parse_uint24 r) (\<lambda>v. Inr (Some v, False, 4))
          else if uint c = 254 then bind_res (parse_uint64 r) (\<lambda>v. Inr (Some v, False, 9))
          else Inr (Some (uint c), False, 1))"

fun var_length_loop :: "nat \<Rightarrow> bytes \<Rightarrow> nat \<Rightarrow> int \<Rightarrow> int \<times> int" where
  "var_length_loop 0 data pos len = (0, 0)"
| "var_length_loop (Suc n) data pos len =
     (let v = uint (data ! pos);
          len' = or len (push_bit (7 * pos) (and v 127))
      in if and v 128 = 0
         then (if len' > 2 ^ 63 - 1 - 1 then (0, 0) else (len', int (pos + 1)))
         else var_length_loop n data (pos + 1) len')"

definition decode_variable_length :: "bytes \<Rightarrow> int \<times> int" where
  "decode_variable_length data = var_length_loop (min 5 (length data)) data 0 0"

definition compressed_bytes :: "nat list" where
  "compressed_bytes = [0, 1, 1, 2, 2, 3, 3, 4, 4, 4]"

definition mask_byte :: "int \<Rightarrow> byte \<Rightarrow> byte" where
  "mask_byte msk b = word_of_int (and (xor (uint b) msk) 255)"

definition decode_decimal_decompress_value :: "nat \<Rightarrow> bytes \<Rightarrow> int \<Rightarrow> (nat \<times> int) res" where
  "decode_decimal_decompress_value comp_indx data msk =
     (let n = compressed_bytes ! comp_indx
      in if n > 0
         then (if length data < n then Inl IndexError else Inr (n, be_val (map (mask_byte msk) (take n data))))
         else Inr (0, 0))"

fun nine_digit_groups :: "nat \<Rightarrow> bytes \<Rightarrow> int \<Rightarrow> (string \<times> bytes) res" where
  "nine_digit_groups 0 data msk = Inr ([], data)"
| "nine_digit_groups (Suc n) data msk =
     bind_res (unpack_int_be 4 (take 4 data)) (\<lambda>v.
     bind_res (nine_digit_groups n (drop 4 data) msk) (\<lambda>(r, rest).
     Inr (fmt_zero 9 (xor v msk) @ r, rest)))"

definition parse_decimal_from_bytes :: "bytes \<Rightarrow> int \<Rightarrow> int \<Rightarrow> pyval res" where
  "parse_decimal_from_bytes raw_decimal precision decimals =
     (let integral = precision - decimals;
          uncomp_integral = integral div 9; comp_integral = integral mod 9;
          uncomp_fractional = decimals div 9; comp_fractional = decimals mod 9
      in bind_res (index_at raw_decimal 0) (\<lambda>first.
         let sign = (if and (uint first) 128 = 0 then ''-'' else []);
             msk = (if sign = ''-'' then -1 else 0);
             raw = word_of_int (xor (uint first) 128) # drop 1 raw_decimal
         in bind_res (decode_decimal_decompress_value (nat comp_integral) raw msk) (\<lambda>(pointer, value).
            bind_res (nine_digit_groups (nat uncomp_integral) (drop pointer raw) msk) (\<lambda>(int_groups, rest).
            bind_res (nine_digit_groups (nat uncomp_fractional) rest msk) (\<lambda>(frac_groups, rest2).
            bind_res (decode_decimal_decompress_value (nat comp_fractional) rest2 msk) (\<lambda>(n, value2).
            mk_decimal (sign @ str_int value @ int_groups @ ''.'' @ frac_groups
              @ (if n > 0 then fmt_zero (nat comp_fractional) value2 else []))))))))"

definition decode_decimal :: "bytes \<Rightarrow> pyval res" where
  "decode_decimal data =
     bind_res (index_at data 0) (\<lambda>p. bind_res (index_at data 1) (\<lambda>d.
       parse_decimal_from_bytes (drop 2 data) (uint p) (uint d)))"

definition decode_time :: "bytes \<Rightarrow> pyval res" where
  "decode_time data =
     bind_res (parse_int64 data) (\<lambda>v0.
       if v0 = 0 then mk_time 0 0 0 0
       else let v = \<bar>v0\<bar>; int_part = drop_bit 24 v;
                hour = drop_bit 12 int_part mod 2 ^ 10;
                minute = drop_bit 6 int_part mod 2 ^ 6;
                sec = int_part mod 2 ^ 6;
                frac = v mod 2 ^ 24
            in mk_time hour minute sec frac)"

definition decode_datetime :: "bytes \<Rightarrow> pyval res" where
  "decode_datetime data =
     bind_res (parse_int64 data) (\<lambda>v0.
       if v0 = 0 then Inr (PStr ''0000-00-00 00:00:00'')
       else let v = \<bar>v0\<bar>; int_part = drop_bit 24 v;
                ymd = drop_bit 17 int_part; ym = drop_bit 5 ymd; hms = int_part mod 2 ^ 17;
                year = ym div 13; month = ym mod 13; day = ymd mod 2 ^ 5;
                hour = drop_bit 12 hms; minute = drop_bit 6 hms mod 2 ^ 6; second = hms mod 2 ^ 6;
                frac = v mod 2 ^ 24
            in mk_datetime year month day hour minute second frac)"

section \<open>Lemmas\<close>

text \<open>The inverse of \<open>length_encoded_int\<close>, as MySQL writes lengths.\<close>

definition put_length :: "int \<Rightarrow> bytes" where
  "put_length n =
     (if n < 251 then le_bytes 1 n
      else if n < 2 ^ 16 then 252 # le_bytes 2 n
      else if n < 2 ^ 24 then 253 # le_bytes 3 n
      else 254 # le_bytes 8 n)"

lemma parse_uint24_le:
  assumes "0 \<le> v" "v < 256 ^ 3"
  shows "parse_uint24 (le_bytes 3 v @ z) = Inr v"
proof -
  have "le_val (le_bytes 3 v) = v" using assms by (rule le_val_le_bytes)
  then show ?thesis
    by (simp add: parse_uint24_def index_at_def numeral_3_eq_3 push_bit_eq_mult algebra_simps del: le_val.simps)
      (simp add: algebra_simps)
qed

lemma parse_uint_le:
  assumes "0 \<le> v"
  shows "v < 256 ^ 2 \<Longrightarrow> parse_uint16 (le_bytes 2 v @ z) = Inr v"
    "v < 256 ^ 4 \<Longrightarrow> parse_uint32 (le_bytes 4 v @ z) = Inr v"
    "v < 256 ^ 8 \<Longrightarrow> parse_uint64 (le_bytes 8 v @ z) = Inr v"
  using assms by (simp_all add: parse_uint16_def parse_uint32_def parse_uint64_def unpack_uint_le_bytes)

lemma length_encoded_put:
  assumes "0 \<le> n" "n < 2 ^ 64"
  shows "length_encoded_int (put_length n @ z) = Inr (Some n, False, int (length (put_length n)))"
proof -
  consider "n < 251" | "251 \<le> n" "n < 2 ^ 16" | "2 ^ 16 \<le> n" "n < 2 ^ 24" | "2 ^ 24 \<le> n" by linarith
  then show ?thesis
  proof cases
    case 1
    then have "uint (word_of_int (n mod 256) :: byte) = n" using assms by (simp add: uint_word_of_int)
    with 1 show ?thesis by (simp add: length_encoded_int_def put_length_def)
  next
    case 2
    then show ?thesis
      using assms parse_uint_le(1) [of n z] by (simp add: length_encoded_int_def put_length_def)
  next
    case 3
    then show ?thesis
      using assms parse_uint24_le [of n z] by (simp add: length_encoded_int_def put_length_def)
  next
    case 4
    then show ?thesis
      using assms parse_uint_le(3) [of n z] by (simp add: length_encoded_int_def put_length_def)
  qed
qed

end
