(* ===== verification/Json_Binary.thy ===== *)
theory Json_Binary
  imports Bytes_Util Constants
begin

text \<open>
  \<open>pymysqlreplication/json_binary.py\<close>: the binary JSON of MySQL. \<open>parse_json\<close> recurses on offsets that
  the document itself gives, so it need not get smaller; the first argument is the number of nested
  calls for which the Python stack has room, and \<open>RecursionError\<close> is raised beyond it. Strings and
  object keys are bytes, as in the code.

  The specification is an encoder for documents of small arrays over literals, integers, doubles and
  strings; parsing reads back what it writes.
\<close>

section \<open>Definitions\<close>

definition JSONB_TYPE_SMALL_OBJECT :: int where [simp]: "JSONB_TYPE_SMALL_OBJECT = 0"
definition JSONB_TYPE_LARGE_OBJECT :: int where [simp]: "JSONB_TYPE_LARGE_OBJECT = 1"
definition JSONB_TYPE_SMALL_ARRAY :: int where [simp]: "JSONB_TYPE_SMALL_ARRAY = 2"
definition JSONB_TYPE_LARGE_ARRAY :: int where [simp]: "JSONB_TYPE_LARGE_ARRAY = 3"
definition JSONB_TYPE_LITERAL :: int where [simp]: "JSONB_TYPE_LITERAL = 4"
definition JSONB_TYPE_INT16 :: int where [simp]: "JSONB_TYPE_INT16 = 5"
definition JSONB_TYPE_UINT16 :: int where [simp]: "JSONB_TYPE_UINT16 = 6"
definition JSONB_TYPE_INT32 :: int where [simp]: "JSONB_TYPE_INT32 = 7"
definition JSONB_TYPE_UINT32 :: int where [simp]: "JSONB_TYPE_UINT32 = 8"
definition JSONB_TYPE_INT64 :: int where [simp]: "JSONB_TYPE_INT64 = 9"
definition JSONB_TYPE_UINT64 :: int where [simp]: "JSONB_TYPE_UINT64 = 10"
definition JSONB_TYPE_DOUBLE :: int where [simp]: "JSONB_TYPE_DOUBLE = 11"
definition JSONB_TYPE_STRING :: int where [simp]: "JSONB_TYPE_STRING = 12"
definition JSONB_TYPE_OPAQUE :: int where [simp]: "JSONB_TYPE_OPAQUE = 15"

definition JSONB_LITERAL_NULL :: int where [simp]: "JSONB_LITERAL_NULL = 0"
definition JSONB_LITERAL_TRUE :: int where [simp]: "JSONB_LITERAL_TRUE = 1"
definition JSONB_LITERAL_FALSE :: int where [simp]: "JSONB_LITERAL_FALSE = 2"

definition JSONB_SMALL_OFFSET_SIZE :: nat where [simp]: "JSONB_SMALL_OFFSET_SIZE = 2"
definition JSONB_LARGE_OFFSET_SIZE :: nat where [simp]: "JSONB_LARGE_OFFSET_SIZE = 4"
definition JSONB_KEY_ENTRY_SIZE_SMALL :: nat where [simp]: "JSONB_KEY_ENTRY_SIZE_SMALL = 2 + JSONB_SMALL_OFFSET_SIZE"
definition JSONB_KEY_ENTRY_SIZE_LARGE :: nat where [simp]: "JSONB_KEY_ENTRY_SIZE_LARGE = 2 + JSONB_LARGE_OFFSET_SIZE"
definition JSONB_VALUE_ENTRY_SIZE_SMALL :: nat where [simp]: "JSONB_VALUE_ENTRY_SIZE_SMALL = 1 + JSONB_SMALL_OFFSET_SIZE"
definition JSONB_VALUE_ENTRY_SIZE_LARGE :: nat where [simp]: "JSONB_VALUE_ENTRY_SIZE_LARGE = 1 + JSONB_LARGE_OFFSET_SIZE"

definition is_json_inline_value :: "int \<Rightarrow> bool \<Rightarrow> bool" where
  "is_json_inline_value t is_small =
     (if t \<in> {JSONB_TYPE_UINT16, JSONB_TYPE_INT16, JSONB_TYPE_LITERAL} then True
      else if t \<in> {JSONB_TYPE_INT32, JSONB_TYPE_UINT32} then \<not> is_small
      else False)"

definition parse_literal :: "bytes \<Rightarrow> pyval res" where
  "parse_literal data =
     bind_res (index_at data 0) (\<lambda>b.
       if uint b = JSONB_LITERAL_NULL then Inr PNone
       else if uint b = JSONB_LITERAL_TRUE then Inr (PBool True)
       else if uint b = JSONB_LITERAL_FALSE then Inr (PBool False)
       else Inl ValueError)"

definition parse_opaque :: "bytes \<Rightarrow> pyval res" where
  "parse_opaque data0 =
     (case data0 of
        [] \<Rightarrow> Inr PNone
      | type_ # data \<Rightarrow>
          let (len, n) = decode_variable_length data;
              payload = take (nat len) (drop (nat n) data);
              t = uint type_
          in if t \<in> {FT_NEWDECIMAL, FT_DECIMAL} then decode_decimal payload
             else if t \<in> {FT_TIME, FT_TIME2} then decode_time payload
             else if t \<in> {FT_DATE, FT_DATETIME, FT_DATETIME2} then decode_datetime payload
             else bind_res (decode_utf8_ignore payload) (\<lambda>s. Inr (PStr s)))"

text \<open>The entry of the \<open>i\<close>-th value: inline, or an offset; \<open>Inr None\<close> is the early return of the
  code when an offset lies outside the document.\<close>

definition json_value :: "(int \<Rightarrow> bytes \<Rightarrow> pyval res) \<Rightarrow> bytes \<Rightarrow> bool \<Rightarrow> nat \<Rightarrow> nat \<Rightarrow> pyval option res" where
  "json_value rec bytes is_small value_entry_size entry_offset =
     bind_res (index_at bytes entry_offset) (\<lambda>b.
       let json_type = uint b
       in if is_json_inline_value json_type is_small
          then bind_res (rec json_type (take (value_entry_size - 1) (drop (entry_offset + 1) bytes))) (\<lambda>v. Inr (Some v))
          else bind_res (decode_count (drop (entry_offset + 1) bytes) is_small) (\<lambda>value_offset.
            if is_data_short bytes value_offset then Inr None
            else bind_res (rec json_type (drop (nat value_offset) bytes)) (\<lambda>v. Inr (Some v))))"

fun json_values :: "(int \<Rightarrow> bytes \<Rightarrow> pyval res) \<Rightarrow> bytes \<Rightarrow> bool \<Rightarrow> nat \<Rightarrow> nat list \<Rightarrow> pyval list option res" where
  "json_values rec bytes is_small value_entry_size [] = Inr (Some [])"
| "json_values rec bytes is_small value_entry_size (entry_offset # es) =
     bind_res (json_value rec bytes is_small value_entry_size entry_offset) (\<lambda>v.
       case v of
         None \<Rightarrow> Inr None
       | Some x \<Rightarrow> bind_res (json_values rec bytes is_small value_entry_size es)
           (\<lambda>r. Inr (map_option ((#) x) r)))"

definition json_key :: "bytes \<Rightarrow> bool \<Rightarrow> nat \<Rightarrow> nat \<Rightarrow> pyval res" where
  "json_key bytes is_small offset_size entry_offset =
     bind_res (decode_count (drop entry_offset bytes) is_small) (\<lambda>key_offset.
     bind_res (decode_uint (drop (entry_offset + offset_size) bytes)) (\<lambda>key_length.
       Inr (PBytes (take (nat key_length) (drop (nat key_offset) bytes)))))"

definition parse_json_object_or_array ::
    "(int \<Rightarrow> bytes \<Rightarrow> pyval res) \<Rightarrow> bytes \<Rightarrow> bool \<Rightarrow> bool \<Rightarrow> pyval res" where
  "parse_json_object_or_array rec bytes is_small is_object =
     (let offset_size = (if is_small then JSONB_SMALL_OFFSET_SIZE else JSONB_LARGE_OFFSET_SIZE)
      in bind_res (decode_count bytes is_small) (\<lambda>count.
         bind_res (decode_count (drop offset_size bytes) is_small) (\<lambda>sz.
         let key_entry_size = (if is_small then JSONB_KEY_ENTRY_SIZE_SMALL else JSONB_KEY_ENTRY_SIZE_LARGE);
             value_entry_size = (if is_small then JSONB_VALUE_ENTRY_SIZE_SMALL else JSONB_VALUE_ENTRY_SIZE_LARGE);
             n = nat count;
             header_size = 2 * offset_size + n * value_entry_size + (if is_object then n * key_entry_size else 0);
             first_value = 2 * offset_size + (if is_object then key_entry_size * n else 0)
         in if is_data_short bytes sz then Inl ValueError
            else if int header_size > sz then Inl ValueError
            else
              bind_res (if is_object
                        then map_res (\<lambda>i. json_key bytes is_small offset_size (2 * offset_size + key_entry_size * i)) [0..<n]
                        else Inr []) (\<lambda>keys.
              bind_res (json_values rec bytes is_small value_entry_size
                          (map (\<lambda>i. first_value + value_entry_size * i) [0..<n])) (\<lambda>values.
              case values of
                None \<Rightarrow> Inr PNone
              | Some vs \<Rightarrow>
                  if \<not> is_object then Inr (PList vs)
                  else Inr (PDict (fold (\<lambda>(k, v) out. dict_set k v out) (zip keys vs) [])))))))"

fun parse_json :: "nat \<Rightarrow> int \<Rightarrow> bytes \<Rightarrow> pyval res" where
  "parse_json 0 t data = Inl RecursionError"
| "parse_json (Suc room) t data =
     (if t = JSONB_TYPE_SMALL_OBJECT then parse_json_object_or_array (parse_json room) data True True
      else if t = JSONB_TYPE_LARGE_OBJECT then parse_json_object_or_array (parse_json room) data False True
      else if t = JSONB_TYPE_SMALL_ARRAY then parse_json_object_or_array (parse_json room) data True False
      else if t = JSONB_TYPE_LARGE_ARRAY then parse_json_object_or_array (parse_json room) data False False
      else if t = JSONB_TYPE_LITERAL then parse_literal data
      else if t = JSONB_TYPE_INT16 then bind_res (parse_int16 data) (\<lambda>v. Inr (PInt v))
      else if t = JSONB_TYPE_UINT16 then bind_res (parse_uint16 data) (\<lambda>v. Inr (PInt v))
      else if t = JSONB_TYPE_INT32 then bind_res (parse_int32 data) (\<lambda>v. Inr (PInt v))
      else if t = JSONB_TYPE_UINT32 then bind_res (parse_uint32 data) (\<lambda>v. Inr (PInt v))
      else if t = JSONB_TYPE_INT64 then bind_res (parse_int64 data) (\<lambda>v. Inr (PInt v))
      else if t = JSONB_TYPE_UINT64 then bind_res (parse_uint64 data) (\<lambda>v. Inr (PInt v))
      else if t = JSONB_TYPE_DOUBLE then parse_double data
      else if t = JSONB_TYPE_STRING then
        (let (len, n) = decode_variable_length data in Inr (PBytes (parse_string n len data)))
      else if t = JSONB_TYPE_OPAQUE then parse_opaque data
      else Inl ValueError)"

datatype json_diff_operation = JsonReplace | JsonInsert | JsonRemove

definition json_diff_by_index :: "int \<Rightarrow> json_diff_operation res" where
  "json_diff_by_index i =
     (if i = 0 then Inr JsonReplace else if i = 1 then Inr JsonInsert else if i = 2 then Inr JsonRemove
      else Inl ValueError)"

record json_diff =
  jd_op :: json_diff_operation
  jd_path :: bytes
  jd_value :: pyval

section \<open>Documents and their encoding\<close>

datatype jdoc =
    JNull
  | JBool bool
  | JInt16 int
  | JInt64 int
  | JDouble bytes
  | JString bytes
  | JArray "jdoc list"

fun jtype :: "jdoc \<Rightarrow> int" where
  "jtype JNull = 4" | "jtype (JBool b) = 4" | "jtype (JInt16 i) = 5" | "jtype (JInt64 i) = 9"
| "jtype (JDouble b) = 11" | "jtype (JString b) = 12" | "jtype (JArray ds) = 2"

fun jinline :: "jdoc \<Rightarrow> bytes option" where
  "jinline JNull = Some [0, 0]"
| "jinline (JBool b) = Some [if b then 1 else 2, 0]"
| "jinline (JInt16 i) = Some (le_bytes 2 (i mod 2 ^ 16))"
| "jinline _ = None"

text \<open>The value entries (type and offset or inline value) and the payloads behind them; \<open>off\<close> is the
  offset of the next payload.\<close>

fun jentries :: "(jdoc \<times> bytes) list \<Rightarrow> nat \<Rightarrow> bytes" where
  "jentries [] off = []"
| "jentries ((d, p) # ds) off =
     (case jinline d of
        Some b \<Rightarrow> word_of_int (jtype d) # b @ jentries ds off
      | None \<Rightarrow> word_of_int (jtype d) # le_bytes 2 (int off) @ jentries ds (off + length p))"

fun jpayload :: "(jdoc \<times> bytes) list \<Rightarrow> bytes" where
  "jpayload [] = []"
| "jpayload ((d, p) # ds) = (case jinline d of Some _ \<Rightarrow> [] | None \<Rightarrow> p) @ jpayload ds"

definition jarray :: "(jdoc \<times> bytes) list \<Rightarrow> bytes" where
  "jarray ds =
     (let header = 4 + 3 * length ds
      in le_bytes 2 (int (length ds)) @ le_bytes 2 (int (header + length (jpayload ds)))
         @ jentries ds header @ jpayload ds)"

fun jbytes :: "jdoc \<Rightarrow> bytes" where
  "jbytes JNull = [0]"
| "jbytes (JBool b) = [if b then 1 else 2]"
| "jbytes (JInt16 i) = le_bytes 2 (i mod 2 ^ 16)"
| "jbytes (JInt64 i) = le_bytes 8 (i mod 2 ^ 64)"
| "jbytes (JDouble b) = b"
| "jbytes (JString b) = word_of_int (int (length b)) # b"
| "jbytes (JArray ds) = jarray (map (\<lambda>d. (d, jbytes d)) ds)"

fun jpy :: "jdoc \<Rightarrow> pyval" where
  "jpy JNull = PNone" | "jpy (JBool b) = PBool b" | "jpy (JInt16 i) = PInt i" | "jpy (JInt64 i) = PInt i"
| "jpy (JDouble b) = PFloat b" | "jpy (JString b) = PBytes b" | "jpy (JArray ds) = PList (map jpy ds)"

fun jdepth :: "jdoc \<Rightarrow> nat" where
  "jdepth (JArray ds) = Suc (foldr max (map jdepth ds) 0)"
| "jdepth _ = 0"

fun jok :: "jdoc \<Rightarrow> bool" where
  "jok (JInt16 i) = (- (2 ^ 15) \<le> i \<and> i < 2 ^ 15)"
| "jok (JInt64 i) = (- (2 ^ 63) \<le> i \<and> i < 2 ^ 63)"
| "jok (JDouble b) = (length b = 8)"
| "jok (JString b) = (length b < 128)"
| "jok (JArray ds) = (list_all jok ds \<and> length (jbytes (JArray ds)) < 2 ^ 16)"
| "jok _ = True"

section \<open>Parsing reads the encoding back\<close>

lemma signed_val_mod:
  assumes "- (256 ^ n) \<le> 2 * i" "2 * i < 256 ^ n"
  shows "signed_val n (i mod 256 ^ n) = i"
proof (cases "0 \<le> i")
  case True
  then show ?thesis using assms by (simp add: signed_val_def mod_pos_pos_trivial)
next
  case False
  then have "i mod 256 ^ n = i + 256 ^ n"
    using assms by (intro int_mod_pos_eq [where q = "-1"]) auto
  then show ?thesis using False assms by (simp add: signed_val_def)
qed

lemma unpack_int_le_bytes:
  assumes "- (256 ^ n) \<le> 2 * i" "2 * i < 256 ^ n"
  shows "unpack_int n (le_bytes n (i mod 256 ^ n)) = Inr i"
  using assms by (simp add: unpack_int_def le_val_le_bytes signed_val_mod)

lemma length_jinline: "jinline d = Some b \<Longrightarrow> length b = 2"
  by (cases d) auto

lemma length_jentries: "length (jentries ds off) = 3 * length ds"
  by (induction ds off rule: jentries.induct) (auto dest: length_jinline split: option.splits)

lemma inline_type: "jinline d = Some b \<Longrightarrow> is_json_inline_value (jtype d) True"
  by (cases d) (auto simp: is_json_inline_value_def)

lemma not_inline: "jinline d = None \<Longrightarrow> \<not> is_json_inline_value (jtype d) True"
  by (cases d) (auto simp: is_json_inline_value_def)

lemma parse_int_le:
  "- (2 ^ 15) \<le> i \<Longrightarrow> i < 2 ^ 15 \<Longrightarrow> parse_int16 (le_bytes 2 (i mod 2 ^ 16) @ z) = Inr i"
  "- (2 ^ 63) \<le> i \<Longrightarrow> i < 2 ^ 63 \<Longrightarrow> parse_int64 (le_bytes 8 (i mod 2 ^ 64) @ z) = Inr i"
  using unpack_int_le_bytes [of 2 i] unpack_int_le_bytes [of 8 i]
  by (simp_all add: parse_int16_def parse_int64_def)

lemma and_low7:
  fixes k :: int
  assumes "0 \<le> k" "k < 128"
  shows "and k 128 = 0" "and k 127 = k"
proof -
  have "and k (mask 7) = k"
    using assms by (simp add: take_bit_eq_mod flip: take_bit_eq_mask)
  then show "and k 127 = k" by (simp add: mask_eq_exp_minus_1)
  have "\<not> bit k 7" using assms by (simp add: bit_iff_odd)
  then show "and k 128 = 0" using and_single_bit [of k 7] by simp
qed

lemma parse_scalar:
  assumes "jok d" "\<forall>ds. d \<noteq> JArray ds"
  shows "parse_json (Suc n) (jtype d) (jbytes d @ z) = Inr (jpy d)"
proof (cases d)
  case (JInt16 i)
  then show ?thesis using assms(1) parse_int_le(1) [of i z] by (simp del: le_bytes.simps)
next
  case (JInt64 i)
  then show ?thesis using assms(1) parse_int_le(2) [of i z] by (simp del: le_bytes.simps)
next
  case (JDouble b)
  then show ?thesis using assms(1) by (simp add: parse_double_def)
next
  case (JString b)
  then have l: "int (length b) < 128" using assms(1) by simp
  have u: "uint (word_of_int (int (length b)) :: byte) = int (length b)"
    using l by (subst uint_word_of_int) simp
  have "and (int (length b)) 128 = 0" "and (int (length b)) 127 = int (length b)"
    using l and_low7 [of "int (length b)"] by simp_all
  then have "decode_variable_length (word_of_int (int (length b)) # b @ z) = (int (length b), 1)"
    using u l by (simp add: decode_variable_length_def)
  then show ?thesis using JString by (simp add: parse_string_def slice_to_def slice_from_def)
next
  case (JArray ds)
  then show ?thesis using assms(2) by simp
qed (simp_all add: parse_literal_def index_at_def)

declare parse_json.simps [simp del]

lemma parse_inline:
  assumes "jinline d = Some b" "jok d"
  shows "parse_json (Suc n) (jtype d) b = Inr (jpy d)"
proof -
  have "\<exists>z. b = jbytes d @ z" using assms(1) by (cases d) auto
  moreover have "\<forall>ds. d \<noteq> JArray ds" using assms(1) by (cases d) auto
  ultimately show ?thesis using parse_scalar [OF assms(2)] by blast
qed

lemma uint_jtype: "uint (word_of_int (jtype d) :: byte) = jtype d"
  by (cases d) auto

lemma drop_eq_ConsD: "drop e xs = y # ys \<Longrightarrow> e < length xs \<and> xs ! e = y \<and> drop (Suc e) xs = ys"
  by (metis Cons_nth_drop_Suc drop_all leI list.distinct(1) list.inject)

lemma json_value_encoded:
  assumes "drop e W = jentries ((d, p) # ds) off @ r1" "drop off W = jpayload ((d, p) # ds) @ r2"
    and "off \<le> length W" "off < 2 ^ 16"
    and "case jinline d of Some b \<Rightarrow> rec (jtype d) b = Inr (jpy d) | None \<Rightarrow> (\<forall>z. rec (jtype d) (p @ z) = Inr (jpy d))"
  shows "json_value rec W True 3 e = Inr (Some (jpy d))"
proof (cases "jinline d")
  case (Some b)
  then have "e < length W" "W ! e = word_of_int (jtype d)" "drop (Suc e) W = b @ jentries ds off @ r1"
    using assms(1) drop_eq_ConsD [of e W "word_of_int (jtype d)"] by auto
  with Some assms(5) length_jinline [OF Some] inline_type [OF Some] show ?thesis
    by (simp add: json_value_def index_at_def uint_jtype)
next
  case None
  then have e: "e < length W" "W ! e = word_of_int (jtype d)"
      "drop (Suc e) W = le_bytes 2 (int off) @ jentries ds (off + length p) @ r1"
    using assms(1) drop_eq_ConsD [of e W "word_of_int (jtype d)"] by auto
  have "decode_count (drop (Suc e) W) True = Inr (int off)"
    using assms(4) unfolding e(3) by (simp add: decode_count_def parse_uint_le)
  moreover have "\<not> is_data_short W (int off)" using assms(3) by (simp add: is_data_short_def)
  moreover have "drop off W = p @ jpayload ds @ r2" using assms(2) None by simp
  ultimately show ?thesis
    using None assms(5) e(1,2) not_inline [OF None] by (simp add: json_value_def index_at_def uint_jtype)
qed

lemma json_values_encoded:
  assumes "drop e W = jentries ds off @ r1" "drop off W = jpayload ds @ r2"
    and "off + length (jpayload ds) \<le> length W" "off + length (jpayload ds) < 2 ^ 16"
    and "\<forall>(d, p) \<in> set ds. case jinline d of Some b \<Rightarrow> rec (jtype d) b = Inr (jpy d)
           | None \<Rightarrow> (\<forall>z. rec (jtype d) (p @ z) = Inr (jpy d))"
  shows "json_values rec W True 3 (map (\<lambda>i. e + 3 * i) [0..<length ds]) = Inr (Some (map (\<lambda>x. jpy (fst x)) ds))"
  using assms
proof (induction ds arbitrary: e off)
  case Nil
  then show ?case by simp
next
  case (Cons x ds)
  obtain d p where x: "x = (d, p)" by (cases x)
  let ?off = "case jinline d of Some _ \<Rightarrow> off | None \<Rightarrow> off + length p"
  have one: "json_value rec W True 3 e = Inr (Some (jpy d))"
    by (rule json_value_encoded [OF Cons.prems(1,2) [unfolded x]])
      (use Cons.prems(3-5) x in \<open>auto split: option.splits\<close>)
  have "jentries ((d, p) # ds) off @ r1 = take 3 (jentries ((d, p) # ds) off) @ jentries ds ?off @ r1"
    by (auto dest: length_jinline split: option.splits simp: numeral_3_eq_3)
  then have e: "drop (e + 3) W = jentries ds ?off @ r1"
    using Cons.prems(1) unfolding x add.commute [of e] drop_drop [symmetric]
    by (auto dest: length_jinline split: option.splits simp: numeral_3_eq_3)
  have o: "drop ?off W = jpayload ds @ r2"
    using Cons.prems(2) unfolding x
    by (cases "jinline d") (simp_all add: add.commute [of off] flip: drop_drop)
  have "json_values rec W True 3 (map (\<lambda>i. (e + 3) + 3 * i) [0..<length ds])
      = Inr (Some (map (\<lambda>x. jpy (fst x)) ds))"
    by (rule Cons.IH [OF e o]) (use Cons.prems(3-5) x in \<open>auto split: option.splits\<close>)
  moreover have "map (\<lambda>i. e + 3 * i) [0..<Suc (length ds)] = e # map (\<lambda>i. (e + 3) + 3 * i) [0..<length ds]"
    by (simp add: upt_conv_Cons comp_def algebra_simps del: upt_Suc flip: map_Suc_upt)
  ultimately show ?case using one by (simp add: x)
qed

lemma length_jpayload_le: "length (jentries ds off) + length (jpayload ds) = 3 * length ds + length (jpayload ds)"
  by (simp add: length_jentries)

lemma parse_array:
  assumes "length (jarray ds) < 2 ^ 16"
    and "\<forall>(d, p) \<in> set ds. case jinline d of Some b \<Rightarrow> parse_json n (jtype d) b = Inr (jpy d)
           | None \<Rightarrow> (\<forall>z. parse_json n (jtype d) (p @ z) = Inr (jpy d))"
  shows "parse_json (Suc n) 2 (jarray ds @ z) = Inr (PList (map (\<lambda>x. jpy (fst x)) ds))"
proof -
  let ?h = "4 + 3 * length ds" and ?W = "jarray ds @ z"
  let ?count = "le_bytes 2 (int (length ds))" and ?size = "le_bytes 2 (int (?h + length (jpayload ds)))"
  have len: "length (jarray ds) = ?h + length (jpayload ds)"
    by (simp add: jarray_def Let_def length_jentries)
  have W: "?W = ?count @ ?size @ jentries ds ?h @ jpayload ds @ z" by (simp add: jarray_def Let_def)
  have count: "decode_count ?W True = Inr (int (length ds))"
    using assms(1) len by (simp add: W decode_count_def parse_uint_le)
  have size: "decode_count (drop 2 ?W) True = Inr (int (?h + length (jpayload ds)))"
    using assms(1) len by (simp add: W decode_count_def parse_uint_le)
  have e: "drop 4 ?W = jentries ds ?h @ jpayload ds @ z"
    unfolding W append_assoc [symmetric, of ?count] by simp
  have p: "drop ?h ?W = jpayload ds @ z"
    using e by (metis (no_types) add.commute append_eq_conv_conj drop_drop length_jentries)
  have "json_values (parse_json n) ?W True 3 (map (\<lambda>i. 4 + 3 * i) [0..<length ds])
      = Inr (Some (map (\<lambda>x. jpy (fst x)) ds))"
    by (rule json_values_encoded [OF e p]) (use assms len in auto)
  then have "json_values (parse_json n) ?W True (Suc (Suc (Suc 0))) (map (\<lambda>i. 3 * i + 4) [0..<length ds])
      = Inr (Some (map (\<lambda>x. jpy (fst x)) ds))"
    unfolding numeral_3_eq_3 [symmetric] add.commute [of _ 4] .
  then show ?thesis
    using count size len by (simp add: parse_json.simps parse_json_object_or_array_def is_data_short_def)
qed

lemma jdepth_le: "d \<in> set ds \<Longrightarrow> jdepth d \<le> foldr max (map jdepth ds) 0"
  by (induction ds) auto

lemma parse_encoded: "jok d \<Longrightarrow> jdepth d \<le> n \<Longrightarrow> parse_json (Suc n) (jtype d) (jbytes d @ z) = Inr (jpy d)"
proof (induction d arbitrary: n z)
  case (JArray ds)
  then obtain m where m: "n = Suc m" by (cases n) auto
  have "case jinline d of Some b \<Rightarrow> parse_json n (jtype d) b = Inr (jpy d)
      | None \<Rightarrow> (\<forall>z. parse_json n (jtype d) (jbytes d @ z) = Inr (jpy d))" if d: "d \<in> set ds" for d
  proof -
    have "jok d" "jdepth d \<le> m"
      using JArray.prems m jdepth_le [OF d] d by (auto simp: list_all_iff)
    with JArray.IH [OF d] m parse_inline show ?thesis by (auto split: option.splits)
  qed
  then have "\<forall>(d, p) \<in> set (map (\<lambda>d. (d, jbytes d)) ds).
      case jinline d of Some b \<Rightarrow> parse_json n (jtype d) b = Inr (jpy d)
        | None \<Rightarrow> (\<forall>z. parse_json n (jtype d) (p @ z) = Inr (jpy d))"
    by simp
  from parse_array [OF _ this, of z] JArray.prems(1) show ?case by (simp add: comp_def)
qed (rule parse_scalar; simp)+

text \<open>C29: the parser reads back every encoded document of nested small arrays, whatever bytes follow it,
  as soon as the stack has room for its nesting.\<close>

theorem json_roundtrip:
  assumes "jok d" "jdepth d < room"
  shows "parse_json room (jtype d) (jbytes d @ z) = Inr (jpy d)"
  using parse_encoded [of d "room - 1" z] assms by (cases room) auto

theorem json_roundtrip_witness:
  "parse_json 3 2 (jbytes (JArray [JInt16 (-2), JString [104, 105], JArray [JNull, JBool True]]))
     = Inr (PList [PInt (-2), PBytes [104, 105], PList [PNone, PBool True]])"
proof -
  have "jok (JArray [JInt16 (-2), JString [104, 105], JArray [JNull, JBool True]])"
    by (simp add: jarray_def Let_def)
  from json_roundtrip [OF this, of 3 "[]"] show ?thesis by simp
qed

end
