(* ===== verification/Packet.thy ===== *)
theory Packet
  imports Json_Binary
begin

text \<open>
  \<open>pymysqlreplication/packet.py\<close>: the readers of \<open>BinLogPacketWrapper\<close>. The packet of PyMySQL below
  it is not part of the repository and is the parameter \<open>P\<close>: how it reads, advances, and how many
  bytes it has left. The wrapper adds the counter \<open>read_bytes\<close> and the buffer of \<open>unread\<close> bytes.

  What the code relies on is \<open>packet_laws\<close>: the packet delivers its remaining bytes in order and raises
  when it is asked for more. The lemmas show that the wrapper then is such a source again, over the
  buffer followed by the packet, and that every reader returns the number that its bytes encode and
  consumes exactly these bytes.
\<close>

section \<open>Definitions\<close>

record 'p packet_ops =
  p_read :: "int \<Rightarrow> ('p, bytes) sx"
  p_advance :: "int \<Rightarrow> ('p, unit) sx"
  p_left :: "'p \<Rightarrow> int"

record 'p wrapper =
  read_bytes :: int
  data_buffer :: bytes
  packet :: 'p

type_synonym ('p, 'a) reader = "('p wrapper, 'a) sx"

definition on_packet :: "('p, 'a) sx \<Rightarrow> ('p, 'a) reader" where
  "on_packet m = (\<lambda>w. case m (packet w) of (r, p) \<Rightarrow> (r, w\<lparr>packet := p\<rparr>))"

definition read :: "'p packet_ops \<Rightarrow> int \<Rightarrow> ('p, bytes) reader" where
  "read P sz = (\<lambda>w.
     let w1 = w\<lparr>read_bytes := read_bytes w + sz\<rparr>
     in if length (data_buffer w1) > 0 then
          (let data = slice_to sz (data_buffer w1);
               w2 = w1\<lparr>data_buffer := slice_from sz (data_buffer w1)\<rparr>
           in if int (length data) = sz then (Inr data, w2)
              else bind_sx (on_packet (p_read P (sz - int (length data)))) (\<lambda>d. ret_sx (data @ d)) w2)
        else on_packet (p_read P sz) w1)"

definition unread :: "bytes \<Rightarrow> ('p, unit) reader" where
  "unread data = (\<lambda>w. (Inr (), w\<lparr>read_bytes := read_bytes w - int (length data),
     data_buffer := data_buffer w @ data\<rparr>))"

definition advance :: "'p packet_ops \<Rightarrow> int \<Rightarrow> ('p, unit) reader" where
  "advance P sz = (\<lambda>w.
     let w1 = w\<lparr>read_bytes := read_bytes w + sz\<rparr>;
         buffer_len = int (length (data_buffer w1))
     in if buffer_len > 0 then
          (let w2 = w1\<lparr>data_buffer := slice_from sz (data_buffer w1)\<rparr>
           in if sz > buffer_len then on_packet (p_advance P (sz - buffer_len)) w2 else (Inr (), w2))
        else on_packet (p_advance P sz) w1)"

definition bytes_to_read :: "'p packet_ops \<Rightarrow> ('p, int) reader" where
  "bytes_to_read P = (\<lambda>w. (Inr (p_left P (packet w)), w))"

definition read_available :: "'p packet_ops \<Rightarrow> ('p, bytes) reader" where
  "read_available P = bind_sx (bytes_to_read P) (\<lambda>n. on_packet (p_read P (n - BINLOG_CHECKSUM_LEN)))"

definition unpacked :: "'p packet_ops \<Rightarrow> nat \<Rightarrow> (bytes \<Rightarrow> 'a res) \<Rightarrow> ('p, 'a) reader" where
  "unpacked P n f = bind_sx (read P (int n)) (\<lambda>b. lift_sx (f b))"

definition three_bytes :: "bytes \<Rightarrow> (int \<times> int \<times> int) res" where
  "three_bytes b = (case b of [x, y, z] \<Rightarrow> Inr (uint x, uint y, uint z) | _ \<Rightarrow> Inl StructError)"

definition read_uint8 :: "'p packet_ops \<Rightarrow> ('p, int) reader" where
  "read_uint8 P = unpacked P 1 (unpack_uint 1)"

definition read_int16 :: "'p packet_ops \<Rightarrow> ('p, int) reader" where
  "read_int16 P = unpacked P 2 (unpack_int 2)"

definition read_uint16 :: "'p packet_ops \<Rightarrow> ('p, int) reader" where
  "read_uint16 P = unpacked P 2 (unpack_uint 2)"

definition read_int24 :: "'p packet_ops \<Rightarrow> ('p, int) reader" where
  "read_int24 P = unpacked P 3 (\<lambda>d. bind_res (three_bytes d) (\<lambda>(a, b, c).
     let r = or (or a (push_bit 8 b)) (push_bit 16 c) in Inr (if r \<ge> 0x800000 then r - 0x1000000 else r)))"

definition read_int24_be :: "'p packet_ops \<Rightarrow> ('p, int) reader" where
  "read_int24_be P = unpacked P 3 (\<lambda>d. bind_res (three_bytes d) (\<lambda>(a, b, c).
     let r = or (or (push_bit 16 a) (push_bit 8 b)) c in Inr (if r \<ge> 0x800000 then r - 0x1000000 else r)))"

definition read_uint24 :: "'p packet_ops \<Rightarrow> ('p, int) reader" where
  "read_uint24 P = unpacked P 3 (\<lambda>d. bind_res (three_bytes d) (\<lambda>(a, b, c).
     Inr (a + push_bit 8 b + push_bit 16 c)))"

definition read_uint32 :: "'p packet_ops \<Rightarrow> ('p, int) reader" where
  "read_uint32 P = unpacked P 4 (unpack_uint 4)"

definition read_int32 :: "'p packet_ops \<Rightarrow> ('p, int) reader" where
  "read_int32 P = unpacked P 4 (unpack_int 4)"

definition read_uint40 :: "'p packet_ops \<Rightarrow> ('p, int) reader" where
  "read_uint40 P = unpacked P 5 (\<lambda>d. if length d = 5
     then Inr (le_val (take 1 d) + push_bit 8 (le_val (drop 1 d))) else Inl StructError)"

definition read_int40_be :: "'p packet_ops \<Rightarrow> ('p, int) reader" where
  "read_int40_be P = unpacked P 5 (\<lambda>d. if length d = 5
     then Inr (be_val (drop 4 d) + push_bit 8 (be_val (take 4 d))) else Inl StructError)"

definition read_uint48 :: "'p packet_ops \<Rightarrow> ('p, int) reader" where
  "read_uint48 P = unpacked P 6 (\<lambda>d. if length d = 6
     then Inr (le_val (take 2 d) + push_bit 16 (le_val (take 2 (drop 2 d))) + push_bit 32 (le_val (drop 4 d)))
     else Inl StructError)"

definition read_uint56 :: "'p packet_ops \<Rightarrow> ('p, int) reader" where
  "read_uint56 P = unpacked P 7 (\<lambda>d. if length d = 7
     then Inr (le_val (take 1 d) + push_bit 8 (le_val (take 2 (drop 1 d))) + push_bit 24 (le_val (drop 3 d)))
     else Inl StructError)"

definition read_uint64 :: "'p packet_ops \<Rightarrow> ('p, int) reader" where
  "read_uint64 P = unpacked P 8 (unpack_uint 8)"

definition read_int64 :: "'p packet_ops \<Rightarrow> ('p, int) reader" where
  "read_int64 P = unpacked P 8 (unpack_int 8)"

definition unpack_uint16 :: "bytes \<Rightarrow> int res" where
  "unpack_uint16 n = unpack_uint 2 (take 2 n)"

definition unpack_int24 :: "bytes \<Rightarrow> int res" where
  "unpack_int24 n =
     bind_res (index_at n 0) (\<lambda>a. bind_res (index_at n 1) (\<lambda>b. bind_res (index_at n 2) (\<lambda>c.
       Inr (uint a + push_bit 8 (uint b) + push_bit 16 (uint c)))))"

definition unpack_int32 :: "bytes \<Rightarrow> int res" where
  "unpack_int32 n =
     bind_res (index_at n 0) (\<lambda>a. bind_res (index_at n 1) (\<lambda>b. bind_res (index_at n 2) (\<lambda>c. bind_res (index_at n 3) (\<lambda>d.
       Inr (uint a + push_bit 8 (uint b) + push_bit 16 (uint c) + push_bit 24 (uint d))))))"

definition NULL_COLUMN :: int where [simp]: "NULL_COLUMN = 251"
definition UNSIGNED_CHAR_COLUMN :: int where [simp]: "UNSIGNED_CHAR_COLUMN = 251"
definition UNSIGNED_SHORT_COLUMN :: int where [simp]: "UNSIGNED_SHORT_COLUMN = 252"
definition UNSIGNED_INT24_COLUMN :: int where [simp]: "UNSIGNED_INT24_COLUMN = 253"
definition UNSIGNED_INT64_COLUMN :: int where [simp]: "UNSIGNED_INT64_COLUMN = 254"

text \<open>Neither the wrapper nor PyMySQL's packet has the method \<open>unpack_int64\<close> that the last branch
  calls.\<close>

definition read_length_coded_binary :: "'p packet_ops \<Rightarrow> ('p, int option) reader" where
  "read_length_coded_binary P =
     bind_sx (unpacked P 1 (unpack_uint_be 1)) (\<lambda>c.
       if c = NULL_COLUMN then ret_sx None
       else if c < UNSIGNED_CHAR_COLUMN then ret_sx (Some c)
       else if c = UNSIGNED_SHORT_COLUMN then bind_sx (unpacked P 2 unpack_uint16) (\<lambda>v. ret_sx (Some v))
       else if c = UNSIGNED_INT24_COLUMN then bind_sx (unpacked P 3 unpack_int24) (\<lambda>v. ret_sx (Some v))
       else if c = UNSIGNED_INT64_COLUMN then raise_sx AttributeError
       else ret_sx None)"

definition read_length_coded_string :: "'p packet_ops \<Rightarrow> ('p, string option) reader" where
  "read_length_coded_string P =
     bind_sx (read_length_coded_binary P) (\<lambda>len.
       case len of
         None \<Rightarrow> ret_sx None
       | Some n \<Rightarrow> bind_sx (read P n) (\<lambda>b. bind_sx (lift_sx (decode_utf8 b)) (\<lambda>s. ret_sx (Some s))))"

text \<open>\<open>read_int_be_by_size\<close> and \<open>read_uint_by_size\<close> return \<open>None\<close> for the sizes they do not
  know. The format \<open>>l\<close> has four bytes, so that eight bytes are an error.\<close>

definition read_int_be_by_size :: "'p packet_ops \<Rightarrow> int \<Rightarrow> ('p, int option) reader" where
  "read_int_be_by_size P sz =
     (if sz = 1 then bind_sx (unpacked P 1 (unpack_int_be 1)) (\<lambda>v. ret_sx (Some v))
      else if sz = 2 then bind_sx (unpacked P 2 (unpack_int_be 2)) (\<lambda>v. ret_sx (Some v))
      else if sz = 3 then bind_sx (read_int24_be P) (\<lambda>v. ret_sx (Some v))
      else if sz = 4 then bind_sx (unpacked P 4 (unpack_int_be 4)) (\<lambda>v. ret_sx (Some v))
      else if sz = 5 then bind_sx (read_int40_be P) (\<lambda>v. ret_sx (Some v))
      else if sz = 8 then bind_sx (unpacked P 8 (unpack_int_be 4)) (\<lambda>v. ret_sx (Some v))
      else ret_sx None)"

definition read_uint_by_size :: "'p packet_ops \<Rightarrow> int \<Rightarrow> ('p, int option) reader" where
  "read_uint_by_size P sz =
     (if sz = 1 then bind_sx (read_uint8 P) (\<lambda>v. ret_sx (Some v))
      else if sz = 2 then bind_sx (read_uint16 P) (\<lambda>v. ret_sx (Some v))
      else if sz = 3 then bind_sx (read_uint24 P) (\<lambda>v. ret_sx (Some v))
      else if sz = 4 then bind_sx (read_uint32 P) (\<lambda>v. ret_sx (Some v))
      else if sz = 5 then bind_sx (read_uint40 P) (\<lambda>v. ret_sx (Some v))
      else if sz = 6 then bind_sx (read_uint48 P) (\<lambda>v. ret_sx (Some v))
      else if sz = 7 then bind_sx (read_uint56 P) (\<lambda>v. ret_sx (Some v))
      else if sz = 8 then bind_sx (read_uint64 P) (\<lambda>v. ret_sx (Some v))
      else ret_sx None)"

definition read_sized :: "'p packet_ops \<Rightarrow> int option \<Rightarrow> ('p, bytes) reader" where
  "read_sized P len = (case len of None \<Rightarrow> raise_sx TypeError | Some n \<Rightarrow> read P n)"

definition read_length_coded_pascal_string :: "'p packet_ops \<Rightarrow> int \<Rightarrow> ('p, bytes) reader" where
  "read_length_coded_pascal_string P sz = bind_sx (read_uint_by_size P sz) (read_sized P)"

text \<open>The loops that read to a terminator take fuel; \<open>fuel_of\<close> is one more than the bytes that are
  there, and under \<open>packet_laws\<close> the packet raises before the fuel is used up.\<close>

definition fuel_of :: "'p packet_ops \<Rightarrow> 'p wrapper \<Rightarrow> nat" where
  "fuel_of P w = Suc (length (data_buffer w) + nat (p_left P (packet w)))"

fun var_string_loop :: "'p packet_ops \<Rightarrow> nat \<Rightarrow> nat \<Rightarrow> int \<Rightarrow> ('p, int) reader" where
  "var_string_loop P 0 bits_read len = raise_sx RecursionError"
| "var_string_loop P (Suc n) bits_read len =
     bind_sx (unpacked P 1 (unpack_uint_be 1)) (\<lambda>byte.
       let len' = or len (push_bit bits_read (and byte 0x7F))
       in if and byte 0x80 \<noteq> 0 then var_string_loop P n (bits_read + 7) len' else ret_sx len')"

definition read_variable_length_string :: "'p packet_ops \<Rightarrow> ('p, bytes) reader" where
  "read_variable_length_string P =
     bind_sx (\<lambda>w. var_string_loop P (fuel_of P w) 0 0 w) (read P)"

fun string_loop :: "'p packet_ops \<Rightarrow> nat \<Rightarrow> bytes \<Rightarrow> ('p, bytes) reader" where
  "string_loop P 0 acc = raise_sx RecursionError"
| "string_loop P (Suc n) acc =
     bind_sx (read P 1) (\<lambda>char. if char = [0] then ret_sx acc else string_loop P n (acc @ char))"

definition read_string :: "'p packet_ops \<Rightarrow> ('p, bytes) reader" where
  "read_string P = (\<lambda>w. string_loop P (fuel_of P w) [] w)"

datatype json_column = JsonValue pyval | JsonDiffValue json_diff

definition json_document :: "nat \<Rightarrow> bytes \<Rightarrow> pyval res" where
  "json_document room data =
     bind_res (index_at data 0) (\<lambda>t. parse_json room (uint t) (drop 1 data))"

text \<open>A NULL length in the diff (\<open>None\<close>) as the bound of a slice takes everything.\<close>

definition bound_to :: "int option \<Rightarrow> 'a list \<Rightarrow> 'a list" where
  "bound_to b xs = (case b of None \<Rightarrow> xs | Some n \<Rightarrow> slice_to n xs)"

definition bound_from :: "int option \<Rightarrow> 'a list \<Rightarrow> 'a list" where
  "bound_from b xs = (case b of None \<Rightarrow> xs | Some n \<Rightarrow> slice_from n xs)"

definition parse_json_diff :: "nat \<Rightarrow> bytes \<Rightarrow> json_column res" where
  "parse_json_diff room data0 =
     bind_res (index_at data0 0) (\<lambda>operation_number.
     bind_res (json_diff_by_index (uint operation_number)) (\<lambda>json_operation.
     let data1 = drop 1 data0
     in bind_res (length_encoded_int data1) (\<lambda>(path_length, _, n).
        let data2 = slice_from n data1; path = bound_to path_length data2; data3 = bound_from path_length data2
        in bind_res (length_encoded_int data3) (\<lambda>(value_length, _, n2).
           if json_operation = JsonRemove
           then Inr (JsonDiffValue \<lparr>jd_op = json_operation, jd_path = path, jd_value = PNone\<rparr>)
           else bind_res (json_document room (bound_to value_length (slice_from n2 data3)))
             (\<lambda>v. Inr (JsonDiffValue \<lparr>jd_op = json_operation, jd_path = path, jd_value = v\<rparr>))))))"

definition read_binary_json :: "'p packet_ops \<Rightarrow> nat \<Rightarrow> int \<Rightarrow> bool \<Rightarrow> ('p, json_column) reader" where
  "read_binary_json P room sz is_partial =
     bind_sx (read_uint_by_size P sz) (\<lambda>len.
       if len = Some 0 then ret_sx (JsonValue PNone)
       else bind_sx (read_sized P len) (\<lambda>data.
         if is_partial then lift_sx (parse_json_diff room data)
         else lift_sx (bind_res (json_document room data) (\<lambda>v. Inr (JsonValue v)))))"

section \<open>Sources of bytes\<close>

definition packet_laws :: "'p packet_ops \<Rightarrow> ('p \<Rightarrow> bytes) \<Rightarrow> bool" where
  "packet_laws P r = (\<forall>n p.
     (0 \<le> n \<and> n \<le> int (length (r p)) \<longrightarrow>
        (\<exists>p'. p_read P n p = (Inr (take (nat n) (r p)), p') \<and> r p' = drop (nat n) (r p))
        \<and> (\<exists>p'. p_advance P n p = (Inr (), p') \<and> r p' = drop (nat n) (r p)))
     \<and> (n > int (length (r p)) \<longrightarrow> p_read P n p = (Inl AssertionError, p))
     \<and> p_left P p = int (length (r p)))"

text \<open>What a reader of bytes relies on: it gets the next bytes, or an exception when there are too few.
  The packet is such a source and the wrapper is one on top of it.\<close>

locale byte_source =
  fixes good :: "'k \<Rightarrow> bool"
    and get :: "'k \<Rightarrow> int \<Rightarrow> ('s, bytes) sx"
    and remaining :: "'k \<Rightarrow> 's \<Rightarrow> bytes"
  assumes get_ok: "good k \<Longrightarrow> 0 \<le> n \<Longrightarrow> n \<le> int (length (remaining k s)) \<Longrightarrow>
      \<exists>s'. get k n s = (Inr (take (nat n) (remaining k s)), s') \<and> remaining k s' = drop (nat n) (remaining k s)"
    and get_short: "good k \<Longrightarrow> n > int (length (remaining k s)) \<Longrightarrow> \<exists>s'. get k n s = (Inl AssertionError, s')"
begin

lemma get_prefix:
  assumes "good k" "remaining k s = b @ z"
  shows "\<exists>s'. get k (int (length b)) s = (Inr b, s') \<and> remaining k s' = z"
  using get_ok [OF assms(1), of "int (length b)" s] assms(2) by simp

lemma get_get:
  assumes "good k" "remaining k s = b @ c @ z"
  shows "\<exists>s'. bind_sx (get k (int (length b))) (\<lambda>x. bind_sx (get k (int (length c))) (\<lambda>y. ret_sx (x @ y))) s = (Inr (b @ c), s')
    \<and> remaining k s' = z"
  using get_prefix [OF assms] get_prefix [OF assms(1), of _ c z] by (fastforce simp: bind_sx_ok)

end

interpretation pk: byte_source "\<lambda>(P, r). packet_laws P r" "\<lambda>(P, r). p_read P" "\<lambda>(P, r). r"
  by unfold_locales (auto simp: packet_laws_def)

definition rest :: "('p \<Rightarrow> bytes) \<Rightarrow> 'p wrapper \<Rightarrow> bytes" where
  "rest r w = data_buffer w @ r (packet w)"

lemma read_ok:
  assumes "packet_laws P r" "0 \<le> n" "n \<le> int (length (rest r w))"
  shows "\<exists>w'. read P n w = (Inr (take (nat n) (rest r w)), w') \<and> rest r w' = drop (nat n) (rest r w)
    \<and> read_bytes w' = read_bytes w + n"
proof (cases "n \<le> int (length (data_buffer w))")
  case True
  show ?thesis
  proof (cases "data_buffer w = []")
    case True
    with \<open>n \<le> int (length (data_buffer w))\<close> assms(2) have "n = 0" by simp
    with True pk.get_ok [of "(P, r)" 0 "packet w"] assms(1) show ?thesis
      by (auto simp: read_def rest_def on_packet_def Let_def)
  next
    case False
    with True assms(2) show ?thesis by (simp add: read_def rest_def Let_def slice_to_def slice_from_def)
  qed
next
  case False
  let ?d = "data_buffer w" and ?m = "n - int (length (data_buffer w))"
  have m: "0 \<le> ?m" "?m \<le> int (length (r (packet w)))" "nat ?m = nat n - length ?d"
    using False assms(3) by (simp_all add: rest_def nat_diff_distrib)
  obtain p' where p: "p_read P ?m (packet w) = (Inr (take (nat ?m) (r (packet w))), p')"
      "r p' = drop (nat ?m) (r (packet w))"
    using pk.get_ok [of "(P, r)" ?m "packet w"] assms(1) m(1,2) by auto
  have "length ?d \<le> nat n" using False by simp
  with p m(3) False show ?thesis
    by (cases "?d = []") (auto simp: read_def rest_def on_packet_def Let_def slice_to_def slice_from_def bind_sx_def)
qed

lemma read_short:
  assumes "packet_laws P r" "n > int (length (rest r w))"
  shows "\<exists>w'. read P n w = (Inl AssertionError, w')"
proof -
  let ?m = "n - int (length (data_buffer w))"
  have "p_read P ?m (packet w) = (Inl AssertionError, packet w)"
    using assms by (auto simp: packet_laws_def rest_def)
  with assms(2) show ?thesis
    by (cases "data_buffer w = []")
      (auto simp: read_def rest_def on_packet_def Let_def slice_to_def slice_from_def bind_sx_def)
qed

interpretation wr: byte_source "\<lambda>(P, r). packet_laws P r" "\<lambda>(P, r). read P" "\<lambda>(P, r). rest r"
  using read_ok read_short by unfold_locales (auto, blast)

section \<open>Readers and the bytes they decode\<close>

text \<open>\<open>decodes r m b v\<close>: wherever the next bytes are \<open>b\<close>, the reader \<open>m\<close> returns \<open>v\<close>, consumes exactly
  \<open>b\<close> and counts them.\<close>

definition decodes :: "('p \<Rightarrow> bytes) \<Rightarrow> ('p, 'a) reader \<Rightarrow> bytes \<Rightarrow> 'a \<Rightarrow> bool" where
  "decodes r m b v = (\<forall>w z. rest r w = b @ z \<longrightarrow>
     (\<exists>w'. m w = (Inr v, w') \<and> rest r w' = z \<and> read_bytes w' = read_bytes w + int (length b)))"

lemma decodes_ret: "decodes r (ret_sx v) [] v"
  by (simp add: decodes_def)

lemma decodes_bind:
  assumes "decodes r m b v" "decodes r (f v) c u"
  shows "decodes r (bind_sx m f) (b @ c) u"
  unfolding decodes_def
proof (intro allI impI)
  fix w z assume "rest r w = (b @ c) @ z"
  then obtain w1 where w1: "m w = (Inr v, w1)" "rest r w1 = c @ z" "read_bytes w1 = read_bytes w + int (length b)"
    using assms(1) unfolding decodes_def by (metis append_assoc)
  then obtain w2 where "f v w1 = (Inr u, w2)" "rest r w2 = z" "read_bytes w2 = read_bytes w1 + int (length c)"
    using assms(2) unfolding decodes_def by blast
  with w1 show "\<exists>w'. bind_sx m f w = (Inr u, w') \<and> rest r w' = z \<and> read_bytes w' = read_bytes w + int (length (b @ c))"
    by (simp add: bind_sx_ok)
qed

lemma decodes_map: "decodes r m b v \<Longrightarrow> decodes r (bind_sx m (\<lambda>x. ret_sx (f x))) b (f v)"
  using decodes_bind [OF _ decodes_ret, of r m b v "\<lambda>x. ret_sx (f x)"]
  by (metis (no_types) append_Nil2 decodes_bind decodes_ret)

lemma decodes_read:
  assumes "packet_laws P r" "int (length b) = n"
  shows "decodes r (read P n) b b"
  unfolding decodes_def
proof (intro allI impI)
  fix w z assume "rest r w = b @ z"
  with read_ok [OF assms(1), of n w] assms(2)
  show "\<exists>w'. read P n w = (Inr b, w') \<and> rest r w' = z \<and> read_bytes w' = read_bytes w + int (length b)"
    by auto
qed

lemma decodes_unpacked:
  assumes "packet_laws P r" "length b = n" "f b = Inr v"
  shows "decodes r (unpacked P n f) b v"
  using decodes_bind [OF decodes_read [OF assms(1), of b "int n"], of "\<lambda>b. lift_sx (f b)" "[]" v] assms(2,3)
  by (simp add: unpacked_def decodes_ret)

section \<open>The integer readers\<close>

lemma or_push_bit:
  fixes a b :: int
  assumes "0 \<le> a" "a < 2 ^ n"
  shows "or a (push_bit n b) = a + push_bit n b" "or (push_bit n b) a = push_bit n b + a"
proof -
  have "take_bit n a = a" using assms by (simp add: take_bit_int_eq_self)
  then have "and a (push_bit n b) = 0"
    by (metis (no_types) and.commute take_bit_and take_bit_push_bit and_zero_eq bit_eq_iff bit_and_iff bit_push_bit_iff bit_take_bit_iff not_less bit_0_eq bot_apply bot_bool_def)
  then show "or a (push_bit n b) = a + push_bit n b" "or (push_bit n b) a = push_bit n b + a"
    by (simp_all add: disjunctive_add [symmetric] plus_and_or [of a "push_bit n b", symmetric] or.commute [of _ a] add.commute [of _ a])
qed

lemma le_val_split: "le_val d = le_val (take n d) + 256 ^ length (take n d) * le_val (drop n d)"
  using le_val_append [of "take n d" "drop n d"] by simp

lemma three_bytes_ok: "length d = 3 \<Longrightarrow> \<exists>x y z. d = [x, y, z] \<and> three_bytes d = Inr (uint x, uint y, uint z)"
  by (auto simp: three_bytes_def numeral_3_eq_3 length_Suc_conv)

lemma uint_byte: "0 \<le> uint (b :: byte)" "uint (b :: byte) < 256"
  using uint_lt2p [of b] by simp_all

lemma unpack_val: "length d = n \<Longrightarrow> unpack_uint n d = Inr (le_val d)" "length d = n \<Longrightarrow> unpack_int n d = Inr (signed_val n (le_val d))"
  "length d = n \<Longrightarrow> unpack_uint_be n d = Inr (be_val d)" "length d = n \<Longrightarrow> unpack_int_be n d = Inr (signed_val n (be_val d))"
  by (simp_all add: unpack_uint_def unpack_int_def unpack_uint_be_def unpack_int_be_def)

text \<open>The value of every little-endian reader is the number that the bytes denote.\<close>

lemma read_uint_by_size_decodes:
  assumes "packet_laws P r" "1 \<le> length d" "length d \<le> 8"
  shows "decodes r (read_uint_by_size P (int (length d))) d (Some (le_val d))"
proof -
  note u = decodes_map [OF decodes_unpacked [OF assms(1)]]
  consider "length d = 1" | "length d = 2" | "length d = 3" | "length d = 4" | "length d = 5" | "length d = 6"
    | "length d = 7" | "length d = 8"
    using assms(2,3) by linarith
  then show ?thesis
  proof cases
    case 3
    then obtain x y z where "d = [x, y, z]" "three_bytes d = Inr (uint x, uint y, uint z)"
      using three_bytes_ok by blast
    with 3 show ?thesis
      unfolding read_uint_by_size_def read_uint24_def
      by (auto intro!: u simp: push_bit_eq_mult)
  next
    case 5
    then have "le_val (take 1 d) + push_bit 8 (le_val (drop 1 d)) = le_val d"
      by (subst (3) le_val_split [of _ 1]) (simp add: push_bit_eq_mult)
    with 5 show ?thesis
      unfolding read_uint_by_size_def read_uint40_def by (auto intro!: u)
  next
    case 6
    then have "le_val d = le_val (take 2 d) + 65536 * le_val (drop 2 d)"
      using le_val_split [of d 2] by (simp add: min_def)
    moreover have "le_val (drop 2 d) = le_val (take 2 (drop 2 d)) + 65536 * le_val (drop 4 d)"
      using le_val_split [of "drop 2 d" 2] 6 by (simp add: min_def)
    ultimately have "le_val (take 2 d) + push_bit 16 (le_val (take 2 (drop 2 d))) + push_bit 32 (le_val (drop 4 d)) = le_val d"
      by (simp add: push_bit_eq_mult)
    with 6 show ?thesis
      unfolding read_uint_by_size_def read_uint48_def by (auto intro!: u)
  next
    case 7
    then have "le_val d = le_val (take 1 d) + 256 * le_val (drop 1 d)"
      using le_val_split [of d 1] by (simp add: min_def)
    moreover have "le_val (drop 1 d) = le_val (take 2 (drop 1 d)) + 65536 * le_val (drop 3 d)"
      using le_val_split [of "drop 1 d" 2] 7 by (simp add: min_def)
    ultimately have "le_val (take 1 d) + push_bit 8 (le_val (take 2 (drop 1 d))) + push_bit 24 (le_val (drop 3 d)) = le_val d"
      by (simp add: push_bit_eq_mult)
    with 7 show ?thesis
      unfolding read_uint_by_size_def read_uint56_def by (auto intro!: u)
  qed (auto simp: read_uint_by_size_def read_uint8_def read_uint16_def read_uint32_def read_uint64_def
      intro!: u unpack_val)
qed

lemma be_val_split: "be_val d = 256 ^ length (drop n d) * be_val (take n d) + be_val (drop n d)"
  using le_val_append [of "rev (drop n d)" "rev (take n d)"]
  by (simp add: be_val_def flip: rev_append)

lemma be_val_Cons: "be_val (b # bs) = 256 ^ length bs * uint b + be_val bs"
  using be_val_split [of "b # bs" 1] by (simp add: be_val_def)

text \<open>The big-endian readers are signed, except the one for five bytes.\<close>

lemma read_int_be_by_size_decodes:
  assumes "packet_laws P r" "length d \<in> {1, 2, 3, 4, 5}"
  shows "decodes r (read_int_be_by_size P (int (length d))) d
    (Some (if length d = 5 then be_val d else signed_val (length d) (be_val d)))"
proof -
  note u = decodes_map [OF decodes_unpacked [OF assms(1)]]
  consider "length d = 1 \<or> length d = 2 \<or> length d = 4" | "length d = 3" | "length d = 5"
    using assms(2) by auto
  then show ?thesis
  proof cases
    case 1
    then show ?thesis
      by (auto simp: read_int_be_by_size_def intro!: u unpack_val)
  next
    case 2
    then obtain x y z where d: "d = [x, y, z]" "three_bytes d = Inr (uint x, uint y, uint z)"
      using three_bytes_ok by blast
    have "or (push_bit 8 (uint y)) (uint z) = push_bit 8 (uint y) + uint z"
      using uint_byte [of z] by (intro or_push_bit(2)) simp_all
    moreover have "or (push_bit 16 (uint x)) (push_bit 8 (uint y) + uint z)
        = push_bit 16 (uint x) + (push_bit 8 (uint y) + uint z)"
      using uint_byte [of y] uint_byte [of z] by (intro or_push_bit(2)) (simp_all add: push_bit_eq_mult)
    ultimately have o: "or (or (push_bit 16 (uint x)) (push_bit 8 (uint y))) (uint z)
        = 65536 * uint x + 256 * uint y + uint z"
      by (simp add: or.assoc push_bit_eq_mult)
    have v: "be_val d = 65536 * uint x + 256 * uint y + uint z"
      by (simp add: d(1) be_val_Cons) (simp add: be_val_def)
    show ?thesis
      using 2 d(2) o v unfolding read_int_be_by_size_def read_int24_be_def
      by (auto intro!: u simp: signed_val_def Let_def)
  next
    case 3
    with be_val_split [of d 4] show ?thesis
      unfolding read_int_be_by_size_def read_int40_be_def by (auto intro!: u simp: push_bit_eq_mult)
  qed
qed

section \<open>Strings\<close>

lemma pascal_string_decodes:
  assumes "packet_laws P r" "1 \<le> k" "k \<le> 8" "int (length b) < 256 ^ k"
  shows "decodes r (read_length_coded_pascal_string P (int k)) (le_bytes k (int (length b)) @ b) b"
proof -
  have "decodes r (read_uint_by_size P (int k)) (le_bytes k (int (length b))) (Some (int (length b)))"
    using read_uint_by_size_decodes [OF assms(1), of "le_bytes k (int (length b))"] assms(2-4)
    by (simp add: le_val_le_bytes)
  then show ?thesis
    unfolding read_length_coded_pascal_string_def
    by (rule decodes_bind) (simp add: read_sized_def decodes_read [OF assms(1)])
qed

text \<open>MySQL writes a length as groups of seven bits, the lowest first.\<close>

function put_varlen :: "nat \<Rightarrow> bytes" where
  "put_varlen n = (if n < 128 then [word_of_nat n] else word_of_nat (128 + n mod 128) # put_varlen (n div 128))"
  by pat_completeness auto
termination by (relation "measure id") auto

declare put_varlen.simps [simp del]

lemma unpack_byte: "unpack_uint_be 1 [b] = Inr (uint b)"
  by (simp add: unpack_uint_be_def be_val_def)

lemma byte_bits:
  fixes v :: int
  assumes "0 \<le> v" "v < 256"
  shows "and v 0x7F = v mod 128" "and v 0x80 \<noteq> 0 \<longleftrightarrow> 128 \<le> v"
proof -
  have "and v (mask 7) = v mod 128" by (simp add: take_bit_eq_mod flip: take_bit_eq_mask)
  then show "and v 0x7F = v mod 128" by (simp add: mask_eq_exp_minus_1)
  have "v div 128 = (if 128 \<le> v then 1 else 0)"
    using assms by (auto simp: div_pos_pos_trivial intro: int_div_pos_eq [of v 128 1 "v - 128"])
  then have "bit v 7 \<longleftrightarrow> 128 \<le> v" by (simp add: bit_iff_odd)
  then show "and v 0x80 \<noteq> 0 \<longleftrightarrow> 128 \<le> v" using and_single_bit [of v 7] by simp
qed

lemma uint_byte_of_nat: "n < 256 \<Longrightarrow> uint (word_of_nat n :: byte) = int n"
  by (simp only: uint_nat unat_of_nat) simp

lemma var_string_loop_decodes:
  assumes "packet_laws P r" "length (put_varlen n) \<le> fuel" "0 \<le> acc" "acc < 2 ^ bits"
  shows "decodes r (var_string_loop P fuel bits acc) (put_varlen n) (acc + push_bit bits (int n))"
  using assms(2-4)
proof (induction n arbitrary: fuel bits acc rule: put_varlen.induct)
  case (1 n)
  have "put_varlen n \<noteq> []" by (subst put_varlen.simps) simp
  then obtain f where f: "fuel = Suc f" using "1.prems"(1) by (cases fuel) simp_all
  show ?case
  proof (cases "n < 128")
    case True
    have "uint (word_of_nat n :: byte) = int n" using True by (intro uint_byte_of_nat) simp
    then have d: "decodes r (unpacked P 1 (unpack_uint_be 1)) [word_of_nat n] (int n)"
      by (intro decodes_unpacked [OF assms(1)]) (simp_all only: unpack_byte list.size)
    have a: "and (int n) 127 = int n" "and (int n) 128 = 0" using True byte_bits [of "int n"] by simp_all
    have "decodes r (var_string_loop P fuel bits acc) ([word_of_nat n] @ []) (acc + push_bit bits (int n))"
      unfolding f var_string_loop.simps
      by (intro decodes_bind [OF d]) (simp add: a decodes_ret Let_def or_push_bit(1) [OF "1.prems"(2,3)])
    with True show ?thesis by (simp add: put_varlen.simps [of n])
  next
    case False
    let ?v = "128 + int (n mod 128)"
    have v: "0 \<le> ?v" "?v < 256" by simp_all
    have "uint (word_of_nat (128 + n mod 128) :: byte) = ?v"
      using uint_byte_of_nat [of "128 + n mod 128"] v by (simp only: of_nat_add of_nat_numeral)
    then have d: "decodes r (unpacked P 1 (unpack_uint_be 1)) [word_of_nat (128 + n mod 128)] ?v"
      by (intro decodes_unpacked [OF assms(1)]) (simp_all only: unpack_byte list.size)
    let ?acc = "acc + push_bit bits (int (n mod 128))"
    have "and ?v 127 = int (n mod 128)" "and ?v 128 \<noteq> 0" using byte_bits [OF v] by simp_all
    then have o: "or acc (push_bit bits (and ?v 127)) = ?acc" by (simp add: or_push_bit(1) [OF "1.prems"(2,3)])
    have "int (n mod 128) * 2 ^ bits \<le> 127 * 2 ^ bits" by (intro mult_right_mono) (simp_all add: of_nat_mod)
    then have "acc + int (n mod 128) * 2 ^ bits < 128 * 2 ^ bits" using "1.prems"(3) by linarith
    then have acc: "0 \<le> ?acc" "?acc < 2 ^ (bits + 7)" using "1.prems"(2)
      by (simp_all add: power_add push_bit_eq_mult)
    have "length (put_varlen (n div 128)) \<le> f"
      using "1.prems"(1) False by (simp add: put_varlen.simps [of n] f)
    from "1.IH" [OF False this acc]
    have "decodes r (var_string_loop P f (bits + 7) ?acc) (put_varlen (n div 128)) (?acc + push_bit (bits + 7) (int (n div 128)))" .
    moreover have "?acc + push_bit (bits + 7) (int (n div 128)) = acc + push_bit bits (int n)"
    proof -
      have "int n = int (n mod 128) + 128 * int (n div 128)" by presburger
      then show ?thesis by (simp add: push_bit_eq_mult power_add algebra_simps)
    qed
    ultimately have "decodes r (var_string_loop P fuel bits acc)
        ([word_of_nat (128 + n mod 128)] @ put_varlen (n div 128)) (acc + push_bit bits (int n))"
      unfolding f var_string_loop.simps using \<open>and ?v 128 \<noteq> 0\<close> o
      by (intro decodes_bind [OF d]) (simp add: Let_def)
    with False show ?thesis by (simp add: put_varlen.simps [of n])
  qed
qed

lemma decodes_fuelled:
  assumes "packet_laws P r" and loop: "\<And>fuel. length b \<le> fuel \<Longrightarrow> decodes r (loop fuel) b v"
  shows "decodes r (\<lambda>w. loop (fuel_of P w) w) b v"
  unfolding decodes_def
proof (intro allI impI)
  fix w z assume w: "rest r w = b @ z"
  then have "length b \<le> length (rest r w)" by simp
  also have "\<dots> \<le> fuel_of P w" using assms(1) by (simp add: fuel_of_def rest_def packet_laws_def)
  finally show "\<exists>w'. loop (fuel_of P w) w = (Inr v, w') \<and> rest r w' = z \<and> read_bytes w' = read_bytes w + int (length b)"
    using loop w unfolding decodes_def by blast
qed

lemma variable_length_string_decodes:
  assumes "packet_laws P r"
  shows "decodes r (read_variable_length_string P) (put_varlen (length b) @ b) b"
  unfolding read_variable_length_string_def
proof (rule decodes_bind)
  show "decodes r (\<lambda>w. var_string_loop P (fuel_of P w) 0 0 w) (put_varlen (length b)) (int (length b))"
  proof (rule decodes_fuelled [OF assms, where loop = "\<lambda>f. var_string_loop P f 0 0"])
    fix fuel assume "length (put_varlen (length b)) \<le> fuel"
    from var_string_loop_decodes [OF assms this, of 0 0]
    show "decodes r (var_string_loop P fuel 0 0) (put_varlen (length b)) (int (length b))" by simp
  qed
  show "decodes r (read P (int (length b))) b b" by (simp add: decodes_read [OF assms])
qed

lemma string_loop_decodes:
  assumes "packet_laws P r" "Suc (length b) \<le> fuel" "0 \<notin> set b"
  shows "decodes r (string_loop P fuel acc) (b @ [0]) (acc @ b)"
  using assms(2,3)
proof (induction b arbitrary: fuel acc)
  case Nil
  then obtain f where f: "fuel = Suc f" by (cases fuel) simp_all
  have "decodes r (string_loop P fuel acc) ([0] @ []) acc"
    unfolding f string_loop.simps by (rule decodes_bind [OF decodes_read [OF assms(1)]]) (simp_all add: decodes_ret)
  then show ?case by simp
next
  case (Cons c b)
  then obtain f where f: "fuel = Suc f" "Suc (length b) \<le> f" by (cases fuel) simp_all
  have "decodes r (string_loop P fuel acc) ([c] @ (b @ [0])) (acc @ c # b)"
    unfolding f string_loop.simps using Cons.IH [OF f(2), of "acc @ [c]"] Cons.prems(2)
    by (intro decodes_bind [OF decodes_read [OF assms(1)]]) auto
  then show ?case by simp
qed

lemma string_decodes:
  assumes "packet_laws P r" "0 \<notin> set b"
  shows "decodes r (read_string P) (b @ [0]) b"
  unfolding read_string_def using string_loop_decodes [OF assms(1) _ assms(2), of _ "[]"]
  by (intro decodes_fuelled [OF assms(1), where loop = "\<lambda>f. string_loop P f []"]) simp

lemma unpack_int24_le:
  assumes "0 \<le> v" "v < 256 ^ 3"
  shows "unpack_int24 (le_bytes 3 v) = Inr v"
proof -
  have "le_val (le_bytes 3 v) = v" using assms by (rule le_val_le_bytes)
  then show ?thesis
    by (simp add: unpack_int24_def index_at_def numeral_3_eq_3 push_bit_eq_mult algebra_simps del: le_val.simps)
      (simp add: algebra_simps)
qed

lemma length_coded_binary_decodes:
  assumes "packet_laws P r" "0 \<le> n" "n < 2 ^ 24"
  shows "decodes r (read_length_coded_binary P) (put_length n) (Some n)"
proof -
  note u = decodes_unpacked [OF assms(1)]
  have first: "decodes r (unpacked P 1 (unpack_uint_be 1)) [b] (uint b)" for b
    by (intro u) (simp_all only: unpack_byte list.size)
  consider "n < 251" | "251 \<le> n" "n < 2 ^ 16" | "2 ^ 16 \<le> n" using assms(2) by linarith
  then show ?thesis
  proof cases
    case 1
    then have "uint (word_of_int n :: byte) = n" using assms by (simp add: uint_word_of_int)
    with first [of "word_of_int n"] have f: "decodes r (unpacked P 1 (unpack_uint_be 1)) [word_of_int n] n" by simp
    have "decodes r (read_length_coded_binary P) ([word_of_int n] @ []) (Some n)"
      unfolding read_length_coded_binary_def by (rule decodes_bind [OF f]) (use 1 in \<open>simp add: decodes_ret\<close>)
    with 1 show ?thesis using assms by (simp add: put_length_def)
  next
    case 2
    have "decodes r (unpacked P 2 unpack_uint16) (le_bytes 2 n) n"
      using 2 assms le_val_le_bytes [of n 2] by (intro u) (simp_all add: unpack_uint16_def unpack_val)
    then have "decodes r (read_length_coded_binary P) ([252] @ le_bytes 2 n) (Some n)"
      unfolding read_length_coded_binary_def by (intro decodes_bind [OF first]) (auto intro: decodes_map)
    with 2 show ?thesis by (simp add: put_length_def)
  next
    case 3
    have "decodes r (unpacked P 3 unpack_int24) (le_bytes 3 n) n"
      using 3 assms unpack_int24_le [of n] by (intro u) simp_all
    then have "decodes r (read_length_coded_binary P) ([253] @ le_bytes 3 n) (Some n)"
      unfolding read_length_coded_binary_def by (intro decodes_bind [OF first]) (auto intro: decodes_map)
    with 3 assms show ?thesis by (simp add: put_length_def)
  qed
qed

section \<open>Properties\<close>

text \<open>A packet over a list of bytes, as PyMySQL's packet is one over its buffer.\<close>

definition list_packet :: "bytes packet_ops" where
  "list_packet = \<lparr>
     p_read = (\<lambda>n p. if n \<le> int (length p) then (Inr (take (nat n) p), drop (nat n) p) else (Inl AssertionError, p)),
     p_advance = (\<lambda>n p. (Inr (), drop (nat n) p)),
     p_left = (\<lambda>p. int (length p))\<rparr>"

lemma list_packet_laws: "packet_laws list_packet (\<lambda>p. p)"
  by (simp add: packet_laws_def list_packet_def)

text \<open>When the packet delivers its bytes in order, each fixed-width reader of the wrapper consumes
  exactly the bytes of its width and returns the number they denote: little-endian and unsigned for 1 to
  8 bytes, big-endian and signed for 1 to 4 bytes, big-endian and unsigned for 5 bytes; a read beyond the
  end raises.\<close>

theorem packet_integers_exact:
  assumes "packet_laws P r"
  shows "(1 \<le> length d \<and> length d \<le> 8 \<longrightarrow>
       decodes r (read_uint_by_size P (int (length d))) d (Some (le_val d)))
   \<and> (length d \<in> {1, 2, 3, 4, 5} \<longrightarrow>
       decodes r (read_int_be_by_size P (int (length d))) d
         (Some (if length d = 5 then be_val d else signed_val (length d) (be_val d))))
   \<and> (int (length (rest r w)) < n \<longrightarrow> fst (read P n w) = Inl AssertionError)"
  using read_uint_by_size_decodes [OF assms, of d] read_int_be_by_size_decodes [OF assms, of d]
    read_short [OF assms, of w n] by auto

theorem packet_integers_exact_witness:
  "decodes (\<lambda>p. p) (read_uint_by_size list_packet 3) [1, 0, 1] (Some 65537)
   \<and> decodes (\<lambda>p. p) (read_int_be_by_size list_packet 2) [255, 254] (Some (- 2))
   \<and> fst (read list_packet 2 \<lparr>read_bytes = 0, data_buffer = [7], packet = []\<rparr>) = Inl AssertionError"
  using packet_integers_exact [OF list_packet_laws, of "[1, 0, 1]"]
    packet_integers_exact [OF list_packet_laws, of "[255, 254]"
      "\<lparr>read_bytes = 0, data_buffer = [7], packet = []\<rparr>" 2]
  by (simp add: rest_def be_val_def signed_val_def)



end
