(* ===== verification/Charset.thy ===== *)
theory Charset
  imports Py_Value
begin

text \<open>
  \<open>pymysqlreplication/constants/CHARSET.py\<close>: the table of character sets of MySQL and MariaDB, the two
  dictionaries it is stored in, and the lookups by id and by name; \<open>find_charset\<close> of \<open>row_event.py\<close>
  is the client. The table has one definition per block of at most 150 lines of the source.

  The lemmas show that no entry of the table overwrites another one, so that the dictionaries represent
  the whole table: the ids of each system increase, and no name has two default collations.
\<close>

section \<open>Definitions\<close>

record charset =
  cs_id :: int
  cs_name :: string
  cs_collation :: string
  cs_is_default :: bool
  cs_dbms :: string

definition charset_init :: "int \<Rightarrow> string \<Rightarrow> string \<Rightarrow> bool \<Rightarrow> string \<Rightarrow> charset" where
  "charset_init i n c d s = \<lparr>cs_id = i, cs_name = n, cs_collation = c, cs_is_default = d, cs_dbms = s\<rparr>"

definition charset_encoding :: "charset \<Rightarrow> string" where
  "charset_encoding c =
     (if cs_name c \<in> {''utf8mb4'', ''utf8mb3''} then ''utf8''
      else if cs_name c = ''latin1'' then ''cp1252''
      else if cs_name c = ''koi8r'' then ''koi8_r''
      else if cs_name c = ''koi8u'' then ''koi8_u''
      else cs_name c)"

definition charset_is_binary :: "charset \<Rightarrow> bool" where
  "charset_is_binary c = (cs_id c = 63)"

record charsets =
  cs_by_id :: "string \<rightharpoonup> int \<rightharpoonup> charset"
  cs_by_name :: "string \<rightharpoonup> string \<rightharpoonup> charset"

definition charsets_init :: charsets where
  "charsets_init = \<lparr>cs_by_id = Map.empty, cs_by_name = Map.empty\<rparr>"

text \<open>\<open>defaultdict(dict)\<close>: an absent key stands for the empty dictionary when it is assigned to.\<close>

definition inner_dict :: "('a \<rightharpoonup> 'b \<rightharpoonup> 'c) \<Rightarrow> 'a \<Rightarrow> 'b \<rightharpoonup> 'c" where
  "inner_dict d k = (case d k of None \<Rightarrow> Map.empty | Some e \<Rightarrow> e)"

definition charsets_add :: "charset \<Rightarrow> charsets \<Rightarrow> charsets" where
  "charsets_add c s =
     (let s1 = s\<lparr>cs_by_id := (cs_by_id s)(cs_dbms c \<mapsto> (inner_dict (cs_by_id s) (cs_dbms c))(cs_id c \<mapsto> c))\<rparr>
      in if cs_is_default c
         then s1\<lparr>cs_by_name := (cs_by_name s1)(cs_dbms c \<mapsto> (inner_dict (cs_by_name s1) (cs_dbms c))(cs_name c \<mapsto> c))\<rparr>
         else s1)"

definition by_id :: "charsets \<Rightarrow> string \<Rightarrow> string \<Rightarrow> charset option res" where
  "by_id s i dbms = bind_res (py_int 10 i) (\<lambda>n. Inr (inner_dict (cs_by_id s) dbms n))"

definition by_name :: "charsets \<Rightarrow> string \<Rightarrow> string \<Rightarrow> charset option" where
  "by_name s n dbms =
     (let n1 = (if n = ''utf8'' then ''utf8mb4'' else n)
      in inner_dict (cs_by_name s) dbms (map to_lower n1))"

definition charset_table_1 :: "charset list" where
  "charset_table_1 = [
    charset_init 1 ''big5'' ''big5_chinese_ci'' True ''mysql'',
    charset_init 2 ''latin2'' ''latin2_czech_cs'' False ''mysql'',
    charset_init 3 ''dec8'' ''dec8_swedish_ci'' True ''mysql'',
    charset_init 4 ''cp850'' ''cp850_general_ci'' True ''mysql'',
    charset_init 5 ''latin1'' ''latin1_german1_ci'' False ''mysql'',
    charset_init 6 ''hp8'' ''hp8_english_ci'' True ''mysql'',
    charset_init 7 ''koi8r'' ''koi8r_general_ci'' True ''mysql'',
    charset_init 8 ''latin1'' ''latin1_swedish_ci'' True ''mysql'',
    charset_init 9 ''latin2'' ''latin2_general_ci'' True ''mysql'',
    charset_init 10 ''swe7'' ''swe7_swedish_ci'' True ''mysql'',
    charset_init 11 ''ascii'' ''ascii_general_ci'' True ''mysql'',
    charset_init 12 ''ujis'' ''ujis_japanese_ci'' True ''mysql'',
    charset_init 13 ''sjis'' ''sjis_japanese_ci'' True ''mysql'',
    charset_init 14 ''cp1251'' ''cp1251_bulgarian_ci'' False ''mysql'',
    charset_init 15 ''latin1'' ''latin1_danish_ci'' False ''mysql'',
    charset_init 16 ''hebrew'' ''hebrew_general_ci'' True ''mysql'',
    charset_init 18 ''tis620'' ''tis620_thai_ci'' True ''mysql'',
    charset_init 19 ''euckr'' ''euckr_korean_ci'' True ''mysql'',
    charset_init 20 ''latin7'' ''latin7_estonian_cs'' False ''mysql'',
    charset_init 21 ''latin2'' ''latin2_hungarian_ci'' False ''mysql'',
    charset_init 22 ''koi8u'' ''koi8u_general_ci'' True ''mysql'',
    charset_init 23 ''cp1251'' ''cp1251_ukrainian_ci'' False ''mysql'',
    charset_init 24 ''gb2312'' ''gb2312_chinese_ci'' True ''mysql'',
    charset_init 25 ''greek'' ''greek_general_ci'' True ''mysql'']"

definition charset_table_2 :: "charset list" where
  "charset_table_2 = [
    charset_init 26 ''cp1250'' ''cp1250_general_ci'' True ''mysql'',
    charset_init 27 ''latin2'' ''latin2_croatian_ci'' False ''mysql'',
    charset_init 28 ''gbk'' ''gbk_chinese_ci'' True ''mysql'',
    charset_init 29 ''cp1257'' ''cp1257_lithuanian_ci'' False ''mysql'',
    charset_init 30 ''latin5'' ''latin5_turkish_ci'' True ''mysql'',
    charset_init 31 ''latin1'' ''latin1_german2_ci'' False ''mysql'',
    charset_init 32 ''armscii8'' ''armscii8_general_ci'' True ''mysql'',
    charset_init 33 ''utf8mb3'' ''utf8mb3_general_ci'' True ''mysql'',
    charset_init 34 ''cp1250'' ''cp1250_czech_cs'' False ''mysql'',
    charset_init 35 ''ucs2'' ''ucs2_general_ci'' True ''mysql'',
    charset_init 36 ''cp866'' ''cp866_general_ci'' True ''mysql'',
    charset_init 37 ''keybcs2'' ''keybcs2_general_ci'' True ''mysql'',
    charset_init 38 ''macce'' ''macce_general_ci'' True ''mysql'',
    charset_init 39 ''macroman'' ''macroman_general_ci'' True ''mysql'',
    charset_init 40 ''cp852'' ''cp852_general_ci'' True ''mysql'',
    charset_init 41 ''latin7'' ''latin7_general_ci'' True ''mysql'',
    charset_init 42 ''latin7'' ''latin7_general_cs'' False ''mysql'',
    charset_init 43 ''macce'' ''macce_bin'' False ''mysql'',
    charset_init 44 ''cp1250'' ''cp1250_croatian_ci'' False ''mysql'',
    charset_init 45 ''utf8mb4'' ''utf8mb4_general_ci'' False ''mysql'',
    charset_init 46 ''utf8mb4'' ''utf8mb4_bin'' False ''mysql'',
    charset_init 47 ''latin1'' ''latin1_bin'' False ''mysql'',
    charset_init 48 ''latin1'' ''latin1_general_ci'' False ''mysql'',
    charset_init 49 ''latin1'' ''latin1_general_cs'' False ''mysql'']"

definition charset_table_3 :: "charset list" where
  "charset_table_3 = [
    charset_init 50 ''cp1251'' ''cp1251_bin'' False ''mysql'',
    charset_init 51 ''cp1251'' ''cp1251_general_ci'' True ''mysql'',
    charset_init 52 ''cp1251'' ''cp1251_general_cs'' False ''mysql'',
    charset_init 53 ''macroman'' ''macroman_bin'' False ''mysql'',
    charset_init 54 ''utf16'' ''utf16_general_ci'' True ''mysql'',
    charset_init 55 ''utf16'' ''utf16_bin'' False ''mysql'',
    charset_init 56 ''utf16le'' ''utf16le_general_ci'' True ''mysql'',
    charset_init 57 ''cp1256'' ''cp1256_general_ci'' True ''mysql'',
    charset_init 58 ''cp1257'' ''cp1257_bin'' False ''mysql'',
    charset_init 59 ''cp1257'' ''cp1257_general_ci'' True ''mysql'',
    charset_init 60 ''utf32'' ''utf32_general_ci'' True ''mysql'',
    charset_init 61 ''utf32'' ''utf32_bin'' False ''mysql'',
    charset_init 62 ''utf16le'' ''utf16le_bin'' False ''mysql'',
    charset_init 63 ''binary'' ''binary'' True ''mysql'',
    charset_init 64 ''armscii8'' ''armscii8_bin'' False ''mysql'',
    charset_init 65 ''ascii'' ''ascii_bin'' False ''mysql'',
    charset_init 66 ''cp1250'' ''cp1250_bin'' False ''mysql'',
    charset_init 67 ''cp1256'' ''cp1256_bin'' False ''mysql'',
    charset_init 68 ''cp866'' ''cp866_bin'' False ''mysql'',
    charset_init 69 ''dec8'' ''dec8_bin'' False ''mysql'',
    charset_init 70 ''greek'' ''greek_bin'' False ''mysql'',
    charset_init 71 ''hebrew'' ''hebrew_bin'' False ''mysql'',
    charset_init 72 ''hp8'' ''hp8_bin'' False ''mysql'',
    charset_init 73 ''keybcs2'' ''keybcs2_bin'' False ''mysql'']"

definition charset_table_4 :: "charset list" where
  "charset_table_4 = [
    charset_init 74 ''koi8r'' ''koi8r_bin'' False ''mysql'',
    charset_init 75 ''koi8u'' ''koi8u_bin'' False ''mysql'',
    charset_init 76 ''utf8mb3'' ''utf8mb3_tolower_ci'' False ''mysql'',
    charset_init 77 ''latin2'' ''latin2_bin'' False ''mysql'',
    charset_init 78 ''latin5'' ''latin5_bin'' False ''mysql'',
    charset_init 79 ''latin7'' ''latin7_bin'' False ''mysql'',
    charset_init 80 ''cp850'' ''cp850_bin'' False ''mysql'',
    charset_init 81 ''cp852'' ''cp852_bin'' False ''mysql'',
    charset_init 82 ''swe7'' ''swe7_bin'' False ''mysql'',
    charset_init 83 ''utf8mb3'' ''utf8mb3_bin'' False ''mysql'',
    charset_init 84 ''big5'' ''big5_bin'' False ''mysql'',
    charset_init 85 ''euckr'' ''euckr_bin'' False ''mysql'',
    charset_init 86 ''gb2312'' ''gb2312_bin'' False ''mysql'',
    charset_init 87 ''gbk'' ''gbk_bin'' False ''mysql'',
    charset_init 88 ''sjis'' ''sjis_bin'' False ''mysql'',
    charset_init 89 ''tis620'' ''tis620_bin'' False ''mysql'',
    charset_init 90 ''ucs2'' ''ucs2_bin'' False ''mysql'',
    charset_init 91 ''ujis'' ''ujis_bin'' False ''mysql'',
    charset_init 92 ''geostd8'' ''geostd8_general_ci'' True ''mysql'',
    charset_init 93 ''geostd8'' ''geostd8_bin'' False ''mysql'',
    charset_init 94 ''latin1'' ''latin1_spanish_ci'' False ''mysql'',
    charset_init 95 ''cp932'' ''cp932_japanese_ci'' True ''mysql'',
    charset_init 96 ''cp932'' ''cp932_bin'' False ''mysql'',
    charset_init 97 ''eucjpms'' ''eucjpms_japanese_ci'' True ''mysql'']"

definition charset_table_5 :: "charset list" where
  "charset_table_5 = [
    charset_init 98 ''eucjpms'' ''eucjpms_bin'' False ''mysql'',
    charset_init 99 ''cp1250'' ''cp1250_polish_ci'' False ''mysql'',
    charset_init 101 ''utf16'' ''utf16_unicode_ci'' False ''mysql'',
    charset_init 102 ''utf16'' ''utf16_icelandic_ci'' False ''mysql'',
    charset_init 103 ''utf16'' ''utf16_latvian_ci'' False ''mysql'',
    charset_init 104 ''utf16'' ''utf16_romanian_ci'' False ''mysql'',
    charset_init 105 ''utf16'' ''utf16_slovenian_ci'' False ''mysql'',
    charset_init 106 ''utf16'' ''utf16_polish_ci'' False ''mysql'',
    charset_init 107 ''utf16'' ''utf16_estonian_ci'' False ''mysql'',
    charset_init 108 ''utf16'' ''utf16_spanish_ci'' False ''mysql'',
    charset_init 109 ''utf16'' ''utf16_swedish_ci'' False ''mysql'',
    charset_init 110 ''utf16'' ''utf16_turkish_ci'' False ''mysql'',
    charset_init 111 ''utf16'' ''utf16_czech_ci'' False ''mysql'',
    charset_init 112 ''utf16'' ''utf16_danish_ci'' False ''mysql'',
    charset_init 113 ''utf16'' ''utf16_lithuanian_ci'' False ''mysql'',
    charset_init 114 ''utf16'' ''utf16_slovak_ci'' False ''mysql'',
    charset_init 115 ''utf16'' ''utf16_spanish2_ci'' False ''mysql'',
    charset_init 116 ''utf16'' ''utf16_roman_ci'' False ''mysql'',
    charset_init 117 ''utf16'' ''utf16_persian_ci'' False ''mysql'',
    charset_init 118 ''utf16'' ''utf16_esperanto_ci'' False ''mysql'',
    charset_init 119 ''utf16'' ''utf16_hungarian_ci'' False ''mysql'',
    charset_init 120 ''utf16'' ''utf16_sinhala_ci'' False ''mysql'',
    charset_init 121 ''utf16'' ''utf16_german2_ci'' False ''mysql'',
    charset_init 122 ''utf16'' ''utf16_croatian_ci'' False ''mysql'']"

definition charset_table_6 :: "charset list" where
  "charset_table_6 = [
    charset_init 123 ''utf16'' ''utf16_unicode_520_ci'' False ''mysql'',
    charset_init 124 ''utf16'' ''utf16_vietnamese_ci'' False ''mysql'',
    charset_init 128 ''ucs2'' ''ucs2_unicode_ci'' False ''mysql'',
    charset_init 129 ''ucs2'' ''ucs2_icelandic_ci'' False ''mysql'',
    charset_init 130 ''ucs2'' ''ucs2_latvian_ci'' False ''mysql'',
    charset_init 131 ''ucs2'' ''ucs2_romanian_ci'' False ''mysql'',
    charset_init 132 ''ucs2'' ''ucs2_slovenian_ci'' False ''mysql'',
    charset_init 133 ''ucs2'' ''ucs2_polish_ci'' False ''mysql'',
    charset_init 134 ''ucs2'' ''ucs2_estonian_ci'' False ''mysql'',
    charset_init 135 ''ucs2'' ''ucs2_spanish_ci'' False ''mysql'',
    charset_init 136 ''ucs2'' ''ucs2_swedish_ci'' False ''mysql'',
    charset_init 137 ''ucs2'' ''ucs2_turkish_ci'' False ''mysql'',
    charset_init 138 ''ucs2'' ''ucs2_czech_ci'' False ''mysql'',
    charset_init 139 ''ucs2'' ''ucs2_danish_ci'' False ''mysql'',
    charset_init 140 ''ucs2'' ''ucs2_lithuanian_ci'' False ''mysql'',
    charset_init 141 ''ucs2'' ''ucs2_slovak_ci'' False ''mysql'',
    charset_init 142 ''ucs2'' ''ucs2_spanish2_ci'' False ''mysql'',
    charset_init 143 ''ucs2'' ''ucs2_roman_ci'' False ''mysql'',
    charset_init 144 ''ucs2'' ''ucs2_persian_ci'' False ''mysql'',
    charset_init 145 ''ucs2'' ''ucs2_esperanto_ci'' False ''mysql'',
    charset_init 146 ''ucs2'' ''ucs2_hungarian_ci'' False ''mysql'',
    charset_init 147 ''ucs2'' ''ucs2_sinhala_ci'' False ''mysql'',
    charset_init 148 ''ucs2'' ''ucs2_german2_ci'' False ''mysql'',
    charset_init 149 ''ucs2'' ''ucs2_croatian_ci'' False ''mysql'']"

definition charset_table_7 :: "charset list" where
  "charset_table_7 = [
    charset_init 150 ''ucs2'' ''ucs2_unicode_520_ci'' False ''mysql'',
    charset_init 151 ''ucs2'' ''ucs2_vietnamese_ci'' False ''mysql'',
    charset_init 159 ''ucs2'' ''ucs2_general_mysql500_ci'' False ''mysql'',
    charset_init 160 ''utf32'' ''utf32_unicode_ci'' False ''mysql'',
    charset_init 161 ''utf32'' ''utf32_icelandic_ci'' False ''mysql'',
    charset_init 162 ''utf32'' ''utf32_latvian_ci'' False ''mysql'',
    charset_init 163 ''utf32'' ''utf32_romanian_ci'' False ''mysql'',
    charset_init 164 ''utf32'' ''utf32_slovenian_ci'' False ''mysql'',
    charset_init 165 ''utf32'' ''utf32_polish_ci'' False ''mysql'',
    charset_init 166 ''utf32'' ''utf32_estonian_ci'' False ''mysql'',
    charset_init 167 ''utf32'' ''utf32_spanish_ci'' False ''mysql'',
    charset_init 168 ''utf32'' ''utf32_swedish_ci'' False ''mysql'',
    charset_init 169 ''utf32'' ''utf32_turkish_ci'' False ''mysql'',
    charset_init 170 ''utf32'' ''utf32_czech_ci'' False ''mysql'',
    charset_init 171 ''utf32'' ''utf32_danish_ci'' False ''mysql'',
    charset_init 172 ''utf32'' ''utf32_lithuanian_ci'' False ''mysql'',
    charset_init 173 ''utf32'' ''utf32_slovak_ci'' False ''mysql'',
    charset_init 174 ''utf32'' ''utf32_spanish2_ci'' False ''mysql'',
    charset_init 175 ''utf32'' ''utf32_roman_ci'' False ''mysql'',
    charset_init 176 ''utf32'' ''utf32_persian_ci'' False ''mysql'',
    charset_init 177 ''utf32'' ''utf32_esperanto_ci'' False ''mysql'',
    charset_init 178 ''utf32'' ''utf32_hungarian_ci'' False ''mysql'',
    charset_init 179 ''utf32'' ''utf32_sinhala_ci'' False ''mysql'',
    charset_init 180 ''utf32'' ''utf32_german2_ci'' False ''mysql'']"

definition charset_table_8 :: "charset list" where
  "charset_table_8 = [
    charset_init 181 ''utf32'' ''utf32_croatian_ci'' False ''mysql'',
    charset_init 182 ''utf32'' ''utf32_unicode_520_ci'' False ''mysql'',
    charset_init 183 ''utf32'' ''utf32_vietnamese_ci'' False ''mysql'',
    charset_init 192 ''utf8mb3'' ''utf8mb3_unicode_ci'' False ''mysql'',
    charset_init 193 ''utf8mb3'' ''utf8mb3_icelandic_ci'' False ''mysql'',
    charset_init 194 ''utf8mb3'' ''utf8mb3_latvian_ci'' False ''mysql'',
    charset_init 195 ''utf8mb3'' ''utf8mb3_romanian_ci'' False ''mysql'',
    charset_init 196 ''utf8mb3'' ''utf8mb3_slovenian_ci'' False ''mysql'',
    charset_init 197 ''utf8mb3'' ''utf8mb3_polish_ci'' False ''mysql'',
    charset_init 198 ''utf8mb3'' ''utf8mb3_estonian_ci'' False ''mysql'',
    charset_init 199 ''utf8mb3'' ''utf8mb3_spanish_ci'' False ''mysql'',
    charset_init 200 ''utf8mb3'' ''utf8mb3_swedish_ci'' False ''mysql'',
    charset_init 201 ''utf8mb3'' ''utf8mb3_turkish_ci'' False ''mysql'',
    charset_init 202 ''utf8mb3'' ''utf8mb3_czech_ci'' False ''mysql'',
    charset_init 203 ''utf8mb3'' ''utf8mb3_danish_ci'' False ''mysql'',
    charset_init 204 ''utf8mb3'' ''utf8mb3_lithuanian_ci'' False ''mysql'',
    charset_init 205 ''utf8mb3'' ''utf8mb3_slovak_ci'' False ''mysql'',
    charset_init 206 ''utf8mb3'' ''utf8mb3_spanish2_ci'' False ''mysql'',
    charset_init 207 ''utf8mb3'' ''utf8mb3_roman_ci'' False ''mysql'',
    charset_init 208 ''utf8mb3'' ''utf8mb3_persian_ci'' False ''mysql'',
    charset_init 209 ''utf8mb3'' ''utf8mb3_esperanto_ci'' False ''mysql'',
    charset_init 210 ''utf8mb3'' ''utf8mb3_hungarian_ci'' False ''mysql'',
    charset_init 211 ''utf8mb3'' ''utf8mb3_sinhala_ci'' False ''mysql'',
    charset_init 212 ''utf8mb3'' ''utf8mb3_german2_ci'' False ''mysql'']"

definition charset_table_9 :: "charset list" where
  "charset_table_9 = [
    charset_init 213 ''utf8mb3'' ''utf8mb3_croatian_ci'' False ''mysql'',
    charset_init 214 ''utf8mb3'' ''utf8mb3_unicode_520_ci'' False ''mysql'',
    charset_init 215 ''utf8mb3'' ''utf8mb3_vietnamese_ci'' False ''mysql'',
    charset_init 223 ''utf8mb3'' ''utf8mb3_general_mysql500_ci'' False ''mysql'',
    charset_init 224 ''utf8mb4'' ''utf8mb4_unicode_ci'' False ''mysql'',
    charset_init 225 ''utf8mb4'' ''utf8mb4_icelandic_ci'' False ''mysql'',
    charset_init 226 ''utf8mb4'' ''utf8mb4_latvian_ci'' False ''mysql'',
    charset_init 227 ''utf8mb4'' ''utf8mb4_romanian_ci'' False ''mysql'',
    charset_init 228 ''utf8mb4'' ''utf8mb4_slovenian_ci'' False ''mysql'',
    charset_init 229 ''utf8mb4'' ''utf8mb4_polish_ci'' False ''mysql'',
    charset_init 230 ''utf8mb4'' ''utf8mb4_estonian_ci'' False ''mysql'',
    charset_init 231 ''utf8mb4'' ''utf8mb4_spanish_ci'' False ''mysql'',
    charset_init 232 ''utf8mb4'' ''utf8mb4_swedish_ci'' False ''mysql'',
    charset_init 233 ''utf8mb4'' ''utf8mb4_turkish_ci'' False ''mysql'',
    charset_init 234 ''utf8mb4'' ''utf8mb4_czech_ci'' False ''mysql'',
    charset_init 235 ''utf8mb4'' ''utf8mb4_danish_ci'' False ''mysql'',
    charset_init 236 ''utf8mb4'' ''utf8mb4_lithuanian_ci'' False ''mysql'',
    charset_init 237 ''utf8mb4'' ''utf8mb4_slovak_ci'' False ''mysql'',
    charset_init 238 ''utf8mb4'' ''utf8mb4_spanish2_ci'' False ''mysql'',
    charset_init 239 ''utf8mb4'' ''utf8mb4_roman_ci'' False ''mysql'',
    charset_init 240 ''utf8mb4'' ''utf8mb4_persian_ci'' False ''mysql'',
    charset_init 241 ''utf8mb4'' ''utf8mb4_esperanto_ci'' False ''mysql'',
    charset_init 242 ''utf8mb4'' ''utf8mb4_hungarian_ci'' False ''mysql'',
    charset_init 243 ''utf8mb4'' ''utf8mb4_sinhala_ci'' False ''mysql'']"

definition charset_table_10 :: "charset list" where
  "charset_table_10 = [
    charset_init 244 ''utf8mb4'' ''utf8mb4_german2_ci'' False ''mysql'',
    charset_init 245 ''utf8mb4'' ''utf8mb4_croatian_ci'' False ''mysql'',
    charset_init 246 ''utf8mb4'' ''utf8mb4_unicode_520_ci'' False ''mysql'',
    charset_init 247 ''utf8mb4'' ''utf8mb4_vietnamese_ci'' False ''mysql'',
    charset_init 248 ''gb18030'' ''gb18030_chinese_ci'' True ''mysql'',
    charset_init 249 ''gb18030'' ''gb18030_bin'' False ''mysql'',
    charset_init 250 ''gb18030'' ''gb18030_unicode_520_ci'' False ''mysql'',
    charset_init 255 ''utf8mb4'' ''utf8mb4_0900_ai_ci'' True ''mysql'',
    charset_init 256 ''utf8mb4'' ''utf8mb4_de_pb_0900_ai_ci'' False ''mysql'',
    charset_init 257 ''utf8mb4'' ''utf8mb4_is_0900_ai_ci'' False ''mysql'',
    charset_init 258 ''utf8mb4'' ''utf8mb4_lv_0900_ai_ci'' False ''mysql'',
    charset_init 259 ''utf8mb4'' ''utf8mb4_ro_0900_ai_ci'' False ''mysql'',
    charset_init 260 ''utf8mb4'' ''utf8mb4_sl_0900_ai_ci'' False ''mysql'',
    charset_init 261 ''utf8mb4'' ''utf8mb4_pl_0900_ai_ci'' False ''mysql'',
    charset_init 262 ''utf8mb4'' ''utf8mb4_et_0900_ai_ci'' False ''mysql'',
    charset_init 263 ''utf8mb4'' ''utf8mb4_es_0900_ai_ci'' False ''mysql'',
    charset_init 264 ''utf8mb4'' ''utf8mb4_sv_0900_ai_ci'' False ''mysql'',
    charset_init 265 ''utf8mb4'' ''utf8mb4_tr_0900_ai_ci'' False ''mysql'',
    charset_init 266 ''utf8mb4'' ''utf8mb4_cs_0900_ai_ci'' False ''mysql'',
    charset_init 267 ''utf8mb4'' ''utf8mb4_da_0900_ai_ci'' False ''mysql'',
    charset_init 268 ''utf8mb4'' ''utf8mb4_lt_0900_ai_ci'' False ''mysql'',
    charset_init 269 ''utf8mb4'' ''utf8mb4_sk_0900_ai_ci'' False ''mysql'',
    charset_init 270 ''utf8mb4'' ''utf8mb4_es_trad_0900_ai_ci'' False ''mysql'',
    charset_init 271 ''utf8mb4'' ''utf8mb4_la_0900_ai_ci'' False ''mysql'']"

definition charset_table_11 :: "charset list" where
  "charset_table_11 = [
    charset_init 273 ''utf8mb4'' ''utf8mb4_eo_0900_ai_ci'' False ''mysql'',
    charset_init 274 ''utf8mb4'' ''utf8mb4_hu_0900_ai_ci'' False ''mysql'',
    charset_init 275 ''utf8mb4'' ''utf8mb4_hr_0900_ai_ci'' False ''mysql'',
    charset_init 277 ''utf8mb4'' ''utf8mb4_vi_0900_ai_ci'' False ''mysql'',
    charset_init 278 ''utf8mb4'' ''utf8mb4_0900_as_cs'' False ''mysql'',
    charset_init 279 ''utf8mb4'' ''utf8mb4_de_pb_0900_as_cs'' False ''mysql'',
    charset_init 280 ''utf8mb4'' ''utf8mb4_is_0900_as_cs'' False ''mysql'',
    charset_init 281 ''utf8mb4'' ''utf8mb4_lv_0900_as_cs'' False ''mysql'',
    charset_init 282 ''utf8mb4'' ''utf8mb4_ro_0900_as_cs'' False ''mysql'',
    charset_init 283 ''utf8mb4'' ''utf8mb4_sl_0900_as_cs'' False ''mysql'',
    charset_init 284 ''utf8mb4'' ''utf8mb4_pl_0900_as_cs'' False ''mysql'',
    charset_init 285 ''utf8mb4'' ''utf8mb4_et_0900_as_cs'' False ''mysql'',
    charset_init 286 ''utf8mb4'' ''utf8mb4_es_0900_as_cs'' False ''mysql'',
    charset_init 287 ''utf8mb4'' ''utf8mb4_sv_0900_as_cs'' False ''mysql'',
    charset_init 288 ''utf8mb4'' ''utf8mb4_tr_0900_as_cs'' False ''mysql'',
    charset_init 289 ''utf8mb4'' ''utf8mb4_cs_0900_as_cs'' False ''mysql'',
    charset_init 290 ''utf8mb4'' ''utf8mb4_da_0900_as_cs'' False ''mysql'',
    charset_init 291 ''utf8mb4'' ''utf8mb4_lt_0900_as_cs'' False ''mysql'',
    charset_init 292 ''utf8mb4'' ''utf8mb4_sk_0900_as_cs'' False ''mysql'',
    charset_init 293 ''utf8mb4'' ''utf8mb4_es_trad_0900_as_cs'' False ''mysql'',
    charset_init 294 ''utf8mb4'' ''utf8mb4_la_0900_as_cs'' False ''mysql'',
    charset_init 296 ''utf8mb4'' ''utf8mb4_eo_0900_as_cs'' False ''mysql'',
    charset_init 297 ''utf8mb4'' ''utf8mb4_hu_0900_as_cs'' False ''mysql'',
    charset_init 298 ''utf8mb4'' ''utf8mb4_hr_0900_as_cs'' False ''mysql'']"

definition charset_table_12 :: "charset list" where
  "charset_table_12 = [
    charset_init 300 ''utf8mb4'' ''utf8mb4_vi_0900_as_cs'' False ''mysql'',
    charset_init 303 ''utf8mb4'' ''utf8mb4_ja_0900_as_cs'' False ''mysql'',
    charset_init 304 ''utf8mb4'' ''utf8mb4_ja_0900_as_cs_ks'' False ''mysql'',
    charset_init 305 ''utf8mb4'' ''utf8mb4_0900_as_ci'' False ''mysql'',
    charset_init 306 ''utf8mb4'' ''utf8mb4_ru_0900_ai_ci'' False ''mysql'',
    charset_init 307 ''utf8mb4'' ''utf8mb4_ru_0900_as_cs'' False ''mysql'',
    charset_init 308 ''utf8mb4'' ''utf8mb4_zh_0900_as_cs'' False ''mysql'',
    charset_init 309 ''utf8mb4'' ''utf8mb4_0900_bin'' False ''mysql'',
    charset_init 310 ''utf8mb4'' ''utf8mb4_nb_0900_ai_ci'' False ''mysql'',
    charset_init 311 ''utf8mb4'' ''utf8mb4_nb_0900_as_cs'' False ''mysql'',
    charset_init 312 ''utf8mb4'' ''utf8mb4_nn_0900_ai_ci'' False ''mysql'',
    charset_init 313 ''utf8mb4'' ''utf8mb4_nn_0900_as_cs'' False ''mysql'',
    charset_init 314 ''utf8mb4'' ''utf8mb4_sr_latn_0900_ai_ci'' False ''mysql'',
    charset_init 315 ''utf8mb4'' ''utf8mb4_sr_latn_0900_as_cs'' False ''mysql'',
    charset_init 316 ''utf8mb4'' ''utf8mb4_bs_0900_ai_ci'' False ''mysql'',
    charset_init 317 ''utf8mb4'' ''utf8mb4_bs_0900_as_cs'' False ''mysql'',
    charset_init 318 ''utf8mb4'' ''utf8mb4_bg_0900_ai_ci'' False ''mysql'',
    charset_init 319 ''utf8mb4'' ''utf8mb4_bg_0900_as_cs'' False ''mysql'',
    charset_init 320 ''utf8mb4'' ''utf8mb4_gl_0900_ai_ci'' False ''mysql'',
    charset_init 321 ''utf8mb4'' ''utf8mb4_gl_0900_as_cs'' False ''mysql'',
    charset_init 322 ''utf8mb4'' ''utf8mb4_mn_cyrl_0900_ai_ci'' False ''mysql'',
    charset_init 323 ''utf8mb4'' ''utf8mb4_mn_cyrl_0900_as_cs'' False ''mysql'']"

definition charset_table_13 :: "charset list" where
  "charset_table_13 = [
    charset_init 1 ''big5'' ''big5_chinese_ci'' True ''mariadb'',
    charset_init 2 ''latin2'' ''latin2_czech_cs'' False ''mariadb'',
    charset_init 3 ''dec8'' ''dec8_swedish_ci'' True ''mariadb'',
    charset_init 4 ''cp850'' ''cp850_general_ci'' True ''mariadb'',
    charset_init 5 ''latin1'' ''latin1_german1_ci'' False ''mariadb'',
    charset_init 6 ''hp8'' ''hp8_english_ci'' True ''mariadb'',
    charset_init 7 ''koi8r'' ''koi8r_general_ci'' True ''mariadb'',
    charset_init 8 ''latin1'' ''latin1_swedish_ci'' True ''mariadb'',
    charset_init 9 ''latin2'' ''latin2_general_ci'' True ''mariadb'',
    charset_init 10 ''swe7'' ''swe7_swedish_ci'' True ''mariadb'',
    charset_init 11 ''ascii'' ''ascii_general_ci'' True ''mariadb'',
    charset_init 12 ''ujis'' ''ujis_japanese_ci'' True ''mariadb'',
    charset_init 13 ''sjis'' ''sjis_japanese_ci'' True ''mariadb'',
    charset_init 14 ''cp1251'' ''cp1251_bulgarian_ci'' False ''mariadb'',
    charset_init 15 ''latin1'' ''latin1_danish_ci'' False ''mariadb'',
    charset_init 16 ''hebrew'' ''hebrew_general_ci'' True ''mariadb'',
    charset_init 18 ''tis620'' ''tis620_thai_ci'' True ''mariadb'',
    charset_init 19 ''euckr'' ''euckr_korean_ci'' True ''mariadb'',
    charset_init 20 ''latin7'' ''latin7_estonian_cs'' False ''mariadb'',
    charset_init 21 ''latin2'' ''latin2_hungarian_ci'' False ''mariadb'',
    charset_init 22 ''koi8u'' ''koi8u_general_ci'' True ''mariadb'',
    charset_init 23 ''cp1251'' ''cp1251_ukrainian_ci'' False ''mariadb'',
    charset_init 24 ''gb2312'' ''gb2312_chinese_ci'' True ''mariadb'']"

definition charset_table_14 :: "charset list" where
  "charset_table_14 = [
    charset_init 25 ''greek'' ''greek_general_ci'' True ''mariadb'',
    charset_init 26 ''cp1250'' ''cp1250_general_ci'' True ''mariadb'',
    charset_init 27 ''latin2'' ''latin2_croatian_ci'' False ''mariadb'',
    charset_init 28 ''gbk'' ''gbk_chinese_ci'' True ''mariadb'',
    charset_init 29 ''cp1257'' ''cp1257_lithuanian_ci'' False ''mariadb'',
    charset_init 30 ''latin5'' ''latin5_turkish_ci'' True ''mariadb'',
    charset_init 31 ''latin1'' ''latin1_german2_ci'' False ''mariadb'',
    charset_init 32 ''armscii8'' ''armscii8_general_ci'' True ''mariadb'',
    charset_init 33 ''utf8mb3'' ''utf8mb3_general_ci'' True ''mariadb'',
    charset_init 34 ''cp1250'' ''cp1250_czech_cs'' False ''mariadb'',
    charset_init 35 ''ucs2'' ''ucs2_general_ci'' True ''mariadb'',
    charset_init 36 ''cp866'' ''cp866_general_ci'' True ''mariadb'',
    charset_init 37 ''keybcs2'' ''keybcs2_general_ci'' True ''mariadb'',
    charset_init 38 ''macce'' ''macce_general_ci'' True ''mariadb'',
    charset_init 39 ''macroman'' ''macroman_general_ci'' True ''mariadb'',
    charset_init 40 ''cp852'' ''cp852_general_ci'' True ''mariadb'',
    charset_init 41 ''latin7'' ''latin7_general_ci'' True ''mariadb'',
    charset_init 42 ''latin7'' ''latin7_general_cs'' False ''mariadb'',
    charset_init 43 ''macce'' ''macce_bin'' False ''mariadb'',
    charset_init 44 ''cp1250'' ''cp1250_croatian_ci'' False ''mariadb'',
    charset_init 45 ''utf8mb4'' ''utf8mb4_general_ci'' True ''mariadb'',
    charset_init 46 ''utf8mb4'' ''utf8mb4_bin'' False ''mariadb'',
    charset_init 47 ''latin1'' ''latin1_bin'' False ''mariadb'']"

definition charset_table_15 :: "charset list" where
  "charset_table_15 = [
    charset_init 48 ''latin1'' ''latin1_general_ci'' False ''mariadb'',
    charset_init 49 ''latin1'' ''latin1_general_cs'' False ''mariadb'',
    charset_init 50 ''cp1251'' ''cp1251_bin'' False ''mariadb'',
    charset_init 51 ''cp1251'' ''cp1251_general_ci'' True ''mariadb'',
    charset_init 52 ''cp1251'' ''cp1251_general_cs'' False ''mariadb'',
    charset_init 53 ''macroman'' ''macroman_bin'' False ''mariadb'',
    charset_init 54 ''utf16'' ''utf16_general_ci'' True ''mariadb'',
    charset_init 55 ''utf16'' ''utf16_bin'' False ''mariadb'',
    charset_init 56 ''utf16le'' ''utf16le_general_ci'' True ''mariadb'',
    charset_init 57 ''cp1256'' ''cp1256_general_ci'' True ''mariadb'',
    charset_init 58 ''cp1257'' ''cp1257_bin'' False ''mariadb'',
    charset_init 59 ''cp1257'' ''cp1257_general_ci'' True ''mariadb'',
    charset_init 60 ''utf32'' ''utf32_general_ci'' True ''mariadb'',
    charset_init 61 ''utf32'' ''utf32_bin'' False ''mariadb'',
    charset_init 62 ''utf16le'' ''utf16le_bin'' False ''mariadb'',
    charset_init 63 ''binary'' ''binary'' True ''mariadb'',
    charset_init 64 ''armscii8'' ''armscii8_bin'' False ''mariadb'',
    charset_init 65 ''ascii'' ''ascii_bin'' False ''mariadb'',
    charset_init 66 ''cp1250'' ''cp1250_bin'' False ''mariadb'',
    charset_init 67 ''cp1256'' ''cp1256_bin'' False ''mariadb'',
    charset_init 68 ''cp866'' ''cp866_bin'' False ''mariadb'',
    charset_init 69 ''dec8'' ''dec8_bin'' False ''mariadb'',
    charset_init 70 ''greek'' ''greek_bin'' False ''mariadb'']"

definition charset_table_16 :: "charset list" where
  "charset_table_16 = [
    charset_init 71 ''hebrew'' ''hebrew_bin'' False ''mariadb'',
    charset_init 72 ''hp8'' ''hp8_bin'' False ''mariadb'',
    charset_init 73 ''keybcs2'' ''keybcs2_bin'' False ''mariadb'',
    charset_init 74 ''koi8r'' ''koi8r_bin'' False ''mariadb'',
    charset_init 75 ''koi8u'' ''koi8u_bin'' False ''mariadb'',
    charset_init 77 ''latin2'' ''latin2_bin'' False ''mariadb'',
    charset_init 78 ''latin5'' ''latin5_bin'' False ''mariadb'',
    charset_init 79 ''latin7'' ''latin7_bin'' False ''mariadb'',
    charset_init 80 ''cp850'' ''cp850_bin'' False ''mariadb'',
    charset_init 81 ''cp852'' ''cp852_bin'' False ''mariadb'',
    charset_init 82 ''swe7'' ''swe7_bin'' False ''mariadb'',
    charset_init 83 ''utf8mb3'' ''utf8mb3_bin'' False ''mariadb'',
    charset_init 84 ''big5'' ''big5_bin'' False ''mariadb'',
    charset_init 85 ''euckr'' ''euckr_bin'' False ''mariadb'',
    charset_init 86 ''gb2312'' ''gb2312_bin'' False ''mariadb'',
    charset_init 87 ''gbk'' ''gbk_bin'' False ''mariadb'',
    charset_init 88 ''sjis'' ''sjis_bin'' False ''mariadb'',
    charset_init 89 ''tis620'' ''tis620_bin'' False ''mariadb'',
    charset_init 90 ''ucs2'' ''ucs2_bin'' False ''mariadb'',
    charset_init 91 ''ujis'' ''ujis_bin'' False ''mariadb'',
    charset_init 92 ''geostd8'' ''geostd8_general_ci'' True ''mariadb'',
    charset_init 93 ''geostd8'' ''geostd8_bin'' False ''mariadb'',
    charset_init 94 ''latin1'' ''latin1_spanish_ci'' False ''mariadb'']"

definition charset_table_17 :: "charset list" where
  "charset_table_17 = [
    charset_init 95 ''cp932'' ''cp932_japanese_ci'' True ''mariadb'',
    charset_init 96 ''cp932'' ''cp932_bin'' False ''mariadb'',
    charset_init 97 ''eucjpms'' ''eucjpms_japanese_ci'' True ''mariadb'',
    charset_init 98 ''eucjpms'' ''eucjpms_bin'' False ''mariadb'',
    charset_init 99 ''cp1250'' ''cp1250_polish_ci'' False ''mariadb'',
    charset_init 101 ''utf16'' ''utf16_unicode_ci'' False ''mariadb'',
    charset_init 102 ''utf16'' ''utf16_icelandic_ci'' False ''mariadb'',
    charset_init 103 ''utf16'' ''utf16_latvian_ci'' False ''mariadb'',
    charset_init 104 ''utf16'' ''utf16_romanian_ci'' False ''mariadb'',
    charset_init 105 ''utf16'' ''utf16_slovenian_ci'' False ''mariadb'',
    charset_init 106 ''utf16'' ''utf16_polish_ci'' False ''mariadb'',
    charset_init 107 ''utf16'' ''utf16_estonian_ci'' False ''mariadb'',
    charset_init 108 ''utf16'' ''utf16_spanish_ci'' False ''mariadb'',
    charset_init 109 ''utf16'' ''utf16_swedish_ci'' False ''mariadb'',
    charset_init 110 ''utf16'' ''utf16_turkish_ci'' False ''mariadb'',
    charset_init 111 ''utf16'' ''utf16_czech_ci'' False ''mariadb'',
    charset_init 112 ''utf16'' ''utf16_danish_ci'' False ''mariadb'',
    charset_init 113 ''utf16'' ''utf16_lithuanian_ci'' False ''mariadb'',
    charset_init 114 ''utf16'' ''utf16_slovak_ci'' False ''mariadb'',
    charset_init 115 ''utf16'' ''utf16_spanish2_ci'' False ''mariadb'',
    charset_init 116 ''utf16'' ''utf16_roman_ci'' False ''mariadb'',
    charset_init 117 ''utf16'' ''utf16_persian_ci'' False ''mariadb'',
    charset_init 118 ''utf16'' ''utf16_esperanto_ci'' False ''mariadb'']"

definition charset_table_18 :: "charset list" where
  "charset_table_18 = [
    charset_init 119 ''utf16'' ''utf16_hungarian_ci'' False ''mariadb'',
    charset_init 120 ''utf16'' ''utf16_sinhala_ci'' False ''mariadb'',
    charset_init 121 ''utf16'' ''utf16_german2_ci'' False ''mariadb'',
    charset_init 122 ''utf16'' ''utf16_croatian_mysql561_ci'' False ''mariadb'',
    charset_init 123 ''utf16'' ''utf16_unicode_520_ci'' False ''mariadb'',
    charset_init 124 ''utf16'' ''utf16_vietnamese_ci'' False ''mariadb'',
    charset_init 128 ''ucs2'' ''ucs2_unicode_ci'' False ''mariadb'',
    charset_init 129 ''ucs2'' ''ucs2_icelandic_ci'' False ''mariadb'',
    charset_init 130 ''ucs2'' ''ucs2_latvian_ci'' False ''mariadb'',
    charset_init 131 ''ucs2'' ''ucs2_romanian_ci'' False ''mariadb'',
    charset_init 132 ''ucs2'' ''ucs2_slovenian_ci'' False ''mariadb'',
    charset_init 133 ''ucs2'' ''ucs2_polish_ci'' False ''mariadb'',
    charset_init 134 ''ucs2'' ''ucs2_estonian_ci'' False ''mariadb'',
    charset_init 135 ''ucs2'' ''ucs2_spanish_ci'' False ''mariadb'',
    charset_init 136 ''ucs2'' ''ucs2_swedish_ci'' False ''mariadb'',
    charset_init 137 ''ucs2'' ''ucs2_turkish_ci'' False ''mariadb'',
    charset_init 138 ''ucs2'' ''ucs2_czech_ci'' False ''mariadb'',
    charset_init 139 ''ucs2'' ''ucs2_danish_ci'' False ''mariadb'',
    charset_init 140 ''ucs2'' ''ucs2_lithuanian_ci'' False ''mariadb'',
    charset_init 141 ''ucs2'' ''ucs2_slovak_ci'' False ''mariadb'',
    charset_init 142 ''ucs2'' ''ucs2_spanish2_ci'' False ''mariadb'',
    charset_init 143 ''ucs2'' ''ucs2_roman_ci'' False ''mariadb'',
    charset_init 144 ''ucs2'' ''ucs2_persian_ci'' False ''mariadb'']"

definition charset_table_19 :: "charset list" where
  "charset_table_19 = [
    charset_init 145 ''ucs2'' ''ucs2_esperanto_ci'' False ''mariadb'',
    charset_init 146 ''ucs2'' ''ucs2_hungarian_ci'' False ''mariadb'',
    charset_init 147 ''ucs2'' ''ucs2_sinhala_ci'' False ''mariadb'',
    charset_init 148 ''ucs2'' ''ucs2_german2_ci'' False ''mariadb'',
    charset_init 149 ''ucs2'' ''ucs2_croatian_mysql561_ci'' False ''mariadb'',
    charset_init 150 ''ucs2'' ''ucs2_unicode_520_ci'' False ''mariadb'',
    charset_init 151 ''ucs2'' ''ucs2_vietnamese_ci'' False ''mariadb'',
    charset_init 159 ''ucs2'' ''ucs2_general_mysql500_ci'' False ''mariadb'',
    charset_init 160 ''utf32'' ''utf32_unicode_ci'' False ''mariadb'',
    charset_init 161 ''utf32'' ''utf32_icelandic_ci'' False ''mariadb'',
    charset_init 162 ''utf32'' ''utf32_latvian_ci'' False ''mariadb'',
    charset_init 163 ''utf32'' ''utf32_romanian_ci'' False ''mariadb'',
    charset_init 164 ''utf32'' ''utf32_slovenian_ci'' False ''mariadb'',
    charset_init 165 ''utf32'' ''utf32_polish_ci'' False ''mariadb'',
    charset_init 166 ''utf32'' ''utf32_estonian_ci'' False ''mariadb'',
    charset_init 167 ''utf32'' ''utf32_spanish_ci'' False ''mariadb'',
    charset_init 168 ''utf32'' ''utf32_swedish_ci'' False ''mariadb'',
    charset_init 169 ''utf32'' ''utf32_turkish_ci'' False ''mariadb'',
    charset_init 170 ''utf32'' ''utf32_czech_ci'' False ''mariadb'',
    charset_init 171 ''utf32'' ''utf32_danish_ci'' False ''mariadb'',
    charset_init 172 ''utf32'' ''utf32_lithuanian_ci'' False ''mariadb'',
    charset_init 173 ''utf32'' ''utf32_slovak_ci'' False ''mariadb'',
    charset_init 174 ''utf32'' ''utf32_spanish2_ci'' False ''mariadb'']"

definition charset_table_20 :: "charset list" where
  "charset_table_20 = [
    charset_init 175 ''utf32'' ''utf32_roman_ci'' False ''mariadb'',
    charset_init 176 ''utf32'' ''utf32_persian_ci'' False ''mariadb'',
    charset_init 177 ''utf32'' ''utf32_esperanto_ci'' False ''mariadb'',
    charset_init 178 ''utf32'' ''utf32_hungarian_ci'' False ''mariadb'',
    charset_init 179 ''utf32'' ''utf32_sinhala_ci'' False ''mariadb'',
    charset_init 180 ''utf32'' ''utf32_german2_ci'' False ''mariadb'',
    charset_init 181 ''utf32'' ''utf32_croatian_mysql561_ci'' False ''mariadb'',
    charset_init 182 ''utf32'' ''utf32_unicode_520_ci'' False ''mariadb'',
    charset_init 183 ''utf32'' ''utf32_vietnamese_ci'' False ''mariadb'',
    charset_init 192 ''utf8mb3'' ''utf8mb3_unicode_ci'' False ''mariadb'',
    charset_init 193 ''utf8mb3'' ''utf8mb3_icelandic_ci'' False ''mariadb'',
    charset_init 194 ''utf8mb3'' ''utf8mb3_latvian_ci'' False ''mariadb'',
    charset_init 195 ''utf8mb3'' ''utf8mb3_romanian_ci'' False ''mariadb'',
    charset_init 196 ''utf8mb3'' ''utf8mb3_slovenian_ci'' False ''mariadb'',
    charset_init 197 ''utf8mb3'' ''utf8mb3_polish_ci'' False ''mariadb'',
    charset_init 198 ''utf8mb3'' ''utf8mb3_estonian_ci'' False ''mariadb'',
    charset_init 199 ''utf8mb3'' ''utf8mb3_spanish_ci'' False ''mariadb'',
    charset_init 200 ''utf8mb3'' ''utf8mb3_swedish_ci'' False ''mariadb'',
    charset_init 201 ''utf8mb3'' ''utf8mb3_turkish_ci'' False ''mariadb'',
    charset_init 202 ''utf8mb3'' ''utf8mb3_czech_ci'' False ''mariadb'',
    charset_init 203 ''utf8mb3'' ''utf8mb3_danish_ci'' False ''mariadb'',
    charset_init 204 ''utf8mb3'' ''utf8mb3_lithuanian_ci'' False ''mariadb'',
    charset_init 205 ''utf8mb3'' ''utf8mb3_slovak_ci'' False ''mariadb'']"

definition charset_table_21 :: "charset list" where
  "charset_table_21 = [
    charset_init 206 ''utf8mb3'' ''utf8mb3_spanish2_ci'' False ''mariadb'',
    charset_init 207 ''utf8mb3'' ''utf8mb3_roman_ci'' False ''mariadb'',
    charset_init 208 ''utf8mb3'' ''utf8mb3_persian_ci'' False ''mariadb'',
    charset_init 209 ''utf8mb3'' ''utf8mb3_esperanto_ci'' False ''mariadb'',
    charset_init 210 ''utf8mb3'' ''utf8mb3_hungarian_ci'' False ''mariadb'',
    charset_init 211 ''utf8mb3'' ''utf8mb3_sinhala_ci'' False ''mariadb'',
    charset_init 212 ''utf8mb3'' ''utf8mb3_german2_ci'' False ''mariadb'',
    charset_init 213 ''utf8mb3'' ''utf8mb3_croatian_mysql561_ci'' False ''mariadb'',
    charset_init 214 ''utf8mb3'' ''utf8mb3_unicode_520_ci'' False ''mariadb'',
    charset_init 215 ''utf8mb3'' ''utf8mb3_vietnamese_ci'' False ''mariadb'',
    charset_init 223 ''utf8mb3'' ''utf8mb3_general_mysql500_ci'' False ''mariadb'',
    charset_init 224 ''utf8mb4'' ''utf8mb4_unicode_ci'' False ''mariadb'',
    charset_init 225 ''utf8mb4'' ''utf8mb4_icelandic_ci'' False ''mariadb'',
    charset_init 226 ''utf8mb4'' ''utf8mb4_latvian_ci'' False ''mariadb'',
    charset_init 227 ''utf8mb4'' ''utf8mb4_romanian_ci'' False ''mariadb'',
    charset_init 228 ''utf8mb4'' ''utf8mb4_slovenian_ci'' False ''mariadb'',
    charset_init 229 ''utf8mb4'' ''utf8mb4_polish_ci'' False ''mariadb'',
    charset_init 230 ''utf8mb4'' ''utf8mb4_estonian_ci'' False ''mariadb'',
    charset_init 231 ''utf8mb4'' ''utf8mb4_spanish_ci'' False ''mariadb'',
    charset_init 232 ''utf8mb4'' ''utf8mb4_swedish_ci'' False ''mariadb'',
    charset_init 233 ''utf8mb4'' ''utf8mb4_turkish_ci'' False ''mariadb'',
    charset_init 234 ''utf8mb4'' ''utf8mb4_czech_ci'' False ''mariadb'',
    charset_init 235 ''utf8mb4'' ''utf8mb4_danish_ci'' False ''mariadb'']"

definition charset_table_22 :: "charset list" where
  "charset_table_22 = [
    charset_init 236 ''utf8mb4'' ''utf8mb4_lithuanian_ci'' False ''mariadb'',
    charset_init 237 ''utf8mb4'' ''utf8mb4_slovak_ci'' False ''mariadb'',
    charset_init 238 ''utf8mb4'' ''utf8mb4_spanish2_ci'' False ''mariadb'',
    charset_init 239 ''utf8mb4'' ''utf8mb4_roman_ci'' False ''mariadb'',
    charset_init 240 ''utf8mb4'' ''utf8mb4_persian_ci'' False ''mariadb'',
    charset_init 241 ''utf8mb4'' ''utf8mb4_esperanto_ci'' False ''mariadb'',
    charset_init 242 ''utf8mb4'' ''utf8mb4_hungarian_ci'' False ''mariadb'',
    charset_init 243 ''utf8mb4'' ''utf8mb4_sinhala_ci'' False ''mariadb'',
    charset_init 244 ''utf8mb4'' ''utf8mb4_german2_ci'' False ''mariadb'',
    charset_init 245 ''utf8mb4'' ''utf8mb4_croatian_mysql561_ci'' False ''mariadb'',
    charset_init 246 ''utf8mb4'' ''utf8mb4_unicode_520_ci'' False ''mariadb'',
    charset_init 247 ''utf8mb4'' ''utf8mb4_vietnamese_ci'' False ''mariadb'',
    charset_init 576 ''utf8mb3'' ''utf8mb3_croatian_ci'' False ''mariadb'',
    charset_init 577 ''utf8mb3'' ''utf8mb3_myanmar_ci'' False ''mariadb'',
    charset_init 578 ''utf8mb3'' ''utf8mb3_thai_520_w2'' False ''mariadb'',
    charset_init 608 ''utf8mb4'' ''utf8mb4_croatian_ci'' False ''mariadb'',
    charset_init 609 ''utf8mb4'' ''utf8mb4_myanmar_ci'' False ''mariadb'',
    charset_init 610 ''utf8mb4'' ''utf8mb4_thai_520_w2'' False ''mariadb'',
    charset_init 640 ''ucs2'' ''ucs2_croatian_ci'' False ''mariadb'',
    charset_init 641 ''ucs2'' ''ucs2_myanmar_ci'' False ''mariadb'',
    charset_init 642 ''ucs2'' ''ucs2_thai_520_w2'' False ''mariadb'',
    charset_init 672 ''utf16'' ''utf16_croatian_ci'' False ''mariadb'',
    charset_init 673 ''utf16'' ''utf16_myanmar_ci'' False ''mariadb'']"

definition charset_table_23 :: "charset list" where
  "charset_table_23 = [
    charset_init 674 ''utf16'' ''utf16_thai_520_w2'' False ''mariadb'',
    charset_init 736 ''utf32'' ''utf32_croatian_ci'' False ''mariadb'',
    charset_init 737 ''utf32'' ''utf32_myanmar_ci'' False ''mariadb'',
    charset_init 738 ''utf32'' ''utf32_thai_520_w2'' False ''mariadb'',
    charset_init 1025 ''big5'' ''big5_chinese_nopad_ci'' False ''mariadb'',
    charset_init 1027 ''dec8'' ''dec8_swedish_nopad_ci'' False ''mariadb'',
    charset_init 1028 ''cp850'' ''cp850_general_nopad_ci'' False ''mariadb'',
    charset_init 1030 ''hp8'' ''hp8_english_nopad_ci'' False ''mariadb'',
    charset_init 1031 ''koi8r'' ''koi8r_general_nopad_ci'' False ''mariadb'',
    charset_init 1032 ''latin1'' ''latin1_swedish_nopad_ci'' False ''mariadb'',
    charset_init 1033 ''latin2'' ''latin2_general_nopad_ci'' False ''mariadb'',
    charset_init 1034 ''swe7'' ''swe7_swedish_nopad_ci'' False ''mariadb'',
    charset_init 1035 ''ascii'' ''ascii_general_nopad_ci'' False ''mariadb'',
    charset_init 1036 ''ujis'' ''ujis_japanese_nopad_ci'' False ''mariadb'',
    charset_init 1037 ''sjis'' ''sjis_japanese_nopad_ci'' False ''mariadb'',
    charset_init 1040 ''hebrew'' ''hebrew_general_nopad_ci'' False ''mariadb'',
    charset_init 1042 ''tis620'' ''tis620_thai_nopad_ci'' False ''mariadb'',
    charset_init 1043 ''euckr'' ''euckr_korean_nopad_ci'' False ''mariadb'',
    charset_init 1046 ''koi8u'' ''koi8u_general_nopad_ci'' False ''mariadb'',
    charset_init 1048 ''gb2312'' ''gb2312_chinese_nopad_ci'' False ''mariadb'',
    charset_init 1049 ''greek'' ''greek_general_nopad_ci'' False ''mariadb'',
    charset_init 1050 ''cp1250'' ''cp1250_general_nopad_ci'' False ''mariadb'',
    charset_init 1052 ''gbk'' ''gbk_chinese_nopad_ci'' False ''mariadb'']"

definition charset_table_24 :: "charset list" where
  "charset_table_24 = [
    charset_init 1054 ''latin5'' ''latin5_turkish_nopad_ci'' False ''mariadb'',
    charset_init 1056 ''armscii8'' ''armscii8_general_nopad_ci'' False ''mariadb'',
    charset_init 1057 ''utf8mb3'' ''utf8mb3_general_nopad_ci'' False ''mariadb'',
    charset_init 1059 ''ucs2'' ''ucs2_general_nopad_ci'' False ''mariadb'',
    charset_init 1060 ''cp866'' ''cp866_general_nopad_ci'' False ''mariadb'',
    charset_init 1061 ''keybcs2'' ''keybcs2_general_nopad_ci'' False ''mariadb'',
    charset_init 1062 ''macce'' ''macce_general_nopad_ci'' False ''mariadb'',
    charset_init 1063 ''macroman'' ''macroman_general_nopad_ci'' False ''mariadb'',
    charset_init 1064 ''cp852'' ''cp852_general_nopad_ci'' False ''mariadb'',
    charset_init 1065 ''latin7'' ''latin7_general_nopad_ci'' False ''mariadb'',
    charset_init 1067 ''macce'' ''macce_nopad_bin'' False ''mariadb'',
    charset_init 1069 ''utf8mb4'' ''utf8mb4_general_nopad_ci'' False ''mariadb'',
    charset_init 1070 ''utf8mb4'' ''utf8mb4_nopad_bin'' False ''mariadb'',
    charset_init 1071 ''latin1'' ''latin1_nopad_bin'' False ''mariadb'',
    charset_init 1074 ''cp1251'' ''cp1251_nopad_bin'' False ''mariadb'',
    charset_init 1075 ''cp1251'' ''cp1251_general_nopad_ci'' False ''mariadb'',
    charset_init 1077 ''macroman'' ''macroman_nopad_bin'' False ''mariadb'',
    charset_init 1078 ''utf16'' ''utf16_general_nopad_ci'' False ''mariadb'',
    charset_init 1079 ''utf16'' ''utf16_nopad_bin'' False ''mariadb'',
    charset_init 1080 ''utf16le'' ''utf16le_general_nopad_ci'' False ''mariadb'',
    charset_init 1081 ''cp1256'' ''cp1256_general_nopad_ci'' False ''mariadb'',
    charset_init 1082 ''cp1257'' ''cp1257_nopad_bin'' False ''mariadb'',
    charset_init 1083 ''cp1257'' ''cp1257_general_nopad_ci'' False ''mariadb'']"

definition charset_table_25 :: "charset list" where
  "charset_table_25 = [
    charset_init 1084 ''utf32'' ''utf32_general_nopad_ci'' False ''mariadb'',
    charset_init 1085 ''utf32'' ''utf32_nopad_bin'' False ''mariadb'',
    charset_init 1086 ''utf16le'' ''utf16le_nopad_bin'' False ''mariadb'',
    charset_init 1088 ''armscii8'' ''armscii8_nopad_bin'' False ''mariadb'',
    charset_init 1089 ''ascii'' ''ascii_nopad_bin'' False ''mariadb'',
    charset_init 1090 ''cp1250'' ''cp1250_nopad_bin'' False ''mariadb'',
    charset_init 1091 ''cp1256'' ''cp1256_nopad_bin'' False ''mariadb'',
    charset_init 1092 ''cp866'' ''cp866_nopad_bin'' False ''mariadb'',
    charset_init 1093 ''dec8'' ''dec8_nopad_bin'' False ''mariadb'',
    charset_init 1094 ''greek'' ''greek_nopad_bin'' False ''mariadb'',
    charset_init 1095 ''hebrew'' ''hebrew_nopad_bin'' False ''mariadb'',
    charset_init 1096 ''hp8'' ''hp8_nopad_bin'' False ''mariadb'',
    charset_init 1097 ''keybcs2'' ''keybcs2_nopad_bin'' False ''mariadb'',
    charset_init 1098 ''koi8r'' ''koi8r_nopad_bin'' False ''mariadb'',
    charset_init 1099 ''koi8u'' ''koi8u_nopad_bin'' False ''mariadb'',
    charset_init 1101 ''latin2'' ''latin2_nopad_bin'' False ''mariadb'',
    charset_init 1102 ''latin5'' ''latin5_nopad_bin'' False ''mariadb'',
    charset_init 1103 ''latin7'' ''latin7_nopad_bin'' False ''mariadb'',
    charset_init 1104 ''cp850'' ''cp850_nopad_bin'' False ''mariadb'',
    charset_init 1105 ''cp852'' ''cp852_nopad_bin'' False ''mariadb'',
    charset_init 1106 ''swe7'' ''swe7_nopad_bin'' False ''mariadb'',
    charset_init 1107 ''utf8mb3'' ''utf8mb3_nopad_bin'' False ''mariadb'',
    charset_init 1108 ''big5'' ''big5_nopad_bin'' False ''mariadb'']"

definition charset_table_26 :: "charset list" where
  "charset_table_26 = [
    charset_init 1109 ''euckr'' ''euckr_nopad_bin'' False ''mariadb'',
    charset_init 1110 ''gb2312'' ''gb2312_nopad_bin'' False ''mariadb'',
    charset_init 1111 ''gbk'' ''gbk_nopad_bin'' False ''mariadb'',
    charset_init 1112 ''sjis'' ''sjis_nopad_bin'' False ''mariadb'',
    charset_init 1113 ''tis620'' ''tis620_nopad_bin'' False ''mariadb'',
    charset_init 1114 ''ucs2'' ''ucs2_nopad_bin'' False ''mariadb'',
    charset_init 1115 ''ujis'' ''ujis_nopad_bin'' False ''mariadb'',
    charset_init 1116 ''geostd8'' ''geostd8_general_nopad_ci'' False ''mariadb'',
    charset_init 1117 ''geostd8'' ''geostd8_nopad_bin'' False ''mariadb'',
    charset_init 1119 ''cp932'' ''cp932_japanese_nopad_ci'' False ''mariadb'',
    charset_init 1120 ''cp932'' ''cp932_nopad_bin'' False ''mariadb'',
    charset_init 1121 ''eucjpms'' ''eucjpms_japanese_nopad_ci'' False ''mariadb'',
    charset_init 1122 ''eucjpms'' ''eucjpms_nopad_bin'' False ''mariadb'',
    charset_init 1125 ''utf16'' ''utf16_unicode_nopad_ci'' False ''mariadb'',
    charset_init 1147 ''utf16'' ''utf16_unicode_520_nopad_ci'' False ''mariadb'',
    charset_init 1152 ''ucs2'' ''ucs2_unicode_nopad_ci'' False ''mariadb'',
    charset_init 1174 ''ucs2'' ''ucs2_unicode_520_nopad_ci'' False ''mariadb'',
    charset_init 1184 ''utf32'' ''utf32_unicode_nopad_ci'' False ''mariadb'',
    charset_init 1206 ''utf32'' ''utf32_unicode_520_nopad_ci'' False ''mariadb'',
    charset_init 1216 ''utf8mb3'' ''utf8mb3_unicode_nopad_ci'' False ''mariadb'',
    charset_init 1238 ''utf8mb3'' ''utf8mb3_unicode_520_nopad_ci'' False ''mariadb'',
    charset_init 1248 ''utf8mb4'' ''utf8mb4_unicode_nopad_ci'' False ''mariadb'',
    charset_init 1270 ''utf8mb4'' ''utf8mb4_unicode_520_nopad_ci'' False ''mariadb'']"

text \<open>The rows of MySQL come first, then the rows of MariaDB.\<close>

definition mysql_charsets :: "charset list" where
  "mysql_charsets = concat [
    charset_table_1, charset_table_2, charset_table_3, charset_table_4, 
    charset_table_5, charset_table_6, charset_table_7, charset_table_8, 
    charset_table_9, charset_table_10, charset_table_11, charset_table_12]"

definition mariadb_charsets :: "charset list" where
  "mariadb_charsets = concat [
    charset_table_13, charset_table_14, charset_table_15, charset_table_16, 
    charset_table_17, charset_table_18, charset_table_19, charset_table_20, 
    charset_table_21, charset_table_22, charset_table_23, charset_table_24, 
    charset_table_25, charset_table_26]"

definition charset_table :: "charset list" where
  "charset_table = mysql_charsets @ mariadb_charsets"

definition charsets_global :: charsets where
  "charsets_global = fold charsets_add charset_table charsets_init"

definition charset_by_id :: "string \<Rightarrow> string \<Rightarrow> charset option res" where
  "charset_by_id = by_id charsets_global"

definition charset_by_name :: "string \<Rightarrow> string \<Rightarrow> charset option" where
  "charset_by_name = by_name charsets_global"

text \<open>Encoding, collation and character set; an unknown id gives \<open>utf8\<close> and no collation.\<close>

definition find_charset :: "string \<Rightarrow> string \<Rightarrow> (string \<times> string option \<times> string) res" where
  "find_charset charset_id dbms =
     bind_res (charset_by_id charset_id dbms) (\<lambda>charset.
       case charset of
         None \<Rightarrow> Inr (''utf8'', None, ''utf8'')
       | Some c \<Rightarrow> Inr (charset_encoding c, Some (cs_collation c), cs_name c))"

section \<open>The dictionaries represent the table\<close>

lemma by_id_fold:
  "inner_dict (cs_by_id (fold charsets_add t s)) d i =
     (case find (\<lambda>c. cs_dbms c = d \<and> cs_id c = i) (rev t) of
        Some c \<Rightarrow> Some c | None \<Rightarrow> inner_dict (cs_by_id s) d i)"
proof (induction t rule: rev_induct)
  case (snoc c t)
  then show ?case by (auto simp: charsets_add_def Let_def inner_dict_def)
qed simp

lemma by_name_fold:
  "inner_dict (cs_by_name (fold charsets_add t s)) d n =
     (case find (\<lambda>c. cs_is_default c \<and> cs_dbms c = d \<and> cs_name c = n) (rev t) of
        Some c \<Rightarrow> Some c | None \<Rightarrow> inner_dict (cs_by_name s) d n)"
proof (induction t rule: rev_induct)
  case (snoc c t)
  then show ?case by (auto simp: charsets_add_def Let_def inner_dict_def)
qed simp

lemma find_unique:
  assumes "c \<in> set t" "P c" "\<And>x. x \<in> set t \<Longrightarrow> P x \<Longrightarrow> x = c"
  shows "find P t = Some c"
proof -
  have "find P t \<noteq> None" using assms(1,2) by (auto simp: find_None_iff)
  then obtain x where "find P t = Some x" by auto
  moreover from this have "x \<in> set t" "P x" by (auto simp: find_Some_iff)
  ultimately show ?thesis using assms(3) by blast
qed

fun increasing :: "int list \<Rightarrow> bool" where
  "increasing (x # y # xs) = (x < y \<and> increasing (y # xs))"
| "increasing _ = True"

lemma increasing_sorted: "increasing xs \<Longrightarrow> sorted_wrt (<) xs"
proof (induction xs rule: increasing.induct)
  case (1 x y xs)
  then show ?case by (auto intro: less_trans)
qed simp_all

lemma increasing_distinct: "increasing (x # xs) \<Longrightarrow> distinct xs"
  using increasing_sorted by (fastforce simp: strict_sorted_iff)

lemma distinct_key: "distinct (map f xs) \<Longrightarrow> x \<in> set xs \<Longrightarrow> y \<in> set xs \<Longrightarrow> f x = f y \<Longrightarrow> x = y"
  by (auto simp: distinct_map inj_on_def)

text \<open>What makes a block of rows safe: all rows are of one system, the ids increase strictly from above
  \<open>lo\<close> up to \<open>hi\<close>, and the names with a default collation are the given ones.\<close>

definition rows_ok :: "string \<Rightarrow> int \<Rightarrow> int \<Rightarrow> string list \<Rightarrow> charset list \<Rightarrow> bool" where
  "rows_ok d lo hi names rows =
     (increasing (lo # map cs_id rows @ [hi + 1]) \<and> list_all (\<lambda>c. cs_dbms c = d) rows
      \<and> map cs_name (filter cs_is_default rows) = names)"

lemma charset_table_1_ok: "rows_ok ''mysql'' 0 25 [''big5'', ''dec8'', ''cp850'', ''hp8'', ''koi8r'', ''latin1'', ''latin2'', ''swe7'', ''ascii'', ''ujis'', ''sjis'', ''hebrew'', ''tis620'', ''euckr'', ''koi8u'', ''gb2312'', ''greek''] charset_table_1"
  by (simp add: rows_ok_def charset_table_1_def charset_init_def)

lemma charset_table_2_ok: "rows_ok ''mysql'' 25 49 [''cp1250'', ''gbk'', ''latin5'', ''armscii8'', ''utf8mb3'', ''ucs2'', ''cp866'', ''keybcs2'', ''macce'', ''macroman'', ''cp852'', ''latin7''] charset_table_2"
  by (simp add: rows_ok_def charset_table_2_def charset_init_def)

lemma charset_table_3_ok: "rows_ok ''mysql'' 49 73 [''cp1251'', ''utf16'', ''utf16le'', ''cp1256'', ''cp1257'', ''utf32'', ''binary''] charset_table_3"
  by (simp add: rows_ok_def charset_table_3_def charset_init_def)

lemma charset_table_4_ok: "rows_ok ''mysql'' 73 97 [''geostd8'', ''cp932'', ''eucjpms''] charset_table_4"
  by (simp add: rows_ok_def charset_table_4_def charset_init_def)

lemma charset_table_5_ok: "rows_ok ''mysql'' 97 122 [] charset_table_5"
  by (simp add: rows_ok_def charset_table_5_def charset_init_def)

lemma charset_table_6_ok: "rows_ok ''mysql'' 122 149 [] charset_table_6"
  by (simp add: rows_ok_def charset_table_6_def charset_init_def)

lemma charset_table_7_ok: "rows_ok ''mysql'' 149 180 [] charset_table_7"
  by (simp add: rows_ok_def charset_table_7_def charset_init_def)

lemma charset_table_8_ok: "rows_ok ''mysql'' 180 212 [] charset_table_8"
  by (simp add: rows_ok_def charset_table_8_def charset_init_def)

lemma charset_table_9_ok: "rows_ok ''mysql'' 212 243 [] charset_table_9"
  by (simp add: rows_ok_def charset_table_9_def charset_init_def)

lemma charset_table_10_ok: "rows_ok ''mysql'' 243 271 [''gb18030'', ''utf8mb4''] charset_table_10"
  by (simp add: rows_ok_def charset_table_10_def charset_init_def)

lemma charset_table_11_ok: "rows_ok ''mysql'' 271 298 [] charset_table_11"
  by (simp add: rows_ok_def charset_table_11_def charset_init_def)

lemma charset_table_12_ok: "rows_ok ''mysql'' 298 323 [] charset_table_12"
  by (simp add: rows_ok_def charset_table_12_def charset_init_def)

lemma charset_table_13_ok: "rows_ok ''mariadb'' 0 24 [''big5'', ''dec8'', ''cp850'', ''hp8'', ''koi8r'', ''latin1'', ''latin2'', ''swe7'', ''ascii'', ''ujis'', ''sjis'', ''hebrew'', ''tis620'', ''euckr'', ''koi8u'', ''gb2312''] charset_table_13"
  by (simp add: rows_ok_def charset_table_13_def charset_init_def)

lemma charset_table_14_ok: "rows_ok ''mariadb'' 24 47 [''greek'', ''cp1250'', ''gbk'', ''latin5'', ''armscii8'', ''utf8mb3'', ''ucs2'', ''cp866'', ''keybcs2'', ''macce'', ''macroman'', ''cp852'', ''latin7'', ''utf8mb4''] charset_table_14"
  by (simp add: rows_ok_def charset_table_14_def charset_init_def)

lemma charset_table_15_ok: "rows_ok ''mariadb'' 47 70 [''cp1251'', ''utf16'', ''utf16le'', ''cp1256'', ''cp1257'', ''utf32'', ''binary''] charset_table_15"
  by (simp add: rows_ok_def charset_table_15_def charset_init_def)

lemma charset_table_16_ok: "rows_ok ''mariadb'' 70 94 [''geostd8''] charset_table_16"
  by (simp add: rows_ok_def charset_table_16_def charset_init_def)

lemma charset_table_17_ok: "rows_ok ''mariadb'' 94 118 [''cp932'', ''eucjpms''] charset_table_17"
  by (simp add: rows_ok_def charset_table_17_def charset_init_def)

lemma charset_table_18_ok: "rows_ok ''mariadb'' 118 144 [] charset_table_18"
  by (simp add: rows_ok_def charset_table_18_def charset_init_def)

lemma charset_table_19_ok: "rows_ok ''mariadb'' 144 174 [] charset_table_19"
  by (simp add: rows_ok_def charset_table_19_def charset_init_def)

lemma charset_table_20_ok: "rows_ok ''mariadb'' 174 205 [] charset_table_20"
  by (simp add: rows_ok_def charset_table_20_def charset_init_def)

lemma charset_table_21_ok: "rows_ok ''mariadb'' 205 235 [] charset_table_21"
  by (simp add: rows_ok_def charset_table_21_def charset_init_def)

lemma charset_table_22_ok: "rows_ok ''mariadb'' 235 673 [] charset_table_22"
  by (simp add: rows_ok_def charset_table_22_def charset_init_def)

lemma charset_table_23_ok: "rows_ok ''mariadb'' 673 1052 [] charset_table_23"
  by (simp add: rows_ok_def charset_table_23_def charset_init_def)

lemma charset_table_24_ok: "rows_ok ''mariadb'' 1052 1083 [] charset_table_24"
  by (simp add: rows_ok_def charset_table_24_def charset_init_def)

lemma charset_table_25_ok: "rows_ok ''mariadb'' 1083 1108 [] charset_table_25"
  by (simp add: rows_ok_def charset_table_25_def charset_init_def)

lemma charset_table_26_ok: "rows_ok ''mariadb'' 1108 1270 [] charset_table_26"
  by (simp add: rows_ok_def charset_table_26_def charset_init_def)

lemma increasing_append:
  "increasing (xs @ [k + 1]) \<Longrightarrow> increasing (k # ys) \<Longrightarrow> increasing (xs @ ys)"
  by (induction xs rule: increasing.induct) (cases ys; auto)+

lemma rows_ok_append:
  assumes "rows_ok d lo mid ns xs" "rows_ok d mid hi ms ys"
  shows "rows_ok d lo hi (ns @ ms) (xs @ ys)"
  using assms increasing_append [of "lo # map cs_id xs" mid "map cs_id ys @ [hi + 1]"]
  by (simp add: rows_ok_def)

definition names_ok :: "string list \<Rightarrow> bool" where
  "names_ok ns = (distinct ns \<and> list_all (\<lambda>n. map to_lower n = n \<and> n \<noteq> ''utf8'') ns)"

lemmas mysql_rows_ok =
  rows_ok_append [OF charset_table_1_ok 
  rows_ok_append [OF charset_table_2_ok 
  rows_ok_append [OF charset_table_3_ok 
  rows_ok_append [OF charset_table_4_ok 
  rows_ok_append [OF charset_table_5_ok 
  rows_ok_append [OF charset_table_6_ok 
  rows_ok_append [OF charset_table_7_ok 
  rows_ok_append [OF charset_table_8_ok 
  rows_ok_append [OF charset_table_9_ok 
  rows_ok_append [OF charset_table_10_ok 
  rows_ok_append [OF charset_table_11_ok charset_table_12_ok]]]]]]]]]]]

lemmas mariadb_rows_ok =
  rows_ok_append [OF charset_table_13_ok 
  rows_ok_append [OF charset_table_14_ok 
  rows_ok_append [OF charset_table_15_ok 
  rows_ok_append [OF charset_table_16_ok 
  rows_ok_append [OF charset_table_17_ok 
  rows_ok_append [OF charset_table_18_ok 
  rows_ok_append [OF charset_table_19_ok 
  rows_ok_append [OF charset_table_20_ok 
  rows_ok_append [OF charset_table_21_ok 
  rows_ok_append [OF charset_table_22_ok 
  rows_ok_append [OF charset_table_23_ok 
  rows_ok_append [OF charset_table_24_ok 
  rows_ok_append [OF charset_table_25_ok charset_table_26_ok]]]]]]]]]]]]]

lemma mysql_rows: "\<exists>hi ns. rows_ok ''mysql'' 0 hi ns mysql_charsets \<and> names_ok ns"
  unfolding mysql_charsets_def concat.simps append_Nil2
  by (intro exI conjI, rule mysql_rows_ok) code_simp

lemma mariadb_rows: "\<exists>hi ns. rows_ok ''mariadb'' 0 hi ns mariadb_charsets \<and> names_ok ns"
  unfolding mariadb_charsets_def concat.simps append_Nil2
  by (intro exI conjI, rule mariadb_rows_ok) code_simp

definition rows_of :: "string \<Rightarrow> charset list" where
  "rows_of d = (if d = ''mysql'' then mysql_charsets else mariadb_charsets)"

lemma table_rows:
  assumes "c \<in> set charset_table"
  shows "c \<in> set (rows_of (cs_dbms c))" "\<exists>hi ns. rows_ok (cs_dbms c) 0 hi ns (rows_of (cs_dbms c)) \<and> names_ok ns"
proof -
  have "cs_dbms c = d" if "rows_ok d 0 hi ns rows" "c \<in> set rows" for d hi ns rows
    using that by (simp add: rows_ok_def list_all_iff)
  then have "c \<in> set mysql_charsets \<and> cs_dbms c = ''mysql'' \<or> c \<in> set mariadb_charsets \<and> cs_dbms c = ''mariadb''"
    using assms mysql_rows mariadb_rows by (auto simp: charset_table_def)
  then show "c \<in> set (rows_of (cs_dbms c))" "\<exists>hi ns. rows_ok (cs_dbms c) 0 hi ns (rows_of (cs_dbms c)) \<and> names_ok ns"
    using mysql_rows mariadb_rows by (elim disjE conjE; simp add: rows_of_def)+
qed

lemma rows_ok_distinct:
  assumes "rows_ok d 0 hi ns rows" "names_ok ns" "x \<in> set rows" "y \<in> set rows"
  shows "cs_id x = cs_id y \<Longrightarrow> x = y"
    and "cs_is_default x \<Longrightarrow> cs_is_default y \<Longrightarrow> cs_name x = cs_name y \<Longrightarrow> x = y"
proof -
  have "distinct (map cs_id rows)"
    using assms(1) increasing_distinct [of 0 "map cs_id rows @ [hi + 1]"] by (simp add: rows_ok_def)
  then show "cs_id x = cs_id y \<Longrightarrow> x = y" using assms(3,4) by (rule distinct_key)
  have "distinct (map cs_name (filter cs_is_default rows))" using assms(1,2) by (simp add: rows_ok_def names_ok_def)
  then show "cs_is_default x \<Longrightarrow> cs_is_default y \<Longrightarrow> cs_name x = cs_name y \<Longrightarrow> x = y"
    using assms(3,4) by (intro distinct_key [of cs_name "filter cs_is_default rows"]) auto
qed

lemma rows_ok_row:
  assumes "rows_ok d 0 hi ns rows" "names_ok ns" "c \<in> set rows"
  shows "0 < cs_id c" and "cs_is_default c \<Longrightarrow> map to_lower (cs_name c) = cs_name c \<and> cs_name c \<noteq> ''utf8''"
proof -
  show "0 < cs_id c"
    using assms(1,3) increasing_sorted [of "0 # map cs_id rows @ [hi + 1]"] by (auto simp: rows_ok_def)
  assume "cs_is_default c"
  then have "cs_name c \<in> set ns" using assms(1,3) by (auto simp: rows_ok_def)
  then show "map to_lower (cs_name c) = cs_name c \<and> cs_name c \<noteq> ''utf8''"
    using assms(2) by (simp add: names_ok_def list_all_iff)
qed

lemma rows_distinct:
  assumes "x \<in> set charset_table" "y \<in> set charset_table" "cs_dbms x = cs_dbms y"
  shows "cs_id x = cs_id y \<Longrightarrow> x = y"
    and "cs_is_default x \<Longrightarrow> cs_is_default y \<Longrightarrow> cs_name x = cs_name y \<Longrightarrow> x = y"
proof -
  obtain hi ns where "rows_ok (cs_dbms x) 0 hi ns (rows_of (cs_dbms x))" "names_ok ns" using table_rows(2) [OF assms(1)] by blast
  from rows_ok_distinct [OF this, of x y] table_rows(1) [OF assms(1)] table_rows(1) [OF assms(2)] assms(3)
  show "cs_id x = cs_id y \<Longrightarrow> x = y"
    and "cs_is_default x \<Longrightarrow> cs_is_default y \<Longrightarrow> cs_name x = cs_name y \<Longrightarrow> x = y" by simp_all
qed

lemma find_rev_mem: "find P (rev xs) = Some c \<Longrightarrow> c \<in> set xs \<and> P c"
  using find_Some_iff [of P "rev xs" c] nth_mem [of _ "rev xs"] by auto

lemma charset_by_id_cases:
  "charset_by_id i dbms = bind_res (py_int 10 i)
     (\<lambda>n. Inr (find (\<lambda>c. cs_dbms c = dbms \<and> cs_id c = n) (rev charset_table)))"
proof -
  have "inner_dict (cs_by_id charsets_global) dbms n = find (\<lambda>c. cs_dbms c = dbms \<and> cs_id c = n) (rev charset_table)" for n
    unfolding charsets_global_def by_id_fold by (simp add: charsets_init_def inner_dict_def split: option.split)
  then show ?thesis by (simp add: charset_by_id_def by_id_def)
qed

text \<open>No row of the character set table hides another one: the lookup by id finds every row of its
  system, the lookup by name finds the default collation of every name, a lookup that succeeds gives a
  row of the table with that id, and an id that has no row makes \<open>find_charset\<close> answer \<open>utf8\<close>.\<close>

theorem charset_lookup_exact:
  "(\<forall>c \<in> set charset_table.
      charset_by_id (str_int (cs_id c)) (cs_dbms c) = Inr (Some c)
      \<and> find_charset (str_int (cs_id c)) (cs_dbms c) = Inr (charset_encoding c, Some (cs_collation c), cs_name c)
      \<and> (cs_is_default c \<longrightarrow> charset_by_name (cs_name c) (cs_dbms c) = Some c))
   \<and> (\<forall>i dbms c. charset_by_id i dbms = Inr (Some c) \<longrightarrow>
        c \<in> set charset_table \<and> cs_dbms c = dbms \<and> py_int 10 i = Inr (cs_id c))
   \<and> (\<forall>i dbms. charset_by_id i dbms = Inr None \<longrightarrow> find_charset i dbms = Inr (''utf8'', None, ''utf8''))"
proof (intro conjI ballI allI impI)
  fix c assume c: "c \<in> set charset_table"
  obtain hi ns where row: "rows_ok (cs_dbms c) 0 hi ns (rows_of (cs_dbms c))" "names_ok ns" "c \<in> set (rows_of (cs_dbms c))"
    using table_rows [OF c] by blast
  have "find (\<lambda>x. cs_dbms x = cs_dbms c \<and> cs_id x = cs_id c) (rev charset_table) = Some c"
    using c by (intro find_unique) (auto intro: rows_distinct(1))
  with rows_ok_row(1) [OF row] show id: "charset_by_id (str_int (cs_id c)) (cs_dbms c) = Inr (Some c)"
    by (simp add: charset_by_id_cases str_int_nonneg)
  then show "find_charset (str_int (cs_id c)) (cs_dbms c) = Inr (charset_encoding c, Some (cs_collation c), cs_name c)"
    by (simp add: find_charset_def)
  assume d: "cs_is_default c"
  have "find (\<lambda>x. cs_is_default x \<and> cs_dbms x = cs_dbms c \<and> cs_name x = cs_name c) (rev charset_table) = Some c"
    using c d by (intro find_unique) (auto intro: rows_distinct(2))
  with rows_ok_row(2) [OF row d] show "charset_by_name (cs_name c) (cs_dbms c) = Some c"
    by (simp add: charset_by_name_def by_name_def charsets_global_def by_name_fold)
next
  fix i dbms c assume "charset_by_id i dbms = Inr (Some c)"
  then obtain n where "py_int 10 i = Inr n" "find (\<lambda>c. cs_dbms c = dbms \<and> cs_id c = n) (rev charset_table) = Some c"
    by (auto simp: charset_by_id_cases)
  with find_rev_mem [OF this(2)] show "c \<in> set charset_table" "cs_dbms c = dbms" "py_int 10 i = Inr (cs_id c)"
    by simp_all
next
  fix i dbms assume "charset_by_id i dbms = Inr None"
  then show "find_charset i dbms = Inr (''utf8'', None, ''utf8'')" by (simp add: find_charset_def)
qed

theorem charset_lookup_exact_witness:
  "charset_by_id (str_int 33) ''mysql'' = Inr (Some (charset_init 33 ''utf8mb3'' ''utf8mb3_general_ci'' True ''mysql''))"
proof -
  have "charset_init 33 ''utf8mb3'' ''utf8mb3_general_ci'' True ''mysql'' \<in> set charset_table"
    by (simp add: charset_table_def mysql_charsets_def charset_table_2_def charset_init_def)
  from conjunct1 [OF charset_lookup_exact, THEN bspec, OF this] show ?thesis by (simp add: charset_init_def)
qed

end
