(* ===== verification/Row_Values.thy ===== *)
theory Row_Values
  imports Packet Columns Charset
begin

text \<open>
  The values of a row image: \<open>Column.__parse_column_definition\<close> of \<open>column.py\<close> and the readers of one
  column value of \<open>RowsEvent\<close> in \<open>row_event.py\<close>.

  A value comes with the notes that the code keeps beside it: the reason for a missing value
  (\<open>none_sources\<close>) and the raw number of a date (\<open>row_values\<close>). What the reader needs from outside is
  \<open>row_env\<close>: the codecs of Python other than UTF-8, the encoding that PyMySQL gives a character set, the
  order in which Python iterates a set, and the room for nested JSON documents.
\<close>

section \<open>Definitions\<close>

record row_env =
  codec :: "string \<Rightarrow> bool \<Rightarrow> bytes \<Rightarrow> string res"
  pymysql_encoding :: "string \<Rightarrow> string option"
  set_order :: "string list \<Rightarrow> string list"
  json_room :: nat
  ignore_decode_errors :: bool

type_synonym cell = json_column

record column_value =
  cv_value :: cell
  cv_none :: "string option"
  cv_raw :: "int option"

definition plain :: "pyval \<Rightarrow> column_value" where
  "plain v = \<lparr>cv_value = JsonValue v, cv_none = None, cv_raw = None\<rparr>"

definition missing :: "string \<Rightarrow> column_value" where
  "missing src = \<lparr>cv_value = JsonValue PNone, cv_none = Some src, cv_raw = None\<rparr>"

text \<open>A value with its raw number; when it is \<open>None\<close>, the reason is noted.\<close>

definition dated :: "int \<Rightarrow> string \<Rightarrow> pyval \<Rightarrow> column_value" where
  "dated raw src v = \<lparr>cv_value = JsonValue v, cv_none = (if v = PNone then Some src else None), cv_raw = Some raw\<rparr>"

text \<open>\<open>int(a / b)\<close> rounds towards zero.\<close>

definition trunc_div :: "int \<Rightarrow> int \<Rightarrow> int" where
  "trunc_div a b = sgn a * (\<bar>a\<bar> div b)"

text \<open>Indexing of a list, from its end when the index is negative.\<close>

definition py_nth :: "'a list \<Rightarrow> int \<Rightarrow> 'a res" where
  "py_nth xs i =
     (if 0 \<le> i then index_at xs (nat i)
      else if - i \<le> int (length xs) then Inr (xs ! nat (int (length xs) + i)) else Inl IndexError)"

definition some_int :: "int option \<Rightarrow> int res" where
  "some_int v = (case v of None \<Rightarrow> Inl TypeError | Some i \<Rightarrow> Inr i)"

fun truthy :: "pyval \<Rightarrow> bool" where
  "truthy PNone = False"
| "truthy (PBool b) = b"
| "truthy (PInt i) = (i \<noteq> 0)"
| "truthy (PFloat b) = (le_val b mod 2 ^ 63 \<noteq> 0)"
| "truthy (PStr s) = (s \<noteq> [])"
| "truthy (PBytes b) = (b \<noteq> [])"
| "truthy (PDecimal s) = list_ex (\<lambda>c. is_digit c \<and> c \<noteq> CHR ''0'') s"
| "truthy (PTimedelta t) = (t \<noteq> 0)"
| "truthy (PSet xs) = (xs \<noteq> [])"
| "truthy (PList xs) = (xs \<noteq> [])"
| "truthy (PDict kvs) = (kvs \<noteq> [])"
| "truthy _ = True"

definition truthy_cell :: "cell \<Rightarrow> bool" where
  "truthy_cell c = (case c of JsonValue v \<Rightarrow> truthy v | JsonDiffValue _ \<Rightarrow> True)"

subsection \<open>Column definitions\<close>

definition new_column :: "int \<Rightarrow> column" where
  "new_column column_type =
     \<lparr>ctype = column_type, name = [], unsigned = False, is_primary = False, character_set_name = None,
      collation_name = None, enum_values = None, set_values = None, visibility = False, max_length = None,
      size = None, fsp = None, length_size = None, precision = None, decimals = None, bits = None, nbytes = None\<rparr>"

definition read_string_metadata :: "'p packet_ops \<Rightarrow> column \<Rightarrow> ('p, column) reader" where
  "read_string_metadata P col =
     bind_sx (read_uint8 P) (\<lambda>a. bind_sx (read_uint8 P) (\<lambda>b.
       let metadata = push_bit 8 a + b; real_type = drop_bit 8 metadata
       in if real_type = FT_SET \<or> real_type = FT_ENUM
          then ret_sx (col\<lparr>ctype := real_type, size := Some (and metadata 0xFF)\<rparr>)
          else ret_sx (col\<lparr>max_length := Some (xor (and (drop_bit 4 metadata) 0x300) 0x300 + and metadata 0xFF)\<rparr>)))"

definition parse_column_definition :: "'p packet_ops \<Rightarrow> int \<Rightarrow> ('p, column) reader" where
  "parse_column_definition P column_type =
     (let col = new_column column_type
      in if column_type = FT_VARCHAR then
           bind_sx (unpacked P 2 (unpack_uint 2)) (\<lambda>n. ret_sx (col\<lparr>max_length := Some n\<rparr>))
         else if column_type = FT_DOUBLE \<or> column_type = FT_FLOAT then
           bind_sx (read_uint8 P) (\<lambda>n. ret_sx (col\<lparr>size := Some n\<rparr>))
         else if column_type = FT_TIMESTAMP2 \<or> column_type = FT_DATETIME2 \<or> column_type = FT_TIME2 then
           bind_sx (read_uint8 P) (\<lambda>n. ret_sx (col\<lparr>fsp := Some n\<rparr>))
         else if column_type = FT_VAR_STRING \<or> column_type = FT_STRING then read_string_metadata P col
         else if column_type = FT_BLOB \<or> column_type = FT_GEOMETRY \<or> column_type = FT_JSON then
           bind_sx (read_uint8 P) (\<lambda>n. ret_sx (col\<lparr>length_size := Some n\<rparr>))
         else if column_type = FT_NEWDECIMAL then
           bind_sx (read_uint8 P) (\<lambda>p. bind_sx (read_uint8 P) (\<lambda>d.
             ret_sx (col\<lparr>precision := Some p, decimals := Some d\<rparr>)))
         else if column_type = FT_BIT then
           bind_sx (read_uint8 P) (\<lambda>bts. bind_sx (read_uint8 P) (\<lambda>bys.
             let n = bys * 8 + bts in ret_sx (col\<lparr>bits := Some n, nbytes := Some ((n + 7) div 8)\<rparr>)))
         else ret_sx col)"

subsection \<open>Fractions of a second, dates and times\<close>

definition read_binary_slice :: "int \<Rightarrow> nat \<Rightarrow> nat \<Rightarrow> nat \<Rightarrow> int" where
  "read_binary_slice binary start sz data_length =
     and (drop_bit (data_length - (start + sz)) binary) (push_bit sz 1 - 1)"

definition read_fsp :: "'p packet_ops \<Rightarrow> column \<Rightarrow> ('p, int) reader" where
  "read_fsp P col =
     bind_sx (lift_sx (attr (fsp col))) (\<lambda>f.
       let n = (if f = 1 \<or> f = 2 then 1 else if f = 3 \<or> f = 4 then 2 else if f = 5 \<or> f = 6 then 3 else 0 :: int)
       in if n > 0 then
            bind_sx (read_int_be_by_size P n) (\<lambda>v. bind_sx (lift_sx (some_int v)) (\<lambda>us.
              ret_sx ((if f mod 2 \<noteq> 0 then trunc_div us 10 else us) * 10 ^ nat (6 - f))))
          else ret_sx 0)"

definition replace_microsecond :: "pyval \<Rightarrow> int \<Rightarrow> pyval res" where
  "replace_microsecond t us =
     (case t of PDatetime y mo d h mi s _ \<Rightarrow> mk_datetime y mo d h mi s us | _ \<Rightarrow> Inl TypeError)"

definition add_fsp_to_time :: "'p packet_ops \<Rightarrow> column \<Rightarrow> pyval \<Rightarrow> ('p, pyval) reader" where
  "add_fsp_to_time P col time =
     bind_sx (read_fsp P col) (\<lambda>us. if us > 0 then lift_sx (replace_microsecond time us) else ret_sx time)"

text \<open>\<open>datetime.timedelta\<close> in microseconds.\<close>

definition mk_timedelta :: "int \<Rightarrow> int \<Rightarrow> int \<Rightarrow> int \<Rightarrow> int" where
  "mk_timedelta h m s us = ((h * 60 + m) * 60 + s) * 1000000 + us"

definition read_time :: "'p packet_ops \<Rightarrow> ('p, pyval) reader" where
  "read_time P = bind_sx (read_uint24 P) (\<lambda>t.
     ret_sx (PTimedelta (mk_timedelta (trunc_div t 10000) (trunc_div (t mod 10000) 100) (t mod 100) 0)))"

definition read_time2 :: "'p packet_ops \<Rightarrow> column \<Rightarrow> ('p, pyval) reader" where
  "read_time2 P col =
     bind_sx (read_int_be_by_size P 3) (\<lambda>v. bind_sx (lift_sx (some_int v)) (\<lambda>data0.
       let sign = (if read_binary_slice data0 0 1 24 \<noteq> 0 then 1 else - 1);
           data = (if sign = - 1 then not data0 + 1 else data0)
       in bind_sx (read_fsp P col) (\<lambda>us.
         ret_sx (PTimedelta (mk_timedelta (read_binary_slice data 2 10 24) (read_binary_slice data 12 6 24)
           (read_binary_slice data 18 6 24) us * sign)))))"

definition read_date :: "int \<Rightarrow> pyval res" where
  "read_date time =
     (if time = 0 then Inr PNone
      else let year = drop_bit 9 (and time (push_bit 9 (push_bit 15 1 - 1)));
               month = drop_bit 5 (and time (push_bit 5 (push_bit 4 1 - 1)));
               day = and time (push_bit 5 1 - 1)
           in if year = 0 \<or> month = 0 \<or> day = 0 then Inr PNone else mk_date year month day)"

definition read_datetime2 :: "'p packet_ops \<Rightarrow> column \<Rightarrow> int \<Rightarrow> ('p, pyval) reader" where
  "read_datetime2 P col data =
     (let year_month = read_binary_slice data 1 17 40
      in case mk_datetime (year_month div 13) (year_month mod 13) (read_binary_slice data 18 5 40)
                (read_binary_slice data 23 5 40) (read_binary_slice data 28 6 40) (read_binary_slice data 34 6 40) 0 of
           Inl _ \<Rightarrow> bind_sx (read_fsp P col) (\<lambda>_. ret_sx PNone)
         | Inr t \<Rightarrow> add_fsp_to_time P col t)"

text \<open>\<open>datetime.utcfromtimestamp\<close>: the proleptic Gregorian date of a day, as the \<open>datetime\<close> module
  computes it from the number of days since the first day of the year 1 (which is day 1).\<close>

definition days_before_year :: "int \<Rightarrow> int" where
  "days_before_year year = (let y = year - 1 in y * 365 + y div 4 - y div 100 + y div 400)"

definition days_before_month :: "int \<Rightarrow> int \<Rightarrow> int" where
  "days_before_month year month =
     [0, 31, 59, 90, 120, 151, 181, 212, 243, 273, 304, 334] ! nat (month - 1)
       + (if month > 2 \<and> leap_year year then 1 else 0)"

definition ord2ymd :: "int \<Rightarrow> int \<times> int \<times> int" where
  "ord2ymd ordinal =
     (let n = ordinal - 1;
          n400 = n div 146097; r400 = n mod 146097;
          n100 = r400 div 36524; r100 = r400 mod 36524;
          n4 = r100 div 1461; r4 = r100 mod 1461;
          n1 = r4 div 365; r1 = r4 mod 365;
          year = n400 * 400 + 1 + n100 * 100 + n4 * 4 + n1
      in if n1 = 4 \<or> n100 = 4 then (year - 1, 12, 31)
         else let guess = (r1 + 50) div 32;
                  month = (if days_before_month year guess > r1 then guess - 1 else guess)
              in (year, month, r1 - days_before_month year month + 1))"

definition utcfromtimestamp :: "int \<Rightarrow> pyval res" where
  "utcfromtimestamp ts =
     (let (y, m, d) = ord2ymd (ts div 86400 + 719163); s = ts mod 86400
      in mk_datetime y m d (s div 3600) (s mod 3600 div 60) (s mod 60) 0)"

subsection \<open>Strings, bits and decimals\<close>

definition charset_to_encoding :: "row_env \<Rightarrow> string \<Rightarrow> string" where
  "charset_to_encoding E nm = (case pymysql_encoding E nm of Some enc \<Rightarrow> enc | None \<Rightarrow> nm)"

definition py_decode :: "row_env \<Rightarrow> string \<Rightarrow> bytes \<Rightarrow> string res" where
  "py_decode E encoding b =
     (if encoding \<in> {''utf8'', ''utf-8''}
      then (if ignore_decode_errors E then decode_utf8_ignore b else decode_utf8 b)
      else codec E encoding (ignore_decode_errors E) b)"

definition decode_string :: "row_env \<Rightarrow> column \<Rightarrow> bytes \<Rightarrow> pyval res" where
  "decode_string E col b =
     (case character_set_name col of
        Some cs \<Rightarrow>
          (case py_decode E (charset_to_encoding E cs) b of
             Inl LookupError \<Rightarrow> Inr (PBytes b)
           | Inl e \<Rightarrow> Inl e
           | Inr s \<Rightarrow> Inr (PStr s))
      | None \<Rightarrow> bind_res (py_decode E ''utf-8'' b) (\<lambda>s. Inr (PStr s)))"

definition read_string_value :: "'p packet_ops \<Rightarrow> row_env \<Rightarrow> int \<Rightarrow> column \<Rightarrow> ('p, pyval) reader" where
  "read_string_value P E sz col =
     bind_sx (read_length_coded_pascal_string P sz) (\<lambda>b. lift_sx (decode_string E col b))"

definition bit_chars :: "int \<Rightarrow> nat \<Rightarrow> string" where
  "bit_chars data n = rev (map (\<lambda>i. if and data (push_bit i 1) \<noteq> 0 then CHR ''1'' else CHR ''0'') [0..<n])"

definition bit_end :: "int \<Rightarrow> int \<Rightarrow> nat \<Rightarrow> int" where
  "bit_end nbits nbys i =
     (if i = 0 then (if nbys = 1 then nbits else if nbits mod 8 = 0 then 8 else nbits mod 8) else 8)"

fun bit_loop :: "'p packet_ops \<Rightarrow> int \<Rightarrow> int \<Rightarrow> nat list \<Rightarrow> string \<Rightarrow> ('p, string) reader" where
  "bit_loop P nbits nbys [] resp = ret_sx resp"
| "bit_loop P nbits nbys (i # is) resp =
     bind_sx (read_uint8 P) (\<lambda>data. bit_loop P nbits nbys is (resp @ bit_chars data (nat (bit_end nbits nbys i))))"

definition read_bit :: "'p packet_ops \<Rightarrow> column \<Rightarrow> ('p, pyval) reader" where
  "read_bit P col =
     bind_sx (lift_sx (attr (nbytes col))) (\<lambda>nbys. bind_sx (lift_sx (attr (bits col))) (\<lambda>nbits.
       bind_sx (bit_loop P nbits nbys [0..<nat nbys] []) (\<lambda>s. ret_sx (PStr s))))"

fun decimal_groups :: "'p packet_ops \<Rightarrow> int \<Rightarrow> nat \<Rightarrow> string \<Rightarrow> ('p, string) reader" where
  "decimal_groups P msk 0 res = ret_sx res"
| "decimal_groups P msk (Suc n) res =
     bind_sx (unpacked P 4 (unpack_int_be 4)) (\<lambda>v. decimal_groups P msk n (res @ fmt_zero 9 (xor v msk)))"

definition decimal_part :: "'p packet_ops \<Rightarrow> int \<Rightarrow> nat \<Rightarrow> (int \<Rightarrow> string) \<Rightarrow> string \<Rightarrow> ('p, string) reader" where
  "decimal_part P msk n fmt res =
     (if n > 0
      then bind_sx (read_int_be_by_size P (int n)) (\<lambda>v. bind_sx (lift_sx (some_int v)) (\<lambda>i.
        ret_sx (res @ fmt (xor i msk))))
      else ret_sx res)"

definition read_new_decimal :: "'p packet_ops \<Rightarrow> column \<Rightarrow> ('p, pyval) reader" where
  "read_new_decimal P col =
     bind_sx (lift_sx (attr (precision col))) (\<lambda>prec. bind_sx (lift_sx (attr (decimals col))) (\<lambda>decs.
     let integral = prec - decs;
         uncomp_integral = trunc_div integral 9; uncomp_fractional = trunc_div decs 9;
         comp_integral = integral - uncomp_integral * 9; comp_fractional = decs - uncomp_fractional * 9
     in bind_sx (read_uint8 P) (\<lambda>value.
        let (res, msk) = (if and value 0x80 \<noteq> 0 then ([], 0) else (''-'', - 1))
        in bind_sx (unread [word_of_int (xor value 0x80)]) (\<lambda>_.
           bind_sx (lift_sx (py_nth compressed_bytes comp_integral)) (\<lambda>n.
           bind_sx (decimal_part P msk n str_int res) (\<lambda>res1.
           bind_sx (decimal_groups P msk (nat uncomp_integral) res1) (\<lambda>res2.
           bind_sx (decimal_groups P msk (nat uncomp_fractional) (res2 @ ''.'')) (\<lambda>res3.
           bind_sx (lift_sx (py_nth compressed_bytes comp_fractional)) (\<lambda>n2.
           bind_sx (decimal_part P msk n2 (fmt_zero (nat comp_fractional)) res3) (\<lambda>res4.
             lift_sx (mk_decimal res4)))))))))))"

subsection \<open>One value\<close>

definition is_null :: "bytes \<Rightarrow> nat \<Rightarrow> bool res" where
  "is_null null_bitmap position =
     bind_res (index_at null_bitmap (position div 8)) (\<lambda>b.
       Inr (and (uint b) (push_bit (position mod 8) 1) \<noteq> 0))"

definition int_column :: "'p packet_ops \<Rightarrow> nat \<Rightarrow> bool \<Rightarrow> ('p, pyval) reader" where
  "int_column P n uns =
     bind_sx (unpacked P n (if uns then unpack_uint n else unpack_int n)) (\<lambda>v. ret_sx (PInt v))"

definition float_column :: "'p packet_ops \<Rightarrow> nat \<Rightarrow> ('p, pyval) reader" where
  "float_column P n = bind_sx (read P (int n)) (\<lambda>b. ret_sx (PFloat b))"

definition enum_column :: "'p packet_ops \<Rightarrow> column \<Rightarrow> ('p, pyval) reader" where
  "enum_column P col =
     bind_sx (lift_sx (attr (size col))) (\<lambda>n. bind_sx (read_uint_by_size P n) (\<lambda>i.
       case enum_values col of
         Some (v # vs) \<Rightarrow> lift_sx (bind_res (some_int i) (\<lambda>k. bind_res (py_nth (v # vs) k) (\<lambda>s. Inr (PStr s))))
       | _ \<Rightarrow> ret_sx PNone))"

definition set_members :: "int \<Rightarrow> string list \<Rightarrow> string list" where
  "set_members bit_mask vs = map snd (filter (\<lambda>(idx, v). and bit_mask (push_bit idx 1) \<noteq> 0) (enumerate 0 vs))"

definition set_column :: "'p packet_ops \<Rightarrow> row_env \<Rightarrow> column \<Rightarrow> ('p, column_value) reader" where
  "set_column P E col =
     bind_sx (lift_sx (attr (size col))) (\<lambda>n. bind_sx (read_uint_by_size P n) (\<lambda>m.
       case set_values col of
         Some (v # vs) \<Rightarrow> bind_sx (lift_sx (some_int m)) (\<lambda>bit_mask.
           let ret = set_members bit_mask (v # vs)
           in ret_sx (if ret = [] then missing NS_EMPTY_SET else plain (PSet (set_order E ret))))
       | _ \<Rightarrow> ret_sx (missing NS_EMPTY_SET)))"

definition json_value_column :: "'p packet_ops \<Rightarrow> row_env \<Rightarrow> column \<Rightarrow> bool \<Rightarrow> ('p, column_value) reader" where
  "json_value_column P E col is_partial =
     bind_sx (lift_sx (attr (length_size col))) (\<lambda>n. bind_sx (read_binary_json P (json_room E) n is_partial) (\<lambda>v.
       ret_sx \<lparr>cv_value = v,
         cv_none = (if \<not> truthy_cell v \<and> is_partial then Some NS_JSON_PARTIAL_UPDATE else None),
         cv_raw = None\<rparr>))"

definition as_plain :: "('p, pyval) reader \<Rightarrow> ('p, column_value) reader" where
  "as_plain m = bind_sx m (\<lambda>v. ret_sx (plain v))"

text \<open>The part of \<open>__read_values_name\<close> that dispatches on the type. The branch for DATETIME calls
  \<open>__read_datetime\<close> without its argument.\<close>

definition read_column_value :: "'p packet_ops \<Rightarrow> row_env \<Rightarrow> column \<Rightarrow> bool \<Rightarrow> bool \<Rightarrow> ('p, column_value) reader" where
  "read_column_value P E col uns is_partial =
     (let t = ctype col
      in if t = FT_TINY then as_plain (int_column P 1 uns)
         else if t = FT_SHORT then as_plain (int_column P 2 uns)
         else if t = FT_LONG then as_plain (int_column P 4 uns)
         else if t = FT_INT24 then as_plain (bind_sx (if uns then read_uint24 P else read_int24 P) (\<lambda>v. ret_sx (PInt v)))
         else if t = FT_FLOAT then as_plain (float_column P 4)
         else if t = FT_DOUBLE then as_plain (float_column P 8)
         else if t = FT_VARCHAR \<or> t = FT_STRING then
           bind_sx (lift_sx (attr (max_length col))) (\<lambda>n. as_plain (read_string_value P E (if n > 255 then 2 else 1) col))
         else if t = FT_NEWDECIMAL then as_plain (read_new_decimal P col)
         else if t = FT_BLOB then
           bind_sx (lift_sx (attr (length_size col))) (\<lambda>n. as_plain (read_string_value P E n col))
         else if t = FT_DATETIME then bind_sx (read_uint64 P) (\<lambda>_. raise_sx TypeError)
         else if t = FT_TIME then as_plain (read_time P)
         else if t = FT_DATE then
           bind_sx (read_uint24 P) (\<lambda>raw. bind_sx (lift_sx (read_date raw)) (\<lambda>v. ret_sx (dated raw NS_OUT_OF_DATE_RANGE v)))
         else if t = FT_TIMESTAMP then
           bind_sx (read_uint32 P) (\<lambda>raw. bind_sx (lift_sx (utcfromtimestamp raw)) (\<lambda>v.
             ret_sx \<lparr>cv_value = JsonValue v, cv_none = None, cv_raw = Some raw\<rparr>))
         else if t = FT_DATETIME2 then
           bind_sx (read_int_be_by_size P 5) (\<lambda>r. bind_sx (lift_sx (some_int r)) (\<lambda>raw.
             bind_sx (read_datetime2 P col raw) (\<lambda>v. ret_sx (dated raw NS_OUT_OF_DATETIME2_RANGE v))))
         else if t = FT_TIME2 then as_plain (read_time2 P col)
         else if t = FT_TIMESTAMP2 then
           bind_sx (read_int_be_by_size P 4) (\<lambda>r. bind_sx (lift_sx (some_int r)) (\<lambda>ts.
             bind_sx (lift_sx (utcfromtimestamp ts)) (\<lambda>v. as_plain (add_fsp_to_time P col v))))
         else if t = FT_LONGLONG then as_plain (bind_sx (if uns then read_uint64 P else read_int64 P) (\<lambda>v. ret_sx (PInt v)))
         else if t = FT_YEAR then as_plain (bind_sx (read_uint8 P) (\<lambda>v. ret_sx (PInt (v + 1900))))
         else if t = FT_ENUM then as_plain (enum_column P col)
         else if t = FT_SET then set_column P E col
         else if t = FT_BIT then as_plain (read_bit P col)
         else if t = FT_GEOMETRY then
           bind_sx (lift_sx (attr (length_size col))) (\<lambda>n.
             bind_sx (read_length_coded_pascal_string P n) (\<lambda>b. ret_sx (plain (PBytes b))))
         else if t = FT_JSON then json_value_column P E col is_partial
         else raise_sx NotImplementedError)"

definition read_values_name ::
    "'p packet_ops \<Rightarrow> row_env \<Rightarrow> column \<Rightarrow> bytes \<Rightarrow> nat \<Rightarrow> bool \<Rightarrow> bytes \<Rightarrow> bool \<Rightarrow> nat \<Rightarrow> ('p, column_value) reader" where
  "read_values_name P E col null_bitmap null_bitmap_index is_partial cols_bitmap uns i =
     bind_sx (lift_sx (BitGet cols_bitmap i)) (\<lambda>present.
       if present = 0 then ret_sx (missing NS_COLS_BITMAP)
       else bind_sx (lift_sx (is_null null_bitmap null_bitmap_index)) (\<lambda>null.
         if null then ret_sx (missing NS_NULL) else read_column_value P E col uns is_partial))"

end
