(* ===== verification/Row_Event.thy ===== *)
theory Row_Event
  imports Row_Values
begin

text \<open>
  The row events of \<open>row_event.py\<close>: the header of \<open>RowsEvent\<close> with its filters, the reading of a row
  image, and the rows of write, delete, update and partial update events.

  \<open>self.columns\<close> and the columns of the table map are one list in the code while an event is processed,
  so the model has one list of columns. The dictionaries \<open>none_sources\<close> and \<open>row_values\<close> live as long as
  the event and are not cleared between its rows; they are the notes of the model. The loop of
  \<open>_fetch_rows\<close> has fuel, and running out of it is \<open>None\<close>: the loop need not end when a row image has no
  bytes.
\<close>

section \<open>Definitions\<close>

subsection \<open>Filters\<close>

record filters =
  only_tables :: "string list option"
  ignored_tables :: "string list option"
  only_schemas :: "string list option"
  ignored_schemas :: "string list option"

definition excluded_by :: "string list option \<Rightarrow> string list option \<Rightarrow> string \<Rightarrow> bool" where
  "excluded_by only ignored x =
     (case only of
        Some xs \<Rightarrow> if x \<notin> set xs then True
          else (case ignored of Some ys \<Rightarrow> x \<in> set ys | None \<Rightarrow> False)
      | None \<Rightarrow> (case ignored of Some ys \<Rightarrow> x \<in> set ys | None \<Rightarrow> False))"

definition filtered_out :: "filters \<Rightarrow> string \<Rightarrow> string \<Rightarrow> bool" where
  "filtered_out F schema tab =
     (if excluded_by (only_tables F) (ignored_tables F) tab then True
      else excluded_by (only_schemas F) (ignored_schemas F) schema)"

subsection \<open>Header\<close>

datatype extra_info =
    NoExtra
  | NdbInfo int int bytes
  | PartitionId int
  | PartitionIds int int
  | OtherExtra int bytes

record rows_event =
  re_type :: int
  re_size :: int
  re_table_id :: int
  re_schema :: string
  re_table :: string
  re_primary_key :: primary_key
  re_flags :: int
  re_extra_length :: int
  re_extra :: extra_info
  re_number_of_columns :: "int option"
  re_columns :: "column list"
  re_present :: bytes
  re_present2 :: bytes
  re_complete :: bool

definition read_table_id :: "'p packet_ops \<Rightarrow> ('p, int) reader" where
  "read_table_id P = unpacked P 6 (\<lambda>b. unpack_uint 8 (b @ [0, 0]))"

definition two_uint16 :: "bytes \<Rightarrow> (int \<times> int) res" where
  "two_uint16 b = (if length b = 4 then Inr (le_val (take 2 b), le_val (drop 2 b)) else Inl StructError)"

definition two_uint8 :: "bytes \<Rightarrow> (int \<times> int) res" where
  "two_uint8 b = (case b of [x, y] \<Rightarrow> Inr (uint x, uint y) | _ \<Rightarrow> Inl StructError)"

definition read_extra :: "'p packet_ops \<Rightarrow> int \<Rightarrow> int \<Rightarrow> ('p, extra_info) reader" where
  "read_extra P event_type extra_data_length =
     (if extra_data_length > 2 then
        bind_sx (unpacked P 1 (unpack_uint 1)) (\<lambda>extra_data_type.
          if extra_data_type = 0 then
            bind_sx (unpacked P 2 two_uint8) (\<lambda>(len, fmt). bind_sx (read P (len - 2)) (\<lambda>info. ret_sx (NdbInfo len fmt info)))
          else if extra_data_type = 1 then
            (if event_type = UPDATE_ROWS_EVENT_V2 \<or> event_type = PARTIAL_UPDATE_ROWS_EVENT
             then bind_sx (unpacked P 4 two_uint16) (\<lambda>(a, b). ret_sx (PartitionIds a b))
             else bind_sx (unpacked P 2 (unpack_uint 2)) (\<lambda>a. ret_sx (PartitionId a)))
          else bind_sx (read P (extra_data_length - 3)) (\<lambda>b. ret_sx (OtherExtra extra_data_type b)))
      else ret_sx NoExtra)"

text \<open>\<open>None\<close> stands for an event whose attribute \<open>_processed\<close> is false.\<close>

definition rows_event_init ::
    "'p packet_ops \<Rightarrow> filters \<Rightarrow> (int, table) dict \<Rightarrow> int \<Rightarrow> int \<Rightarrow> ('p, rows_event option) reader" where
  "rows_event_init P F tm event_type event_size =
     bind_sx (read_table_id P) (\<lambda>tid.
       case map_of tm tid of
         None \<Rightarrow> ret_sx None
       | Some t \<Rightarrow>
           if filtered_out F (t_schema t) (t_table t) then ret_sx None
           else
             bind_sx (if event_type = WRITE_ROWS_EVENT_V2 \<or> event_type = DELETE_ROWS_EVENT_V2
                        \<or> event_type = UPDATE_ROWS_EVENT_V2 \<or> event_type = PARTIAL_UPDATE_ROWS_EVENT
                      then bind_sx (unpacked P 4 two_uint16) (\<lambda>(flags, len).
                        bind_sx (read_extra P event_type len) (\<lambda>x. ret_sx (flags, len, x)))
                      else bind_sx (unpacked P 2 (unpack_uint 2)) (\<lambda>flags. ret_sx (flags, 0, NoExtra)))
               (\<lambda>(flags, len, x). bind_sx (read_length_coded_binary P) (\<lambda>n.
                 ret_sx (Some \<lparr>re_type = event_type, re_size = event_size, re_table_id = tid,
                   re_schema = t_schema t, re_table = t_table t, re_primary_key = t_primary_key t,
                   re_flags = flags, re_extra_length = len, re_extra = x, re_number_of_columns = n,
                   re_columns = t_columns t, re_present = [], re_present2 = [], re_complete = True\<rparr>))))"

definition read_present_bitmap :: "'p packet_ops \<Rightarrow> rows_event \<Rightarrow> ('p, bytes) reader" where
  "read_present_bitmap P ev =
     bind_sx (lift_sx (some_int (re_number_of_columns ev))) (\<lambda>n. read P ((n + 7) div 8))"

definition write_rows_event_init ::
    "'p packet_ops \<Rightarrow> filters \<Rightarrow> (int, table) dict \<Rightarrow> int \<Rightarrow> int \<Rightarrow> ('p, rows_event option) reader" where
  "write_rows_event_init P F tm event_type event_size =
     bind_sx (rows_event_init P F tm event_type event_size) (\<lambda>e.
       case e of
         None \<Rightarrow> ret_sx None
       | Some ev \<Rightarrow> bind_sx (read_present_bitmap P ev) (\<lambda>b. ret_sx (Some (ev\<lparr>re_present := b\<rparr>))))"

definition delete_rows_event_init ::
    "'p packet_ops \<Rightarrow> filters \<Rightarrow> (int, table) dict \<Rightarrow> int \<Rightarrow> int \<Rightarrow> ('p, rows_event option) reader" where
  "delete_rows_event_init P F tm event_type event_size =
     bind_sx (rows_event_init P F tm event_type event_size) (\<lambda>e.
       case e of
         None \<Rightarrow> ret_sx None
       | Some ev \<Rightarrow> bind_sx (read_present_bitmap P ev) (\<lambda>b. ret_sx (Some (ev\<lparr>re_present := b\<rparr>))))"

definition update_rows_event_init ::
    "'p packet_ops \<Rightarrow> filters \<Rightarrow> (int, table) dict \<Rightarrow> int \<Rightarrow> int \<Rightarrow> ('p, rows_event option) reader" where
  "update_rows_event_init P F tm event_type event_size =
     bind_sx (rows_event_init P F tm event_type event_size) (\<lambda>e.
       case e of
         None \<Rightarrow> ret_sx None
       | Some ev \<Rightarrow> bind_sx (read_present_bitmap P ev) (\<lambda>b. bind_sx (read_present_bitmap P ev) (\<lambda>b2.
           ret_sx (Some (ev\<lparr>re_present := b, re_present2 := b2\<rparr>)))))"

subsection \<open>Row images\<close>

datatype row_image_type = WriteAI | UpdateBI | UpdateAI | DeleteBI

definition row_image_by_index :: "int \<Rightarrow> row_image_type res" where
  "row_image_by_index i =
     (if i = 0 then Inr WriteAI else if i = 1 then Inr UpdateBI else if i = 2 then Inr UpdateAI
      else if i = 3 then Inr DeleteBI else Inl ValueError)"

definition json_column_count :: "column list \<Rightarrow> nat" where
  "json_column_count columns = length (filter (\<lambda>c. ctype c = FT_JSON) columns)"

record row_notes =
  none_sources :: "(string, string) dict"
  row_values :: "(string, int) dict"

type_synonym values_dict = "(string, cell) dict"

record row_acc =
  ra_values :: values_dict
  ra_notes :: row_notes
  ra_null_index :: nat
  ra_partial_index :: nat

definition value_name :: "column \<Rightarrow> nat \<Rightarrow> string" where
  "value_name col i = (if name col = [] then ''UNKNOWN_COL'' @ str_nat i else name col)"

definition note_value :: "string \<Rightarrow> column_value \<Rightarrow> row_notes \<Rightarrow> row_notes" where
  "note_value nm cv ns =
     \<lparr>none_sources = (case cv_none cv of None \<Rightarrow> none_sources ns | Some src \<Rightarrow> dict_set nm src (none_sources ns)),
      row_values = (case cv_raw cv of None \<Rightarrow> row_values ns | Some raw \<Rightarrow> dict_set nm raw (row_values ns))\<rparr>"

definition partial_flag :: "bytes option \<Rightarrow> column \<Rightarrow> row_acc \<Rightarrow> (bool \<times> nat) res" where
  "partial_flag partial_bitmap col acc =
     (case partial_bitmap of
        None \<Rightarrow> Inr (False, ra_partial_index acc)
      | Some b \<Rightarrow>
          if ctype col = FT_JSON
          then bind_res (BitGet b (ra_partial_index acc)) (\<lambda>v. Inr (v > 0, ra_partial_index acc + 1))
          else Inr (False, ra_partial_index acc))"

fun column_loop ::
    "'p packet_ops \<Rightarrow> row_env \<Rightarrow> bytes option \<Rightarrow> bytes \<Rightarrow> bytes \<Rightarrow> nat \<Rightarrow> column list \<Rightarrow> row_acc \<Rightarrow> ('p, row_acc) reader" where
  "column_loop P E partial_bitmap null_bitmap cols_bitmap i [] acc = ret_sx acc"
| "column_loop P E partial_bitmap null_bitmap cols_bitmap i (col # cols) acc =
     bind_sx (lift_sx (partial_flag partial_bitmap col acc)) (\<lambda>(is_partial, pidx).
     bind_sx (read_values_name P E col null_bitmap (ra_null_index acc) is_partial cols_bitmap (unsigned col) i) (\<lambda>cv.
     bind_sx (lift_sx (BitGet cols_bitmap i)) (\<lambda>present.
       column_loop P E partial_bitmap null_bitmap cols_bitmap (i + 1) cols
         \<lparr>ra_values = dict_set (value_name col i) (cv_value cv) (ra_values acc),
          ra_notes = note_value (name col) cv (ra_notes acc),
          ra_null_index = ra_null_index acc + (if present \<noteq> 0 then 1 else 0),
          ra_partial_index = pidx\<rparr>)))"

text \<open>The bitmap of the partial JSON columns, \<open>None\<close> when \<open>is_partial_json_update\<close> is false.\<close>

definition read_partial_bitmap :: "'p packet_ops \<Rightarrow> rows_event \<Rightarrow> row_image_type option \<Rightarrow> ('p, bytes option) reader" where
  "read_partial_bitmap P ev image_type =
     (if re_type ev = PARTIAL_UPDATE_ROWS_EVENT \<and> image_type = Some UpdateAI then
        bind_sx (read_length_coded_binary P) (\<lambda>v. bind_sx (lift_sx (some_int v)) (\<lambda>binlog_row_value_option.
          if and binlog_row_value_option 0x81 \<noteq> 0
          then bind_sx (read P (int ((json_column_count (re_columns ev) + 7) div 8))) (\<lambda>b. ret_sx (Some b))
          else ret_sx None))
      else ret_sx None)"

definition read_column_data ::
    "'p packet_ops \<Rightarrow> row_env \<Rightarrow> rows_event \<Rightarrow> bytes \<Rightarrow> row_image_type option \<Rightarrow> row_notes \<Rightarrow> ('p, values_dict \<times> row_notes) reader" where
  "read_column_data P E ev cols_bitmap image_type ns =
     bind_sx (read_partial_bitmap P ev image_type) (\<lambda>partial_bitmap.
     bind_sx (read P (int ((BitCount cols_bitmap + 7) div 8))) (\<lambda>null_bitmap.
     bind_sx (column_loop P E partial_bitmap null_bitmap cols_bitmap 0 (re_columns ev)
        \<lparr>ra_values = [], ra_notes = ns, ra_null_index = 0, ra_partial_index = 0\<rparr>) (\<lambda>acc.
       ret_sx (ra_values acc, ra_notes acc))))"

text \<open>A missing value without a note has the source \<open>null\<close>; the raw values give \<open>None\<close> for it.\<close>

definition get_none_sources :: "row_notes \<Rightarrow> values_dict \<Rightarrow> (string, string) dict" where
  "get_none_sources ns column_data =
     map (\<lambda>(k, v). (k, case map_of (none_sources ns) k of Some s \<Rightarrow> s | None \<Rightarrow> ''null''))
       (filter (\<lambda>(k, v). v = JsonValue PNone) column_data)"

definition get_row_values :: "row_notes \<Rightarrow> values_dict \<Rightarrow> (string, pyval) dict" where
  "get_row_values ns column_data =
     map (\<lambda>(k, v). (k, case map_of (row_values ns) k of Some raw \<Rightarrow> PInt raw | None \<Rightarrow> PStr ''null''))
       (filter (\<lambda>(k, v). v = JsonValue PNone) column_data)"

subsection \<open>Rows\<close>

record row_image =
  im_values :: values_dict
  im_none_sources :: "(string, string) dict"
  im_raw_values :: "(string, pyval) dict"

datatype row = ValuesRow row_image | UpdateRow row_image row_image

definition fetch_image ::
    "'p packet_ops \<Rightarrow> row_env \<Rightarrow> rows_event \<Rightarrow> bytes \<Rightarrow> row_image_type option \<Rightarrow> row_notes \<Rightarrow> ('p, row_image \<times> row_notes) reader" where
  "fetch_image P E ev cols_bitmap image_type ns =
     bind_sx (read_column_data P E ev cols_bitmap image_type ns) (\<lambda>(vs, ns').
       ret_sx (\<lparr>im_values = vs, im_none_sources = get_none_sources ns' vs, im_raw_values = get_row_values ns' vs\<rparr>, ns'))"

definition write_fetch_one_row :: "'p packet_ops \<Rightarrow> row_env \<Rightarrow> rows_event \<Rightarrow> row_notes \<Rightarrow> ('p, row \<times> row_notes) reader" where
  "write_fetch_one_row P E ev ns =
     bind_sx (fetch_image P E ev (re_present ev) None ns) (\<lambda>(im, ns'). ret_sx (ValuesRow im, ns'))"

definition delete_fetch_one_row :: "'p packet_ops \<Rightarrow> row_env \<Rightarrow> rows_event \<Rightarrow> row_notes \<Rightarrow> ('p, row \<times> row_notes) reader" where
  "delete_fetch_one_row P E ev ns =
     bind_sx (fetch_image P E ev (re_present ev) None ns) (\<lambda>(im, ns'). ret_sx (ValuesRow im, ns'))"

definition update_fetch_one_row :: "'p packet_ops \<Rightarrow> row_env \<Rightarrow> rows_event \<Rightarrow> row_notes \<Rightarrow> ('p, row \<times> row_notes) reader" where
  "update_fetch_one_row P E ev ns =
     bind_sx (fetch_image P E ev (re_present ev) None ns) (\<lambda>(before, ns1).
     bind_sx (fetch_image P E ev (re_present2 ev) None ns1) (\<lambda>(after, ns2). ret_sx (UpdateRow before after, ns2)))"

text \<open>A row of a partial update has no raw values.\<close>

definition partial_update_fetch_one_row ::
    "'p packet_ops \<Rightarrow> row_env \<Rightarrow> rows_event \<Rightarrow> row_notes \<Rightarrow> ('p, row \<times> row_notes) reader" where
  "partial_update_fetch_one_row P E ev ns =
     bind_sx (fetch_image P E ev (re_present ev) (Some UpdateBI) ns) (\<lambda>(before, ns1).
     bind_sx (fetch_image P E ev (re_present2 ev) (Some UpdateAI) ns1) (\<lambda>(after, ns2).
       ret_sx (UpdateRow (before\<lparr>im_raw_values := []\<rparr>) (after\<lparr>im_raw_values := []\<rparr>), ns2)))"

fun rows_loop ::
    "nat \<Rightarrow> (row_notes \<Rightarrow> ('p, row \<times> row_notes) reader) \<Rightarrow> int \<Rightarrow> row list \<Rightarrow> row_notes \<Rightarrow> 'p wrapper \<Rightarrow> (row list res \<times> 'p wrapper) option" where
  "rows_loop 0 fetch event_size rows ns w = None"
| "rows_loop (Suc n) fetch event_size rows ns w =
     (if read_bytes w < event_size
      then (case fetch ns w of
              (Inl e, w') \<Rightarrow> Some (Inl e, w')
            | (Inr (row, ns'), w') \<Rightarrow> rows_loop n fetch event_size (rows @ [row]) ns' w')
      else Some (Inr rows, w))"

definition fetch_rows ::
    "nat \<Rightarrow> (row_notes \<Rightarrow> ('p, row \<times> row_notes) reader) \<Rightarrow> rows_event \<Rightarrow> 'p wrapper \<Rightarrow> (row list res \<times> 'p wrapper) option" where
  "fetch_rows fuel fetch ev w =
     (if \<not> re_complete ev then Some (Inr [], w)
      else rows_loop fuel fetch (re_size ev) [] \<lparr>none_sources = [], row_values = []\<rparr> w)"

end
