(* ===== verification/Row_Codec.thy ===== *)
theory Row_Codec
  imports Row_Event
begin

text \<open>
  What the row events mean: the encoding of rows as MySQL writes them, and the proof that the rows of an
  event are read back. \<open>put_value\<close> encodes a value of a column (integers of all widths, floats, years,
  strings, dates, date times with fractions, enumerations); \<open>put_image\<close> encodes a row image in which each
  column is absent, NULL or has a value.
\<close>

section \<open>Bit fields\<close>

lemma and_low_bits: "and x (2 ^ k - 1) = x mod 2 ^ k" for x :: int
  by (simp flip: take_bit_eq_mod take_bit_eq_mask mask_eq_exp_minus_1)

lemma field_bits: "drop_bit n (and x (push_bit n (2 ^ k - 1))) = x div 2 ^ n mod 2 ^ k" for x :: int
proof -
  have "drop_bit n (and x (push_bit n (mask k))) = take_bit k (drop_bit n x)"
    by (rule bit_eqI) (auto simp: bit_simps)
  then show ?thesis by (simp add: mask_eq_exp_minus_1 take_bit_eq_mod drop_bit_eq_div)
qed

lemma slice_bits:
  "read_binary_slice x start sz len = x div 2 ^ (len - (start + sz)) mod 2 ^ sz"
  using and_low_bits [of "drop_bit (len - (start + sz)) x" sz]
  by (simp add: read_binary_slice_def push_bit_eq_mult drop_bit_eq_div)

lemma div_high: "0 \<le> b \<Longrightarrow> b < k \<Longrightarrow> (a * k + b) div k = a" for a :: int
  by simp

lemma mod_low: "0 \<le> b \<Longrightarrow> b < k \<Longrightarrow> (a * k + b) mod k = b" for a :: int
  by simp

lemma decodes_lift: "x = Inr v \<Longrightarrow> decodes r (lift_sx x) [] v"
  by (simp add: decodes_ret)

lemma decodes_Pair [simp]: "decodes r (Pair (Inr v)) [] v"
  by (simp add: decodes_def)

section \<open>Encoding of values\<close>

definition put_int :: "nat \<Rightarrow> bool \<Rightarrow> int \<Rightarrow> bytes option" where
  "put_int n uns i =
     (if uns then (if 0 \<le> i \<and> i < 256 ^ n then Some (le_bytes n i) else None)
      else (if - (256 ^ n) \<le> 2 * i \<and> 2 * i < 256 ^ n then Some (le_bytes n (i mod 256 ^ n)) else None))"

definition utf8_column :: "row_env \<Rightarrow> column \<Rightarrow> bool" where
  "utf8_column E col =
     (case character_set_name col of None \<Rightarrow> True | Some cs \<Rightarrow> charset_to_encoding E cs \<in> {''utf8'', ''utf-8''})"

definition ascii_bytes :: "string \<Rightarrow> bytes" where
  "ascii_bytes s = map (\<lambda>c. word_of_nat (of_char c)) s"

definition put_string :: "row_env \<Rightarrow> column \<Rightarrow> int \<Rightarrow> string \<Rightarrow> bytes option" where
  "put_string E col k s =
     (if utf8_column E col \<and> 1 \<le> k \<and> k \<le> 4 \<and> int (length s) < 256 ^ nat k
        \<and> list_all (\<lambda>c. (of_char c :: nat) < 128) s
      then Some (le_bytes (nat k) (int (length s)) @ ascii_bytes s) else None)"

definition put_fraction :: "int \<Rightarrow> int \<Rightarrow> bytes option" where
  "put_fraction f us =
     (if 0 \<le> f \<and> f \<le> 6 \<and> 0 \<le> us \<and> us < 1000000 \<and> us mod 10 ^ nat (6 - f) = 0
      then Some (be_bytes (nat ((f + 1) div 2)) (us div 10 ^ nat (6 - f) * (if f mod 2 \<noteq> 0 then 10 else 1)))
      else None)"

definition packed_datetime :: "int \<Rightarrow> int \<Rightarrow> int \<Rightarrow> int \<Rightarrow> int \<Rightarrow> int \<Rightarrow> int" where
  "packed_datetime y mo d h mi s =
     ((((2 ^ 17 + (y * 13 + mo)) * 2 ^ 5 + d) * 2 ^ 5 + h) * 2 ^ 6 + mi) * 2 ^ 6 + s"

definition put_index :: "int \<Rightarrow> string list \<Rightarrow> string \<Rightarrow> bytes option" where
  "put_index k vs s =
     (case find (\<lambda>i. vs ! i = s) [0..<length vs] of
        Some i \<Rightarrow> if (k = 1 \<or> k = 2) \<and> int i < 256 ^ nat k then Some (le_bytes (nat k) (int i)) else None
      | None \<Rightarrow> None)"

fun put_value :: "row_env \<Rightarrow> column \<Rightarrow> pyval \<Rightarrow> bytes option" where
  "put_value E col (PInt i) =
     (let t = ctype col; uns = unsigned col
      in if t = FT_TINY then put_int 1 uns i
         else if t = FT_SHORT then put_int 2 uns i
         else if t = FT_INT24 then put_int 3 uns i
         else if t = FT_LONG then put_int 4 uns i
         else if t = FT_LONGLONG then put_int 8 uns i
         else if t = FT_YEAR \<and> 1900 \<le> i then put_int 1 True (i - 1900)
         else None)"
| "put_value E col (PFloat b) =
     (if (ctype col = FT_FLOAT \<and> length b = 4) \<or> (ctype col = FT_DOUBLE \<and> length b = 8) then Some b else None)"
| "put_value E col (PStr s) =
     (let t = ctype col
      in if t = FT_VARCHAR \<or> t = FT_STRING then
           (case max_length col of Some n \<Rightarrow> put_string E col (if n > 255 then 2 else 1) s | None \<Rightarrow> None)
         else if t = FT_BLOB then (case length_size col of Some k \<Rightarrow> put_string E col k s | None \<Rightarrow> None)
         else if t = FT_ENUM then
           (case size col of
              Some k \<Rightarrow> (case enum_values col of Some vs \<Rightarrow> put_index k vs s | None \<Rightarrow> None)
            | None \<Rightarrow> None)
         else None)"
| "put_value E col (PDate y m d) =
     (if ctype col = FT_DATE \<and> date_ok y m d then Some (le_bytes 3 (y * 512 + m * 32 + d)) else None)"
| "put_value E col (PDatetime y mo d h mi s us) =
     (case fsp col of
        Some f \<Rightarrow>
          if ctype col = FT_DATETIME2 \<and> date_ok y mo d \<and> time_ok h mi s us
          then map_option (\<lambda>b. be_bytes 5 (packed_datetime y mo d h mi s) @ b) (put_fraction f us) else None
      | None \<Rightarrow> None)"
| "put_value E col _ = None"

subsection \<open>Integers\<close>

lemma put_int_val:
  assumes "put_int n uns i = Some b"
  shows "length b = n" "(if uns then le_val b else signed_val n (le_val b)) = i"
  using assms by (auto simp: put_int_def le_val_le_bytes signed_val_mod split: if_splits)

lemma int_column_decodes:
  assumes "packet_laws P r" "put_int n uns i = Some b"
  shows "decodes r (int_column P n uns) b (PInt i)"
  unfolding int_column_def
  using put_int_val [OF assms(2)]
  by (intro decodes_map decodes_unpacked [OF assms(1)]) (auto simp: unpack_val)

lemma int24_decodes:
  assumes "packet_laws P r" "put_int 3 uns i = Some b"
  shows "decodes r (if uns then read_uint24 P else read_int24 P) b i"
proof -
  note b = put_int_val [OF assms(2)]
  obtain x y z where d: "b = [x, y, z]" "three_bytes b = Inr (uint x, uint y, uint z)"
    using three_bytes_ok [OF b(1)] by blast
  have o1: "or (uint x) (push_bit 8 (uint y)) = uint x + push_bit 8 (uint y)"
    using uint_byte [of x] by (intro or_push_bit(1)) simp_all
  have "or (uint x + push_bit 8 (uint y)) (push_bit 16 (uint z)) = uint x + push_bit 8 (uint y) + push_bit 16 (uint z)"
    using uint_byte [of x] uint_byte [of y] by (intro or_push_bit(1)) (simp_all add: push_bit_eq_mult)
  with o1 have o: "or (or (uint x) (push_bit 8 (uint y))) (push_bit 16 (uint z)) = le_val b"
    by (simp add: d(1) push_bit_eq_mult)
  show ?thesis
    using b d(2) o unfolding read_uint24_def read_int24_def
    by (auto intro!: decodes_unpacked [OF assms(1)] simp: signed_val_def Let_def d(1) push_bit_eq_mult split: if_splits)
qed

subsection \<open>Strings and enumerations\<close>

lemma utf8_ignore_ascii: "\<forall>b \<in> set bs. unat b < 128 \<Longrightarrow> utf8_ignore bs = map unat bs"
  by (induction bs) auto

lemma ascii_bytes_unat: "(of_char c :: nat) < 128 \<Longrightarrow> unat (word_of_nat (of_char c) :: byte) = of_char c"
  by (simp only: unat_of_nat) simp

lemma ascii_decode:
  assumes "list_all (\<lambda>c. (of_char c :: nat) < 128) s"
  shows "decode_utf8 (ascii_bytes s) = Inr s" "decode_utf8_ignore (ascii_bytes s) = Inr s"
proof -
  have a: "\<forall>b \<in> set (ascii_bytes s). unat b < 128" "map unat (ascii_bytes s) = map of_char s"
    using assms by (auto simp: ascii_bytes_def list_all_iff ascii_bytes_unat)
  have "map (\<lambda>b. char_of (unat b)) (ascii_bytes s) = map char_of (map unat (ascii_bytes s))" by simp
  then show "decode_utf8 (ascii_bytes s) = Inr s" using decode_utf8_ascii [OF a(1)] by (simp add: a(2) comp_def)
  show "decode_utf8_ignore (ascii_bytes s) = Inr s"
    using assms by (auto simp: decode_utf8_ignore_def utf8_ignore_ascii [OF a(1)] a(2) list_all_iff comp_def)
qed

lemma string_value_decodes:
  assumes "packet_laws P r" "put_string E col k s = Some b"
  shows "decodes r (read_string_value P E k col) b (PStr s)"
proof -
  from assms(2) have u: "utf8_column E col" and k: "1 \<le> k" "k \<le> 4" "int (length (ascii_bytes s)) < 256 ^ nat k"
    and asc: "list_all (\<lambda>c. (of_char c :: nat) < 128) s"
    and b: "b = le_bytes (nat k) (int (length (ascii_bytes s))) @ ascii_bytes s"
    by (auto simp: put_string_def ascii_bytes_def split: if_splits)
  have "decodes r (read_length_coded_pascal_string P k) b (ascii_bytes s)"
    using pascal_string_decodes [OF assms(1), of "nat k" "ascii_bytes s"] k by (simp add: b)
  moreover have "decode_string E col (ascii_bytes s) = Inr (PStr s)"
    using u ascii_decode [OF asc]
    by (cases "character_set_name col") (auto simp: decode_string_def utf8_column_def py_decode_def)
  ultimately have "decodes r (read_string_value P E k col) (b @ []) (PStr s)"
    unfolding read_string_value_def by (intro decodes_bind [of _ _ b] decodes_lift)
  then show ?thesis by simp
qed

lemma enum_column_decodes:
  assumes "packet_laws P r" "size col = Some k" "enum_values col = Some vs" "put_index k vs s = Some b"
  shows "decodes r (enum_column P col) b (PStr s)"
proof -
  from assms(4) obtain i where i: "find (\<lambda>i. vs ! i = s) [0..<length vs] = Some i"
      "k = 1 \<or> k = 2" "int i < 256 ^ nat k" "b = le_bytes (nat k) (int i)"
    by (auto simp: put_index_def split: option.splits if_splits)
  then have v: "i < length vs" "vs ! i = s" by (auto simp: find_Some_iff)
  have len: "length b = nat k" using i by simp
  have "decodes r (read_uint_by_size P k) b (Some (int i))"
    using read_uint_by_size_decodes [OF assms(1), of b] i(2,3) by (auto simp: i(4) le_val_le_bytes)
  then have "decodes r (bind_sx (read_uint_by_size P k) (\<lambda>i. case enum_values col of
         Some (v # vs) \<Rightarrow> lift_sx (bind_res (some_int i) (\<lambda>k. bind_res (py_nth (v # vs) k) (\<lambda>s. Inr (PStr s))))
       | _ \<Rightarrow> ret_sx PNone)) (b @ []) (PStr s)"
    using v assms(3) by (intro decodes_bind) (auto simp: some_int_def py_nth_def index_at_def decodes_ret split: list.split)
  then show ?thesis by (simp add: enum_column_def assms(2) attr_def)
qed

subsection \<open>Dates\<close>

lemma date_ok_range: "date_ok y m d \<Longrightarrow> 1 \<le> y \<and> y \<le> 9999 \<and> 1 \<le> m \<and> m \<le> 12 \<and> 1 \<le> d \<and> d \<le> 31"
  by (auto simp: date_ok_def days_in_month_def split: if_splits)

lemma read_date_packed:
  assumes "date_ok y m d"
  shows "read_date (y * 512 + m * 32 + d) = Inr (PDate y m d)"
proof -
  let ?t = "y * 512 + m * 32 + d"
  note r = date_ok_range [OF assms]
  have "?t div 2 ^ 9 = y" using r div_high [of "m * 32 + d" 512 y] by (simp add: add.assoc)
  then have year: "drop_bit 9 (and ?t (push_bit 9 (push_bit 15 1 - 1))) = y"
    using field_bits [of 9 ?t 15] r by (simp add: push_bit_eq_mult)
  have "?t div 2 ^ 5 = y * 16 + m" using r div_high [of d 32 "y * 16 + m"] by (simp add: algebra_simps)
  then have month: "drop_bit 5 (and ?t (push_bit 5 (push_bit 4 1 - 1))) = m"
    using field_bits [of 5 ?t 4] r by (simp add: push_bit_eq_mult)
  have day: "and ?t (push_bit 5 1 - 1) = d"
    using and_low_bits [of ?t 5] r mod_low [of d 32 "y * 16 + m"] by (simp add: push_bit_eq_mult algebra_simps)
  have "?t \<noteq> 0" using r by linarith
  then show ?thesis unfolding read_date_def Let_def year month day using r assms by (simp add: mk_date_def)
qed

lemma fraction_decodes:
  assumes "packet_laws P r" "fsp col = Some f" "put_fraction f us = Some b"
  shows "decodes r (read_fsp P col) b us"
proof -
  from assms(3) have f: "0 \<le> f" "f \<le> 6" and us: "0 \<le> us" "us < 1000000" "us mod 10 ^ nat (6 - f) = 0"
    and b: "b = be_bytes (nat ((f + 1) div 2)) (us div 10 ^ nat (6 - f) * (if f mod 2 \<noteq> 0 then 10 else 1))"
    by (auto simp: put_fraction_def split: if_splits)
  let ?v = "us div 10 ^ nat (6 - f) * (if f mod 2 \<noteq> 0 then 10 else 1)"
  consider "f = 0" | "f = 1" | "f = 2" | "f = 3" | "f = 4" | "f = 5" | "f = 6" using f by linarith
  then have v: "f = 0 \<or> (0 \<le> ?v \<and> 2 * ?v < 256 ^ nat ((f + 1) div 2) \<and> nat ((f + 1) div 2) \<in> {1, 2, 3}
      \<and> (if f mod 2 \<noteq> 0 then trunc_div ?v 10 else ?v) * 10 ^ nat (6 - f) = us)"
    using us by cases (auto simp: trunc_div_def sgn_if abs_if eval_nat_numeral)
  show ?thesis
  proof (cases "f = 0")
    case True
    with us b show ?thesis by (simp add: read_fsp_def assms(2) attr_def decodes_def be_bytes_def)
  next
    case False
    let ?n = "nat ((f + 1) div 2)"
    have n: "?n \<in> {1, 2, 3}" "0 \<le> ?v" "2 * ?v < 256 ^ ?n"
      and res: "(if f mod 2 \<noteq> 0 then trunc_div ?v 10 else ?v) * 10 ^ nat (6 - f) = us" using v False by blast+
    have lb: "length b = ?n" by (simp only: b length_be_bytes)
    have bv: "be_val b = ?v" using n(2,3) be_val_be_bytes [of ?v ?n] by (simp only: b)
    have "signed_val ?n ?v = ?v" using n(3) by (simp add: signed_val_def)
    then have sv: "signed_val ?n (be_val b) = ?v" by (simp only: bv)
    have "length b \<in> {1, 2, 3, 4, 5}" "length b \<noteq> 5" using n(1) lb by auto
    from read_int_be_by_size_decodes [OF assms(1) this(1)] this(2)
    have "decodes r (read_int_be_by_size P (int ?n)) b (Some ?v)" by (simp only: sv lb if_False)
    then have d: "decodes r (bind_sx (read_int_be_by_size P (int ?n)) (\<lambda>v. bind_sx (lift_sx (some_int v)) (\<lambda>us.
        ret_sx ((if f mod 2 \<noteq> 0 then trunc_div us 10 else us) * 10 ^ nat (6 - f))))) (b @ []) us"
      by (rule decodes_bind) (simp only: some_int_def option.case lift_sx_simps bind_sx_simps res decodes_Pair)
    have n_eq: "(if f = 1 \<or> f = 2 then 1 else if f = 3 \<or> f = 4 then 2 else if f = 5 \<or> f = 6 then 3 else 0 :: int) = int ?n"
      using False f by auto
    have pos: "0 < int ?n" using n(1) by auto
    show ?thesis
      using d unfolding read_fsp_def assms(2) attr_def option.case lift_sx_simps bind_sx_simps Let_def n_eq
      by (simp only: pos if_True append_Nil2)
  qed
qed

lemma packed_datetime_fields:
  assumes "date_ok y mo d" "time_ok h mi s us"
  defines "v \<equiv> packed_datetime y mo d h mi s"
  shows "read_binary_slice v 1 17 40 = y * 13 + mo" "read_binary_slice v 18 5 40 = d"
    "read_binary_slice v 23 5 40 = h" "read_binary_slice v 28 6 40 = mi" "read_binary_slice v 34 6 40 = s"
    "0 \<le> v" "v < 256 ^ 5"
proof -
  have r: "0 \<le> y * 13 + mo" "y * 13 + mo < 2 ^ 17" "0 \<le> d" "d < 2 ^ 5" "0 \<le> h" "h < 2 ^ 5"
      "0 \<le> mi" "mi < 2 ^ 6" "0 \<le> s" "s < 2 ^ 6"
    using date_ok_range [OF assms(1)] assms(2) by (simp_all add: time_ok_def)
  define a where "a = 2 ^ 17 + (y * 13 + mo)"
  define b where "b = a * 2 ^ 5 + d"
  define c where "c = b * 2 ^ 5 + h"
  define e where "e = c * 2 ^ 6 + mi"
  have v: "v = e * 2 ^ 6 + s" by (simp add: v_def packed_datetime_def a_def b_def c_def e_def)
  have d1: "v div 2 ^ 6 = e" unfolding v using r by (intro div_high)
  have d2: "e div 2 ^ 6 = c" unfolding e_def using r by (intro div_high)
  have d3: "c div 2 ^ 5 = b" unfolding c_def using r by (intro div_high)
  have d4: "b div 2 ^ 5 = a" unfolding b_def using r by (intro div_high)
  have split: "v div 2 ^ (m + n) = v div 2 ^ m div 2 ^ n" for m n by (simp add: power_add zdiv_zmult2_eq)
  have e12: "v div 2 ^ 12 = c" using split [of 6 6] d1 d2 by simp
  have e17: "v div 2 ^ 17 = b" using split [of 12 5] e12 d3 by simp
  have e22: "v div 2 ^ 22 = a" using split [of 17 5] e17 d4 by simp
  have "a mod 2 ^ 17 = y * 13 + mo" using r mod_low [of "y * 13 + mo" "2 ^ 17" 1] by (simp add: a_def)
  then show "read_binary_slice v 1 17 40 = y * 13 + mo" using e22 by (simp add: slice_bits)
  have "b mod 2 ^ 5 = d" unfolding b_def using r by (intro mod_low)
  then show "read_binary_slice v 18 5 40 = d" using e17 by (simp add: slice_bits)
  have "c mod 2 ^ 5 = h" unfolding c_def using r by (intro mod_low)
  then show "read_binary_slice v 23 5 40 = h" using e12 by (simp add: slice_bits)
  have "e mod 2 ^ 6 = mi" unfolding e_def using r by (intro mod_low)
  then show "read_binary_slice v 28 6 40 = mi" using d1 by (simp add: slice_bits)
  have "v mod 2 ^ 6 = s" unfolding v using r by (intro mod_low)
  then show "read_binary_slice v 34 6 40 = s" by (simp add: slice_bits)
  have "0 \<le> a" "a \<le> 2 ^ 18 - 1" using r by (simp_all add: a_def)
  then have "0 \<le> b" "b \<le> 2 ^ 23 - 1" using r by (simp_all add: b_def)
  then have "0 \<le> c" "c \<le> 2 ^ 28 - 1" using r by (simp_all add: c_def)
  then have "0 \<le> e" "e \<le> 2 ^ 34 - 1" using r by (simp_all add: e_def)
  then show "0 \<le> v" "v < 256 ^ 5" using r by (simp_all add: v)
qed

lemma datetime2_decodes:
  assumes "packet_laws P r" "fsp col = Some f" "date_ok y mo d" "time_ok h mi s us" "put_fraction f us = Some b"
  shows "decodes r (read_datetime2 P col (packed_datetime y mo d h mi s)) b (PDatetime y mo d h mi s us)"
proof -
  note fields = packed_datetime_fields [OF assms(3,4)]
  have ym: "(y * 13 + mo) div 13 = y" "(y * 13 + mo) mod 13 = mo" using date_ok_range [OF assms(3)] by simp_all
  have t0: "time_ok h mi s 0" using assms(4) by (simp add: time_ok_def)
  have "decodes r (add_fsp_to_time P col (PDatetime y mo d h mi s 0)) (b @ []) (PDatetime y mo d h mi s us)"
    unfolding add_fsp_to_time_def
    using assms(3,4) by (intro decodes_bind [OF fraction_decodes [OF assms(1,2,5)]])
      (auto simp: replace_microsecond_def mk_datetime_def decodes_ret time_ok_def)
  then show ?thesis
    unfolding read_datetime2_def fields Let_def ym using assms(3) t0 by (simp add: mk_datetime_def)
qed

subsection \<open>All columns\<close>

lemma as_plain_decodes: "decodes r m b v \<Longrightarrow> decodes r (as_plain m) b (plain v)"
  unfolding as_plain_def by (rule decodes_map)

text \<open>What the notes of a value add: dates come with their raw number.\<close>

definition reads_value :: "('p \<Rightarrow> bytes) \<Rightarrow> ('p, column_value) reader \<Rightarrow> bytes \<Rightarrow> pyval \<Rightarrow> bool" where
  "reads_value r m b v = (\<exists>cv. decodes r m b cv \<and> cv_value cv = JsonValue v)"

lemma reads_plain: "decodes r m b v \<Longrightarrow> reads_value r (as_plain m) b v"
  unfolding reads_value_def using as_plain_decodes by (fastforce simp: plain_def)

lemma int_value_reads:
  assumes "packet_laws P r" "put_value E col (PInt i) = Some b"
  shows "reads_value r (read_column_value P E col (unsigned col) part) b (PInt i)"
proof -
  note i = int_column_decodes [OF assms(1)]
  have u64: "decodes r (if uns then read_uint64 P else read_int64 P) b i" if "put_int 8 uns i = Some b" for uns
    using put_int_val [OF that] unfolding read_uint64_def read_int64_def
    by (cases uns) (auto intro!: decodes_unpacked [OF assms(1)] simp: unpack_val)
  have y: "decodes r (read_uint8 P) b (i - 1900)" if "put_int 1 True (i - 1900) = Some b"
    using put_int_val [OF that] unfolding read_uint8_def
    by (auto intro!: decodes_unpacked [OF assms(1)] simp: unpack_val)
  consider "ctype col = FT_TINY" "put_int 1 (unsigned col) i = Some b" | "ctype col = FT_SHORT" "put_int 2 (unsigned col) i = Some b"
    | "ctype col = FT_INT24" "put_int 3 (unsigned col) i = Some b" | "ctype col = FT_LONG" "put_int 4 (unsigned col) i = Some b"
    | "ctype col = FT_LONGLONG" "put_int 8 (unsigned col) i = Some b" | "ctype col = FT_YEAR" "put_int 1 True (i - 1900) = Some b"
    using assms(2) by (simp add: Let_def split: if_splits)
  then show ?thesis
  proof cases
    case 1
    then show ?thesis using reads_plain [OF i [OF 1(2)]] by (simp add: read_column_value_def)
  next
    case 2
    then show ?thesis using reads_plain [OF i [OF 2(2)]] by (simp add: read_column_value_def)
  next
    case 3
    then show ?thesis using reads_plain [OF decodes_map [OF int24_decodes [OF assms(1) 3(2)], of PInt]]
      by (simp add: read_column_value_def)
  next
    case 4
    then show ?thesis using reads_plain [OF i [OF 4(2)]] by (simp add: read_column_value_def)
  next
    case 5
    then show ?thesis using reads_plain [OF decodes_map [OF u64 [OF 5(2)], of PInt]] by (simp add: read_column_value_def)
  next
    case 6
    then show ?thesis using reads_plain [OF decodes_map [OF y [OF 6(2)], of "\<lambda>v. PInt (v + 1900)"]]
      by (simp add: read_column_value_def)
  qed
qed

lemma other_value_reads:
  assumes "packet_laws P r" "put_value E col v = Some b" "\<And>i. v \<noteq> PInt i"
  shows "reads_value r (read_column_value P E col uns part) b v"
proof (cases v)
  case (PFloat x)
  have "decodes r (float_column P n) x (PFloat x)" if "length x = n" for n
    unfolding float_column_def using that by (intro decodes_map decodes_read [OF assms(1)]) simp
  with assms(2) show ?thesis
    by (auto simp: PFloat read_column_value_def Let_def split: if_splits intro!: reads_plain)
next
  case (PStr x)
  with assms(2) show ?thesis
    by (auto simp: read_column_value_def Let_def attr_def split: if_splits option.splits
        intro!: reads_plain string_value_decodes [OF assms(1)] enum_column_decodes [OF assms(1)])
next
  case (PDate y m d)
  with assms(2) have b: "ctype col = FT_DATE" "date_ok y m d" "b = le_bytes 3 (y * 512 + m * 32 + d)"
    by (auto split: if_splits)
  let ?t = "y * 512 + m * 32 + d"
  have "0 \<le> ?t" "?t < 256 ^ 3" using date_ok_range [OF b(2)] by simp_all
  then have "put_int 3 True ?t = Some b" by (simp add: put_int_def b(3))
  from int24_decodes [OF assms(1) this] have t: "decodes r (read_uint24 P) b ?t" by simp
  have "decodes r (bind_sx (read_uint24 P) (\<lambda>raw. bind_sx (lift_sx (read_date raw)) (\<lambda>v.
      ret_sx (dated raw NS_OUT_OF_DATE_RANGE v)))) (b @ []) (dated ?t NS_OUT_OF_DATE_RANGE (PDate y m d))"
    by (rule decodes_bind [OF t]) (simp only: read_date_packed [OF b(2)] lift_sx_simps bind_sx_simps decodes_Pair)
  then show ?thesis
    unfolding reads_value_def by (intro exI [of _ "dated ?t NS_OUT_OF_DATE_RANGE (PDate y m d)"])
      (simp add: read_column_value_def b(1) Let_def PDate, simp add: dated_def)
next
  case (PDatetime y mo d h mi s us)
  with assms(2) obtain f fb where b: "fsp col = Some f" "ctype col = FT_DATETIME2" "date_ok y mo d" "time_ok h mi s us"
      "put_fraction f us = Some fb" "b = be_bytes 5 (packed_datetime y mo d h mi s) @ fb"
    by (auto split: option.splits if_splits)
  let ?t = "packed_datetime y mo d h mi s" and ?v = "PDatetime y mo d h mi s us"
  have "be_val (be_bytes 5 ?t) = ?t" using packed_datetime_fields(6,7) [OF b(3,4)] by (rule be_val_be_bytes)
  then have t: "decodes r (read_int_be_by_size P 5) (be_bytes 5 ?t) (Some ?t)"
    using read_int_be_by_size_decodes [OF assms(1), of "be_bytes 5 ?t"] by simp
  have "decodes r (bind_sx (read_int_be_by_size P 5) (\<lambda>v. bind_sx (lift_sx (some_int v)) (\<lambda>raw.
      bind_sx (read_datetime2 P col raw) (\<lambda>v. ret_sx (dated raw NS_OUT_OF_DATETIME2_RANGE v)))))
      (be_bytes 5 ?t @ fb) (dated ?t NS_OUT_OF_DATETIME2_RANGE ?v)"
    by (rule decodes_bind [OF t])
      (simp only: some_int_def option.case lift_sx_simps bind_sx_simps
        decodes_map [OF datetime2_decodes [OF assms(1) b(1,3,4,5)]])
  then show ?thesis
    unfolding reads_value_def by (intro exI [of _ "dated ?t NS_OUT_OF_DATETIME2_RANGE ?v"])
      (simp add: read_column_value_def b(2,6) Let_def PDatetime, simp add: dated_def)
qed (use assms in auto)

lemma value_reads:
  assumes "packet_laws P r" "put_value E col v = Some b"
  shows "reads_value r (read_column_value P E col (unsigned col) part) b v"
  using int_value_reads [OF assms(1)] other_value_reads [OF assms(1)] assms(2) by (cases v) blast+

end
