(* ===== verification/Row_Image.thy ===== *)
theory Row_Image
  imports Row_Codec
begin

text \<open>
  Row images and the rows of an event. An image gives each column as absent, NULL or with a value;
  \<open>put_image\<close> writes it as MySQL does: the bitmap of the NULL columns among those present, then the values.
  The interface \<open>row_fetcher\<close> states what a reader of one row promises; the loop of \<open>_fetch_rows\<close> is proved
  over it once and used for write, delete and update events.
\<close>

section \<open>Bitmaps\<close>

function pack_bits :: "bool list \<Rightarrow> bytes" where
  "pack_bits bs = (if bs = [] then [] else horner_sum of_bool 2 (take 8 bs) # pack_bits (drop 8 bs))"
  by pat_completeness auto
termination by (relation "measure length") auto

declare pack_bits.simps [simp del]

lemma pack_bits_Nil [simp]: "pack_bits [] = []"
  by (simp add: pack_bits.simps)

lemma length_pack_bits: "length (pack_bits bs) = (length bs + 7) div 8"
proof (induction bs rule: pack_bits.induct)
  case (1 bs)
  show ?case
  proof (cases "bs = []")
    case False
    with 1 have "length (pack_bits bs) = Suc ((length bs - 8 + 7) div 8)"
      by (subst pack_bits.simps) simp
    also have "\<dots> = (length bs + 7) div 8"
    proof (cases "length bs < 8")
      case True
      moreover have "1 \<le> length bs" using False by (cases bs) simp_all
      ultimately have "(length bs + 7) div 8 = 1" by (intro div_nat_eqI) simp_all
      with True show ?thesis by simp
    next
      case False
      then have "length bs + 7 = (length bs - 8 + 7) + 8" by simp
      then show ?thesis by (metis div_add_self2 Suc_eq_plus1 zero_neq_numeral)
    qed
    finally show ?thesis .
  qed simp
qed

lemma pack_bits_nth:
  "i < length bs \<Longrightarrow> bit (pack_bits bs ! (i div 8)) (i mod 8) \<longleftrightarrow> bs ! i"
proof (induction bs arbitrary: i rule: pack_bits.induct)
  case (1 bs)
  then have ne: "bs \<noteq> []" by auto
  have p: "pack_bits bs = horner_sum of_bool 2 (take 8 bs) # pack_bits (drop 8 bs)"
    using ne by (subst pack_bits.simps) simp
  show ?case
  proof (cases "i < 8")
    case True
    then show ?thesis using "1.prems" by (simp add: p bit_horner_sum_bit_iff)
  next
    case False
    then have i: "i div 8 = Suc ((i - 8) div 8)" "i mod 8 = (i - 8) mod 8"
      by (simp_all add: le_div_geq le_mod_geq)
    have "i - 8 < length (drop 8 bs)" using "1.prems" False by simp
    from "1.IH" [OF ne this] show ?thesis using False "1.prems" by (simp add: p i)
  qed
qed

lemma pack_bits_bound: "i < length bs \<Longrightarrow> i div 8 < length (pack_bits bs)"
  by (simp add: length_pack_bits)

lemma BitCount_pack_bits: "BitCount (pack_bits bs) = length (filter id bs)"
proof (induction bs rule: pack_bits.induct)
  case (1 bs)
  show ?case
  proof (cases "bs = []")
    case True
    then show ?thesis by (simp add: BitCount_sum)
  next
    case False
    let ?b = "horner_sum of_bool 2 (take 8 bs) :: byte"
    have "{i. i < 8 \<and> bit ?b i} = {i. i < length (take 8 bs) \<and> id (take 8 bs ! i)}"
      by (auto simp: bit_horner_sum_bit_iff)
    then have "card {i. i < 8 \<and> bit ?b i} = length (filter id (take 8 bs))" by (simp only: length_filter_conv_card)
    moreover have "filter id bs = filter id (take 8 bs) @ filter id (drop 8 bs)"
      by (metis append_take_drop_id filter_append)
    ultimately show ?thesis using 1 False by (subst pack_bits.simps) (simp add: BitCount_sum id_def)
  qed
qed

lemma BitGet_pack_bits:
  assumes "i < length bs"
  shows "\<exists>v. BitGet (pack_bits bs) i = Inr v \<and> (v \<noteq> 0 \<longleftrightarrow> bs ! i)"
  using BitGet_nonzero [OF pack_bits_bound [OF assms]] pack_bits_nth [OF assms] by auto

lemma is_null_pack_bits: "i < length bs \<Longrightarrow> is_null (pack_bits bs) i = Inr (bs ! i)"
  using BitGet_pack_bits [of i bs] pack_bits_bound [of i bs] by (auto simp: is_null_def BitGet_def index_at_def)

section \<open>Images\<close>

datatype image_cell = Absent | IsNull | Holds pyval

definition present_bits :: "image_cell list \<Rightarrow> bool list" where
  "present_bits cells = map (\<lambda>c. c \<noteq> Absent) cells"

definition null_bits :: "image_cell list \<Rightarrow> bool list" where
  "null_bits cells = map (\<lambda>c. c = IsNull) (filter (\<lambda>c. c \<noteq> Absent) cells)"

fun cell_of :: "image_cell \<Rightarrow> cell" where
  "cell_of (Holds v) = JsonValue v"
| "cell_of _ = JsonValue PNone"

fun put_cells :: "row_env \<Rightarrow> column list \<Rightarrow> image_cell list \<Rightarrow> bytes option" where
  "put_cells E [] [] = Some []"
| "put_cells E (col # cols) (Holds v # cs) =
     (case put_value E col v of None \<Rightarrow> None | Some b \<Rightarrow> map_option ((@) b) (put_cells E cols cs))"
| "put_cells E (col # cols) (_ # cs) = put_cells E cols cs"
| "put_cells E _ _ = None"

definition put_image :: "row_env \<Rightarrow> column list \<Rightarrow> image_cell list \<Rightarrow> bytes option" where
  "put_image E cols cells = map_option (\<lambda>b. pack_bits (null_bits cells) @ b) (put_cells E cols cells)"

fun image_values :: "nat \<Rightarrow> column list \<Rightarrow> image_cell list \<Rightarrow> values_dict \<Rightarrow> values_dict" where
  "image_values i (col # cols) (c # cs) d = image_values (i + 1) cols cs (dict_set (value_name col i) (cell_of c) d)"
| "image_values i _ _ d = d"

lemma dict_set_fresh: "k \<notin> fst ` set d \<Longrightarrow> dict_set k v d = d @ [(k, v)]"
  by (induction d) auto

lemma image_values_zip:
  "distinct (map name cols) \<Longrightarrow> [] \<notin> name ` set cols \<Longrightarrow> fst ` set d \<inter> name ` set cols = {} \<Longrightarrow>
   image_values i cols cells d = d @ zip (map name cols) (map cell_of cells)"
proof (induction i cols cells d rule: image_values.induct)
  case (1 i col cols c cs d)
  then have "value_name col i = name col" "name col \<notin> fst ` set d" by (auto simp: value_name_def)
  with 1 show ?case by (auto simp: dict_set_fresh)
qed auto

lemma put_cells_length: "put_cells E cols cells = Some b \<Longrightarrow> length cells = length cols"
  by (induction E cols cells arbitrary: b rule: put_cells.induct) (auto split: option.splits)

section \<open>Reading an image\<close>

lemma decodes_map_pair: "decodes r m b (x, y) \<Longrightarrow> decodes r (bind_sx m (\<lambda>(x, y). ret_sx (f x y))) b (f x y)"
  using decodes_map [of r m b "(x, y)" "\<lambda>(x, y). f x y"] by (simp add: case_prod_beta' decodes_ret)

lemma null_bits_Cons:
  "null_bits (Absent # cs) = null_bits cs" "null_bits (IsNull # cs) = True # null_bits cs"
  "null_bits (Holds v # cs) = False # null_bits cs"
  by (simp_all add: null_bits_def)

lemma read_values_name_reads:
  assumes "packet_laws P r" "BitGet cols_bitmap i = Inr v" "v \<noteq> 0 \<longleftrightarrow> c \<noteq> Absent"
    and "c \<noteq> Absent \<Longrightarrow> is_null null_bitmap k = Inr (c = IsNull)"
    and "(case c of Holds x \<Rightarrow> put_value E col x = Some b | _ \<Rightarrow> b = [])"
  shows "\<exists>cv. decodes r (read_values_name P E col null_bitmap k False cols_bitmap (unsigned col) i) b cv
    \<and> cv_value cv = cell_of c"
proof (cases c)
  case Absent
  with assms show ?thesis
    by (intro exI [of _ "missing NS_COLS_BITMAP"]) (simp add: read_values_name_def missing_def)
next
  case IsNull
  with assms show ?thesis
    by (intro exI [of _ "missing NS_NULL"]) (simp add: read_values_name_def missing_def)
next
  case (Holds x)
  then have "reads_value r (read_column_value P E col (unsigned col) False) b x"
    using value_reads [OF assms(1)] assms(5) by simp
  with Holds assms show ?thesis by (auto simp: read_values_name_def reads_value_def)
qed

lemma column_loop_reads:
  assumes "packet_laws P r"
    and "\<And>j. j < length cells \<Longrightarrow> \<exists>v. BitGet cols_bitmap (i + j) = Inr v \<and> (v \<noteq> 0 \<longleftrightarrow> cells ! j \<noteq> Absent)"
    and "\<And>j. j < length (null_bits cells) \<Longrightarrow> is_null null_bitmap (ra_null_index acc + j) = Inr (null_bits cells ! j)"
    and "put_cells E cols cells = Some b"
  shows "\<exists>acc'. decodes r (column_loop P E None null_bitmap cols_bitmap i cols acc) b acc'
    \<and> ra_values acc' = image_values i cols cells (ra_values acc)"
  using assms(2-4)
proof (induction cols arbitrary: cells i acc b)
  case Nil
  from Nil.prems(3) have "cells = []" by (cases cells) simp_all
  moreover from this Nil.prems(3) have "b = []" by simp
  ultimately show ?case by (auto simp: decodes_ret intro!: exI [of _ acc])
next
  case (Cons col cols)
  then obtain c cs where cells: "cells = c # cs" by (cases cells) auto
  obtain v where v: "BitGet cols_bitmap i = Inr v" "v \<noteq> 0 \<longleftrightarrow> c \<noteq> Absent"
    using Cons.prems(1) [of 0] cells by auto
  obtain b1 b2 where b: "b = b1 @ b2" "(case c of Holds x \<Rightarrow> put_value E col x = Some b1 | _ \<Rightarrow> b1 = [])"
      "put_cells E cols cs = Some b2"
    using Cons.prems(3) cells by (cases c) (auto split: option.splits)
  have null: "is_null null_bitmap (ra_null_index acc) = Inr (c = IsNull)" if "c \<noteq> Absent"
    using Cons.prems(2) [of 0] that cells by (cases c) (auto simp: null_bits_Cons)
  obtain cv where cv: "decodes r (read_values_name P E col null_bitmap (ra_null_index acc) False cols_bitmap (unsigned col) i) b1 cv"
      "cv_value cv = cell_of c"
    using read_values_name_reads [OF assms(1) v null b(2)] by blast
  define acc1 where "acc1 = \<lparr>ra_values = dict_set (value_name col i) (cv_value cv) (ra_values acc),
      ra_notes = note_value (name col) cv (ra_notes acc),
      ra_null_index = ra_null_index acc + (if v \<noteq> 0 then 1 else 0), ra_partial_index = ra_partial_index acc\<rparr>"
  have "\<exists>acc'. decodes r (column_loop P E None null_bitmap cols_bitmap (i + 1) cols acc1) b2 acc'
      \<and> ra_values acc' = image_values (i + 1) cols cs (ra_values acc1)"
  proof (rule Cons.IH [OF _ _ b(3)])
    fix j assume "j < length cs"
    then show "\<exists>v. BitGet cols_bitmap (i + 1 + j) = Inr v \<and> (v \<noteq> 0 \<longleftrightarrow> cs ! j \<noteq> Absent)"
      using Cons.prems(1) [of "Suc j"] cells by simp
  next
    fix j assume j: "j < length (null_bits cs)"
    show "is_null null_bitmap (ra_null_index acc1 + j) = Inr (null_bits cs ! j)"
      using Cons.prems(2) [of j] Cons.prems(2) [of "Suc j"] j v(2) cells
      by (cases c) (auto simp: null_bits_Cons acc1_def)
  qed
  then obtain acc' where acc': "decodes r (column_loop P E None null_bitmap cols_bitmap (i + 1) cols acc1) b2 acc'"
      "ra_values acc' = image_values (i + 1) cols cs (ra_values acc1)" by blast
  have "decodes r (column_loop P E None null_bitmap cols_bitmap i (col # cols) acc) (b1 @ b2) acc'"
    using decodes_bind [OF cv(1), of "\<lambda>cv. bind_sx (lift_sx (BitGet cols_bitmap i)) (\<lambda>present.
       column_loop P E None null_bitmap cols_bitmap (i + 1) cols
         \<lparr>ra_values = dict_set (value_name col i) (cv_value cv) (ra_values acc),
          ra_notes = note_value (name col) cv (ra_notes acc),
          ra_null_index = ra_null_index acc + (if present \<noteq> 0 then 1 else 0),
          ra_partial_index = ra_partial_index acc\<rparr>)" b2 acc'] acc'(1)
    by (simp add: partial_flag_def v(1) acc1_def)
  with acc'(2) show ?case by (auto simp: b(1) cells acc1_def cv(2))
qed

lemma read_column_data_reads:
  assumes "packet_laws P r" "put_image E (re_columns ev) cells = Some b"
    and "cols_bitmap = pack_bits (present_bits cells)" "image_type \<noteq> Some UpdateAI"
  shows "\<exists>ns'. decodes r (read_column_data P E ev cols_bitmap image_type ns) b
    (image_values 0 (re_columns ev) cells [], ns')"
proof -
  let ?nulls = "pack_bits (null_bits cells)"
  let ?acc = "\<lparr>ra_values = [], ra_notes = ns, ra_null_index = 0, ra_partial_index = 0\<rparr>"
  obtain b2 where b: "put_cells E (re_columns ev) cells = Some b2" "b = ?nulls @ b2"
    using assms(2) by (auto simp: put_image_def)
  obtain acc' where acc: "decodes r (column_loop P E None ?nulls cols_bitmap 0 (re_columns ev) ?acc) b2 acc'"
      "ra_values acc' = image_values 0 (re_columns ev) cells []"
    using column_loop_reads [OF assms(1) _ _ b(1), of cols_bitmap 0 ?nulls ?acc] BitGet_pack_bits [of _ "present_bits cells"]
      is_null_pack_bits [of _ "null_bits cells"]
    by (auto simp: assms(3) present_bits_def)
  have "length (filter id (present_bits cells)) = length (null_bits cells)"
    by (simp add: present_bits_def null_bits_def filter_map comp_def)
  then have n: "int (length ?nulls) = int ((BitCount cols_bitmap + 7) div 8)"
    by (simp add: assms(3) BitCount_pack_bits length_pack_bits)
  have "decodes r (read_column_data P E ev cols_bitmap image_type ns) (?nulls @ b2) (ra_values acc', ra_notes acc')"
    unfolding read_column_data_def read_partial_bitmap_def using assms(4)
    by (simp only: if_False simp_thms bind_sx_simps) (rule decodes_bind [OF decodes_read [OF assms(1) n]], rule decodes_map, rule acc(1))
  with acc(2) b(2) show ?thesis by metis
qed

section \<open>Rows\<close>

text \<open>What a reader of one row promises: it decodes the encoding of a row, whatever the notes of earlier
  rows are, and an encoding has at least one byte.\<close>

locale row_fetcher =
  fixes good :: "'k \<Rightarrow> bool"
    and remaining :: "'k \<Rightarrow> 'p \<Rightarrow> bytes"
    and fetch :: "'k \<Rightarrow> row_notes \<Rightarrow> ('p, row \<times> row_notes) reader"
    and encode :: "'k \<Rightarrow> 'x \<Rightarrow> bytes option"
    and stands_for :: "'k \<Rightarrow> row \<Rightarrow> 'x \<Rightarrow> bool"
  assumes fetch_one: "good k \<Longrightarrow> encode k x = Some b \<Longrightarrow>
      \<exists>row ns'. decodes (remaining k) (fetch k ns) b (row, ns') \<and> stands_for k row x"
    and encode_bytes: "good k \<Longrightarrow> encode k x = Some b \<Longrightarrow> b \<noteq> []"
begin

lemma rows_loop_reads:
  assumes "good k" "list_all2 (\<lambda>x b. encode k x = Some b) xs bs"
    and "rest (remaining k) w = concat bs @ z" "read_bytes w + int (length (concat bs)) = n" "length bs < fuel"
  shows "\<exists>rs w'. rows_loop fuel (fetch k) n acc ns w = Some (Inr (acc @ rs), w')
    \<and> list_all2 (stands_for k) rs xs \<and> rest (remaining k) w' = z \<and> read_bytes w' = n"
  using assms(2-5)
proof (induction xs bs arbitrary: w fuel acc ns rule: list_all2_induct)
  case Nil
  then obtain f where "fuel = Suc f" by (cases fuel) auto
  with Nil show ?case by simp
next
  case (Cons x xs b bs)
  then obtain f where f: "fuel = Suc f" "length bs < f" by (cases fuel) auto
  obtain row ns' where row: "decodes (remaining k) (fetch k ns) b (row, ns')" "stands_for k row x"
    using fetch_one [OF assms(1) Cons.hyps(1)] by blast
  obtain w1 where w1: "fetch k ns w = (Inr (row, ns'), w1)" "rest (remaining k) w1 = concat bs @ z"
      "read_bytes w1 = read_bytes w + int (length b)"
    using row(1) Cons.prems(1) unfolding decodes_def by auto
  have "read_bytes w < n" using encode_bytes [OF assms(1) Cons.hyps(1)] Cons.prems(2) by (cases b) simp_all
  moreover obtain rs w' where "rows_loop f (fetch k) n (acc @ [row]) ns' w1 = Some (Inr ((acc @ [row]) @ rs), w')"
      "list_all2 (stands_for k) rs xs" "rest (remaining k) w' = z" "read_bytes w' = n"
    using Cons.IH [OF w1(2) _ f(2), of "acc @ [row]" ns'] w1(3) Cons.prems(2) by auto
  ultimately show ?case using row(2) w1(1) by (intro exI [of _ "row # rs"] exI [of _ w']) (simp add: f(1))
qed

lemma rows_read:
  assumes "good k" "list_all2 (\<lambda>x b. encode k x = Some b) xs bs" "re_complete ev"
    and "rest (remaining k) w = concat bs @ z" "read_bytes w + int (length (concat bs)) = re_size ev" "length bs < fuel"
  shows "\<exists>rs w'. fetch_rows fuel (fetch k) ev w = Some (Inr rs, w')
    \<and> list_all2 (stands_for k) rs xs \<and> rest (remaining k) w' = z \<and> read_bytes w' = re_size ev"
  using rows_loop_reads [OF assms(1,2,4,5,6), of "[]" "\<lparr>none_sources = [], row_values = []\<rparr>"] assms(3)
  by (simp add: fetch_rows_def)

end

definition image_bytes :: "row_env \<Rightarrow> rows_event \<Rightarrow> bytes \<Rightarrow> image_cell list \<Rightarrow> bytes option" where
  "image_bytes E ev cols_bitmap cells =
     (if pack_bits (present_bits cells) = cols_bitmap \<and> list_ex id (present_bits cells)
      then put_image E (re_columns ev) cells else None)"

definition update_bytes :: "row_env \<Rightarrow> rows_event \<Rightarrow> image_cell list \<times> image_cell list \<Rightarrow> bytes option" where
  "update_bytes E ev x =
     (case (image_bytes E ev (re_present ev) (fst x), image_bytes E ev (re_present2 ev) (snd x)) of
        (Some b, Some c) \<Rightarrow> Some (b @ c) | _ \<Rightarrow> None)"

definition has_values :: "rows_event \<Rightarrow> row_image \<Rightarrow> image_cell list \<Rightarrow> bool" where
  "has_values ev im cells = (im_values im = image_values 0 (re_columns ev) cells [])"

definition is_values_row :: "rows_event \<Rightarrow> row \<Rightarrow> image_cell list \<Rightarrow> bool" where
  "is_values_row ev row cells = (case row of ValuesRow im \<Rightarrow> has_values ev im cells | _ \<Rightarrow> False)"

definition is_update_row :: "rows_event \<Rightarrow> row \<Rightarrow> image_cell list \<times> image_cell list \<Rightarrow> bool" where
  "is_update_row ev row x =
     (case row of UpdateRow a b \<Rightarrow> has_values ev a (fst x) \<and> has_values ev b (snd x) | _ \<Rightarrow> False)"

lemma image_bytes_not_Nil:
  assumes "image_bytes E ev cols_bitmap cells = Some b"
  shows "b \<noteq> []"
proof -
  from assms obtain b2 where b: "list_ex id (present_bits cells)" "b = pack_bits (null_bits cells) @ b2"
    by (auto simp: image_bytes_def put_image_def split: if_splits)
  then have "null_bits cells \<noteq> []"
    by (auto simp: null_bits_def present_bits_def list_ex_iff filter_empty_conv)
  then have "pack_bits (null_bits cells) \<noteq> []" by (subst pack_bits.simps) simp
  with b(2) show ?thesis by simp
qed

lemma fetch_image_reads:
  assumes "packet_laws P r" "image_bytes E ev cols_bitmap cells = Some b" "image_type \<noteq> Some UpdateAI"
  shows "\<exists>im ns'. decodes r (fetch_image P E ev cols_bitmap image_type ns) b (im, ns') \<and> has_values ev im cells"
proof -
  from assms(2) have "cols_bitmap = pack_bits (present_bits cells)" "put_image E (re_columns ev) cells = Some b"
    by (auto simp: image_bytes_def split: if_splits)
  from read_column_data_reads [OF assms(1) this(2,1) assms(3)] obtain ns'
    where "decodes r (read_column_data P E ev cols_bitmap image_type ns) b (image_values 0 (re_columns ev) cells [], ns')"
    by blast
  from decodes_map_pair [OF this, of "\<lambda>vs ns'. (\<lparr>im_values = vs, im_none_sources = get_none_sources ns' vs,
      im_raw_values = get_row_values ns' vs\<rparr>, ns')"]
  show ?thesis unfolding fetch_image_def has_values_def by fastforce
qed

interpretation wrows: row_fetcher "\<lambda>(P, r, E, ev). packet_laws P r" "\<lambda>(P, r, E, ev). r"
  "\<lambda>(P, r, E, ev). write_fetch_one_row P E ev" "\<lambda>(P, r, E, ev). image_bytes E ev (re_present ev)"
  "\<lambda>(P, r, E, ev). is_values_row ev"
proof (unfold_locales, goal_cases)
  case (1 k x b ns)
  obtain P r E ev where k: "k = (P, r, E, ev)" by (cases k) auto
  obtain im ns' where "decodes r (fetch_image P E ev (re_present ev) None ns) b (im, ns')" "has_values ev im x"
    using fetch_image_reads [of P r E ev "re_present ev" x b None ns] 1 k by auto
  with decodes_map_pair [OF this(1), of "\<lambda>im ns'. (ValuesRow im, ns')"]
  show ?case by (intro exI [of _ "ValuesRow im"] exI [of _ ns']) (simp add: k write_fetch_one_row_def is_values_row_def)
next
  case (2 k x b)
  then show ?case using image_bytes_not_Nil by (auto split: prod.splits)
qed

interpretation drows: row_fetcher "\<lambda>(P, r, E, ev). packet_laws P r" "\<lambda>(P, r, E, ev). r"
  "\<lambda>(P, r, E, ev). delete_fetch_one_row P E ev" "\<lambda>(P, r, E, ev). image_bytes E ev (re_present ev)"
  "\<lambda>(P, r, E, ev). is_values_row ev"
  using wrows.row_fetcher_axioms by (simp add: write_fetch_one_row_def [abs_def] delete_fetch_one_row_def [abs_def])

interpretation urows: row_fetcher "\<lambda>(P, r, E, ev). packet_laws P r" "\<lambda>(P, r, E, ev). r"
  "\<lambda>(P, r, E, ev). update_fetch_one_row P E ev" "\<lambda>(P, r, E, ev). update_bytes E ev"
  "\<lambda>(P, r, E, ev). is_update_row ev"
proof (unfold_locales, goal_cases)
  case (1 k x b ns)
  obtain P r E ev where k: "k = (P, r, E, ev)" by (cases k) auto
  obtain b1 b2 where b: "image_bytes E ev (re_present ev) (fst x) = Some b1" "image_bytes E ev (re_present2 ev) (snd x) = Some b2"
      "b = b1 @ b2" and laws: "packet_laws P r"
    using 1 k by (auto simp: update_bytes_def split: option.splits)
  obtain im1 ns1 where im1: "decodes r (fetch_image P E ev (re_present ev) None ns) b1 (im1, ns1)" "has_values ev im1 (fst x)"
    using fetch_image_reads [OF laws b(1), of None ns] by auto
  obtain im2 ns2 where im2: "decodes r (fetch_image P E ev (re_present2 ev) None ns1) b2 (im2, ns2)" "has_values ev im2 (snd x)"
    using fetch_image_reads [OF laws b(2), of None ns1] by auto
  have "decodes r (bind_sx (fetch_image P E ev (re_present2 ev) None ns1) (\<lambda>(after, ns2). ret_sx (UpdateRow im1 after, ns2)))
      b2 (UpdateRow im1 im2, ns2)"
    using decodes_map_pair [OF im2(1), of "\<lambda>after ns2. (UpdateRow im1 after, ns2)"] .
  then have "decodes r (update_fetch_one_row P E ev ns) (b1 @ b2) (UpdateRow im1 im2, ns2)"
    unfolding update_fetch_one_row_def by (intro decodes_bind [OF im1(1)]) simp
  then show ?case using im1(2) im2(2)
    by (intro exI [of _ "UpdateRow im1 im2"] exI [of _ ns2]) (simp add: k b(3) is_update_row_def)
next
  case (2 k x b)
  then show ?case by (auto simp: update_bytes_def dest: image_bytes_not_Nil split: prod.splits option.splits)
qed

section \<open>Properties\<close>

fun row_cells :: "row \<Rightarrow> values_dict list" where
  "row_cells (ValuesRow im) = [im_values im]"
| "row_cells (UpdateRow a b) = [im_values a, im_values b]"

definition named_cells :: "rows_event \<Rightarrow> image_cell list \<Rightarrow> values_dict" where
  "named_cells ev cells = zip (map name (re_columns ev)) (map cell_of cells)"

definition columns_named :: "rows_event \<Rightarrow> bool" where
  "columns_named ev = (distinct (map name (re_columns ev)) \<and> list_all (\<lambda>c. name c \<noteq> []) (re_columns ev))"

lemma has_values_named: "columns_named ev \<Longrightarrow> has_values ev im cells \<Longrightarrow> im_values im = named_cells ev cells"
  using image_values_zip [of "re_columns ev" "[]" 0 cells]
  by (force simp: has_values_def columns_named_def named_cells_def list_all_iff)

lemma values_rows_named:
  "columns_named ev \<Longrightarrow> list_all2 (is_values_row ev) rs xs \<Longrightarrow> map row_cells rs = map (\<lambda>cells. [named_cells ev cells]) xs"
  by (erule list_all2_induct) (auto simp: is_values_row_def has_values_named split: row.splits)

lemma update_rows_named:
  "columns_named ev \<Longrightarrow> list_all2 (is_update_row ev) rs xs \<Longrightarrow>
   map row_cells rs = map (\<lambda>(a, b). [named_cells ev a, named_cells ev b]) xs"
  by (erule list_all2_induct) (auto simp: is_update_row_def has_values_named split: row.splits)

text \<open>C31: The rows of an event are read back. When the body of a write or delete event is the encoding of
  a list of row images with the columns that its bitmap names, \<open>rows\<close> returns, consumes exactly the body, and
  gives each row as the dictionary from the column names to the values, with \<open>None\<close> for the columns that
  are NULL or absent; an update event gives the pairs of images.\<close>

theorem rows_roundtrip:
  assumes "packet_laws P r" "re_complete ev" "columns_named ev"
    and "rest r w = concat bs @ z" "read_bytes w + int (length (concat bs)) = re_size ev" "length bs < fuel"
  shows "(list_all2 (\<lambda>cells b. image_bytes E ev (re_present ev) cells = Some b) images bs \<longrightarrow>
      (\<forall>fetch \<in> {write_fetch_one_row P E ev, delete_fetch_one_row P E ev}.
         \<exists>rs w'. fetch_rows fuel fetch ev w = Some (Inr rs, w') \<and> rest r w' = z
           \<and> map row_cells rs = map (\<lambda>cells. [named_cells ev cells]) images))
    \<and> (list_all2 (\<lambda>x b. update_bytes E ev x = Some b) updates bs \<longrightarrow>
         (\<exists>rs w'. fetch_rows fuel (update_fetch_one_row P E ev) ev w = Some (Inr rs, w') \<and> rest r w' = z
           \<and> map row_cells rs = map (\<lambda>(a, b). [named_cells ev a, named_cells ev b]) updates))"
proof (intro conjI impI ballI)
  fix fetch assume images: "list_all2 (\<lambda>cells b. image_bytes E ev (re_present ev) cells = Some b) images bs"
    and "fetch \<in> {write_fetch_one_row P E ev, delete_fetch_one_row P E ev}"
  then show "\<exists>rs w'. fetch_rows fuel fetch ev w = Some (Inr rs, w') \<and> rest r w' = z
      \<and> map row_cells rs = map (\<lambda>cells. [named_cells ev cells]) images"
    using wrows.rows_read [of "(P, r, E, ev)" images bs ev w z fuel] drows.rows_read [of "(P, r, E, ev)" images bs ev w z fuel]
      assms values_rows_named [OF assms(3)] by fastforce
next
  assume "list_all2 (\<lambda>x b. update_bytes E ev x = Some b) updates bs"
  then show "\<exists>rs w'. fetch_rows fuel (update_fetch_one_row P E ev) ev w = Some (Inr rs, w') \<and> rest r w' = z
      \<and> map row_cells rs = map (\<lambda>(a, b). [named_cells ev a, named_cells ev b]) updates"
    using urows.rows_read [of "(P, r, E, ev)" updates bs ev w z fuel] assms update_rows_named [OF assms(3)] by fastforce
qed

definition demo_row_env :: row_env where
  "demo_row_env = \<lparr>codec = (\<lambda>_ _ _. Inl LookupError), pymysql_encoding = (\<lambda>_. None), set_order = (\<lambda>xs. xs),
     json_room = 100, ignore_decode_errors = False\<rparr>"

definition demo_rows_event :: rows_event where
  "demo_rows_event = \<lparr>re_type = WRITE_ROWS_EVENT_V2, re_size = 9, re_table_id = 7, re_schema = ''db'', re_table = ''t'',
     re_primary_key = PkStr ''id'', re_flags = 0, re_extra_length = 2, re_extra = NoExtra, re_number_of_columns = Some 3,
     re_columns = [(new_column FT_SHORT)\<lparr>name := ''id''\<rparr>, (new_column FT_VARCHAR)\<lparr>name := ''s'', max_length := Some 20\<rparr>,
       (new_column FT_TINY)\<lparr>name := ''n''\<rparr>],
     re_present = [7], re_present2 = [7], re_complete = True\<rparr>"

lemma demo_image_bytes:
  "image_bytes demo_row_env demo_rows_event [7] [Holds (PInt (- 2)), Holds (PStr ''hi''), IsNull] = Some [4, 254, 255, 2, 104, 105]"
  "image_bytes demo_row_env demo_rows_event [7] [Holds (PInt 1), IsNull, IsNull] = Some [6, 1, 0]"
  by code_simp+

theorem rows_roundtrip_witness:
  "\<exists>rs w'. fetch_rows 3 (write_fetch_one_row list_packet demo_row_env demo_rows_event) demo_rows_event
      \<lparr>read_bytes = 0, data_buffer = [], packet = [4, 254, 255, 2, 104, 105, 6, 1, 0, 99]\<rparr> = Some (Inr rs, w')
    \<and> rest (\<lambda>p. p) w' = [99]
    \<and> map row_cells rs =
       [[[(''id'', JsonValue (PInt (- 2))), (''s'', JsonValue (PStr ''hi'')), (''n'', JsonValue PNone)]],
        [[(''id'', JsonValue (PInt 1)), (''s'', JsonValue PNone), (''n'', JsonValue PNone)]]]"
proof -
  let ?w = "\<lparr>read_bytes = 0, data_buffer = [], packet = [4, 254, 255, 2, 104, 105, 6, 1, 0, 99]\<rparr> :: bytes wrapper"
  let ?bs = "[[4, 254, 255, 2, 104, 105], [6, 1, 0]] :: bytes list"
  let ?xs = "[[Holds (PInt (- 2)), Holds (PStr ''hi''), IsNull], [Holds (PInt 1), IsNull, IsNull]]"
  have "re_complete demo_rows_event" "columns_named demo_rows_event" "re_present demo_rows_event = [7]"
      "re_size demo_rows_event = 9"
    by (simp_all add: demo_rows_event_def columns_named_def)
  moreover from this(3) demo_image_bytes
  have "list_all2 (\<lambda>cells b. image_bytes demo_row_env demo_rows_event (re_present demo_rows_event) cells = Some b) ?xs ?bs"
    by simp
  moreover have "rest (\<lambda>p. p) ?w = concat ?bs @ [99]" by (simp add: rest_def)
  ultimately show ?thesis
    using rows_roundtrip [OF list_packet_laws, of demo_rows_event ?w ?bs "[99]" 3 demo_row_env ?xs "[]"]
    by (simp add: named_cells_def demo_rows_event_def)
qed

end
