(* ===== verification/Row_Progress.thy ===== *)
theory Row_Progress
  imports Row_Image
begin

text \<open>
  Progress of the loop of \<open>_fetch_rows\<close>. A reader is forward when it never moves the counter \<open>read_bytes\<close>
  back; all readers of a row are, whatever the packet answers, and the bitmap of NULL columns takes at least one
  byte when a column is present. So \<open>rows\<close> returns or raises for every input, except when the bitmap of
  present columns is empty and bytes are left.
\<close>

section \<open>Forward readers\<close>

named_theorems forward_rules \<open>readers that do not move the counter back\<close>

definition forward :: "('p, 'a) reader \<Rightarrow> bool" where
  "forward m = (\<forall>w v w'. m w = (Inr v, w') \<longrightarrow> read_bytes w \<le> read_bytes w')"

lemma bind_sx_eq_Inr:
  "bind_sx m f w = (Inr v, w') \<longleftrightarrow> (\<exists>x w1. m w = (Inr x, w1) \<and> f x w1 = (Inr v, w'))"
  by (auto simp: bind_sx_def split: prod.splits sum.splits)

lemma forward_ret [forward_rules]: "forward (ret_sx v)"
  by (simp add: forward_def)

lemma forward_Pair [forward_rules]: "forward (Pair r)"
  by (simp add: forward_def)

lemma forward_raise [forward_rules]: "forward (raise_sx e)"
  by (simp add: forward_def)

lemma forward_lift [forward_rules]: "forward (lift_sx r)"
  by (simp add: forward_def lift_sx_def)

lemma forward_bind:
  assumes "forward m" "\<And>v w w'. m w = (Inr v, w') \<Longrightarrow> forward (f v)"
  shows "forward (bind_sx m f)"
  using assms unfolding forward_def bind_sx_eq_Inr by (meson order_trans)

lemma forward_bind_all [forward_rules]:
  "forward m \<Longrightarrow> (\<And>v. forward (f v)) \<Longrightarrow> forward (bind_sx m f)"
  by (rule forward_bind)

lemma forward_if [forward_rules]: "forward a \<Longrightarrow> forward b \<Longrightarrow> forward (if c then a else b)"
  by simp

lemma forward_case [forward_rules]:
  "forward a \<Longrightarrow> (\<And>x. forward (f x)) \<Longrightarrow> forward (case u of None \<Rightarrow> a | Some x \<Rightarrow> f x)"
  "forward a \<Longrightarrow> (\<And>x xs. forward (g x xs)) \<Longrightarrow> forward (case l of [] \<Rightarrow> a | x # xs \<Rightarrow> g x xs)"
  "(\<And>e. forward (h e)) \<Longrightarrow> (\<And>v. forward (k v)) \<Longrightarrow> forward (case s of Inl e \<Rightarrow> h e | Inr v \<Rightarrow> k v)"
  "(\<And>x y. forward (q x y)) \<Longrightarrow> forward (case p of (x, y) \<Rightarrow> q x y)"
  by (cases u, simp_all) (cases l, simp_all, cases s, simp_all, cases p, simp_all)

lemma read_counts: "read P n w = (Inr b, w') \<Longrightarrow> read_bytes w' = read_bytes w + n"
  by (auto simp: read_def Let_def on_packet_def bind_sx_def split: if_splits prod.splits sum.splits)

lemma forward_read: "0 \<le> n \<Longrightarrow> forward (read P n)"
  unfolding forward_def by (auto dest: read_counts)

lemma unpacked_counts: "unpacked P n f w = (Inr v, w') \<Longrightarrow> read_bytes w' = read_bytes w + int n"
  by (auto simp: unpacked_def bind_sx_eq_Inr lift_sx_def dest: read_counts)

lemma forward_unpacked [forward_rules]: "forward (unpacked P n f)"
  unfolding forward_def by (auto dest: unpacked_counts)

lemmas int_readers = read_uint8_def read_int16_def read_uint16_def read_int24_def read_int24_be_def read_uint24_def
  read_uint32_def read_int32_def read_uint40_def read_int40_be_def read_uint48_def read_uint56_def read_uint64_def
  read_int64_def

lemma forward_int_readers [forward_rules]:
  "forward (read_uint8 P)" "forward (read_int24 P)" "forward (read_uint24 P)" "forward (read_uint32 P)"
  "forward (read_uint64 P)" "forward (read_int64 P)"
  by (simp_all add: int_readers forward_rules)

lemma forward_read_int_be [forward_rules]: "forward (read_int_be_by_size P n)"
  by (simp add: read_int_be_by_size_def int_readers forward_rules)

lemma forward_read_uint [forward_rules]: "forward (read_uint_by_size P n)"
  by (simp add: read_uint_by_size_def int_readers forward_rules)

lemma unpacked_value: "unpacked P n f w = (Inr v, w') \<Longrightarrow> \<exists>b. f b = Inr v"
  by (auto simp: unpacked_def bind_sx_eq_Inr lift_sx_def)

lemma read_uint_nonneg:
  assumes "read_uint_by_size P sz w = (Inr (Some n), w')"
  shows "0 \<le> n"
  using assms uint_byte(1)
  by (auto simp: read_uint_by_size_def int_readers bind_sx_eq_Inr unpack_uint_def three_bytes_def
      dest!: unpacked_value split: if_splits list.splits)

lemma forward_read_sized:
  assumes "read_uint_by_size P sz w = (Inr len, w')"
  shows "forward (read_sized P len)"
  using assms read_uint_nonneg [of P sz w] by (cases len) (auto simp: read_sized_def forward_raise intro: forward_read)

lemma forward_pascal_string [forward_rules]: "forward (read_length_coded_pascal_string P n)"
  unfolding read_length_coded_pascal_string_def
  by (rule forward_bind [OF forward_read_uint]) (rule forward_read_sized)

lemma forward_binary_json [forward_rules]: "forward (read_binary_json P room n part)"
  unfolding read_binary_json_def
proof (rule forward_bind [OF forward_read_uint])
  fix len w w' assume "read_uint_by_size P n w = (Inr len, w')"
  from forward_read_sized [OF this]
  show "forward (if len = Some 0 then ret_sx (JsonValue PNone)
      else bind_sx (read_sized P len) (\<lambda>data.
         if part then lift_sx (parse_json_diff room data)
         else lift_sx (bind_res (json_document room data) (\<lambda>v. Inr (JsonValue v)))))"
    by (intro forward_rules)
qed

section \<open>Columns\<close>

lemma forward_fsp [forward_rules]: "forward (read_fsp P col)"
  unfolding read_fsp_def Let_def by (intro forward_rules)

lemma forward_add_fsp [forward_rules]: "forward (add_fsp_to_time P col t)"
  unfolding add_fsp_to_time_def by (intro forward_rules)

lemma forward_datetime2 [forward_rules]: "forward (read_datetime2 P col data)"
  unfolding read_datetime2_def Let_def by (intro forward_rules)

lemma forward_time [forward_rules]: "forward (read_time P)" "forward (read_time2 P col)"
  unfolding read_time_def read_time2_def Let_def by (intro forward_rules)+

lemma forward_string_value [forward_rules]: "forward (read_string_value P E n col)"
  unfolding read_string_value_def by (intro forward_rules)

lemma forward_bit [forward_rules]: "forward (read_bit P col)"
proof -
  have "forward (bit_loop P nbits nbys is resp)" for nbits nbys "is" resp
  proof (induction "is" arbitrary: resp)
    case Nil
    then show ?case by (simp add: forward_rules)
  next
    case (Cons i "is")
    then show ?case unfolding bit_loop.simps by (intro forward_rules)
  qed
  then show ?thesis unfolding read_bit_def by (intro forward_rules)
qed

lemma forward_read_back:
  assumes "\<And>v. forward (h v)"
  shows "forward (bind_sx (read_uint8 P) (\<lambda>v. bind_sx (unread [g v]) (\<lambda>_. h v)))"
  unfolding forward_def
proof (intro allI impI)
  fix w v w' assume "bind_sx (read_uint8 P) (\<lambda>v. bind_sx (unread [g v]) (\<lambda>_. h v)) w = (Inr v, w')"
  then obtain x w1 w2 where "read_uint8 P w = (Inr x, w1)" "unread [g x] w1 = (Inr (), w2)" "h x w2 = (Inr v, w')"
    by (auto simp: bind_sx_eq_Inr)
  moreover from this(1) have "read_bytes w1 = read_bytes w + 1" by (auto simp: read_uint8_def dest: unpacked_counts)
  moreover from calculation(2) have "read_bytes w2 = read_bytes w1 - 1" by (auto simp: unread_def)
  ultimately show "read_bytes w \<le> read_bytes w'" using assms [of x] unfolding forward_def by fastforce
qed

lemma forward_decimal [forward_rules]: "forward (read_new_decimal P col)"
proof -
  have groups: "forward (decimal_groups P msk n res)" for msk n res
  proof (induction n arbitrary: res)
    case 0
    then show ?case by (simp add: forward_rules)
  next
    case (Suc n)
    then show ?case unfolding decimal_groups.simps by (intro forward_rules)
  qed
  have part: "forward (decimal_part P msk n fmt res)" for msk n fmt res
    unfolding decimal_part_def by (intro forward_rules)
  show ?thesis
    unfolding read_new_decimal_def Let_def case_prod_beta
    by (intro forward_lift forward_bind_all forward_read_back forward_rules groups part)
qed

lemma forward_enum_set [forward_rules]: "forward (enum_column P col)" "forward (set_column P E col)"
  "forward (json_value_column P E col part)"
  unfolding enum_column_def set_column_def json_value_column_def Let_def by (intro forward_rules)+

lemma forward_column_value [forward_rules]: "forward (read_column_value P E col uns part)"
  unfolding read_column_value_def Let_def as_plain_def int_column_def float_column_def
  by (intro forward_rules forward_read; simp)

lemma forward_values_name [forward_rules]: "forward (read_values_name P E col nb k part cb uns i)"
  unfolding read_values_name_def by (intro forward_rules)

lemma forward_column_loop [forward_rules]: "forward (column_loop P E pb nb cb i cols acc)"
proof (induction cols arbitrary: i acc)
  case Nil
  then show ?case by (simp add: forward_rules)
next
  case (Cons col cols)
  then show ?case unfolding column_loop.simps by (intro forward_rules)
qed

section \<open>Rows\<close>

definition progress :: "('p, 'a) reader \<Rightarrow> bool" where
  "progress m = (\<forall>w v w'. m w = (Inr v, w') \<longrightarrow> read_bytes w < read_bytes w')"

lemma progress_bind: "progress m \<Longrightarrow> (\<And>v. forward (f v)) \<Longrightarrow> progress (bind_sx m f)"
  unfolding progress_def forward_def bind_sx_eq_Inr by (meson less_le_trans)

lemma forward_progress_bind: "forward m \<Longrightarrow> (\<And>v. progress (f v)) \<Longrightarrow> progress (bind_sx m f)"
  unfolding progress_def forward_def bind_sx_eq_Inr by (meson le_less_trans)

lemma forward_length_coded [forward_rules]: "forward (read_length_coded_binary P)"
  unfolding read_length_coded_binary_def by (intro forward_rules)

lemma forward_partial_bitmap [forward_rules]: "forward (read_partial_bitmap P ev t)"
  unfolding read_partial_bitmap_def by (intro forward_rules forward_read) simp

lemma progress_column_data:
  assumes "0 < BitCount cols_bitmap"
  shows "progress (read_column_data P E ev cols_bitmap t ns)"
proof -
  have "progress (read P (int ((BitCount cols_bitmap + 7) div 8)))"
    using assms unfolding progress_def by (auto dest!: read_counts simp: div_greater_zero_iff)
  then show ?thesis
    unfolding read_column_data_def by (intro forward_progress_bind progress_bind forward_rules)
qed

lemma forward_fetch_image [forward_rules]: "forward (fetch_image P E ev cb t ns)"
  unfolding fetch_image_def read_column_data_def by (intro forward_rules forward_read) simp

lemma progress_fetch:
  assumes "0 < BitCount (re_present ev)"
  shows "progress (write_fetch_one_row P E ev ns)" "progress (delete_fetch_one_row P E ev ns)"
    "progress (update_fetch_one_row P E ev ns)" "progress (partial_update_fetch_one_row P E ev ns)"
proof -
  have "progress (fetch_image P E ev (re_present ev) t ns)" for t
    unfolding fetch_image_def by (intro progress_bind progress_column_data [OF assms] forward_rules)
  note p = this
  show "progress (write_fetch_one_row P E ev ns)" "progress (delete_fetch_one_row P E ev ns)"
    "progress (update_fetch_one_row P E ev ns)" "progress (partial_update_fetch_one_row P E ev ns)"
    unfolding write_fetch_one_row_def delete_fetch_one_row_def update_fetch_one_row_def partial_update_fetch_one_row_def
    by (intro progress_bind [OF p] forward_rules)+
qed

lemma rows_loop_returns:
  assumes "\<And>ns. progress (fetch ns)" "nat (n - read_bytes w) < fuel"
  shows "rows_loop fuel fetch n acc ns w \<noteq> None"
  using assms(2)
proof (induction fuel arbitrary: acc ns w)
  case (Suc fuel)
  show ?case
  proof (cases "read_bytes w < n")
    case True
    have "rows_loop fuel fetch n (acc @ [row]) ns' w' \<noteq> None" if "fetch ns w = (Inr (row, ns'), w')" for row ns' w'
      using assms(1) [of ns] that True Suc.prems unfolding progress_def by (intro Suc.IH) force
    with True show ?thesis by (auto split: prod.splits sum.splits)
  qed simp
qed simp

lemma empty_image:
  assumes "packet_laws P r" "BitCount cols_bitmap = 0" "length (re_columns ev) \<le> 8 * length cols_bitmap"
  shows "\<exists>v w'. read_column_data P E ev cols_bitmap None ns w = (Inr v, w') \<and> read_bytes w' = read_bytes w"
proof -
  obtain w1 where w1: "read P 0 w = (Inr [], w1)" "read_bytes w1 = read_bytes w"
    using read_ok [OF assms(1), of 0 w] by auto
  have zero: "BitGet cols_bitmap i = Inr 0" if "i < 8 * length cols_bitmap" for i
  proof -
    have i: "i div 8 < length cols_bitmap" "i mod 8 < 8" using that by (simp_all add: less_mult_imp_div_less mult.commute)
    have "card {j. j < 8 \<and> bit (cols_bitmap ! (i div 8)) j} = 0"
      using assms(2) i(1) by (simp add: BitCount_sum)
    then have "\<not> bit (cols_bitmap ! (i div 8)) (i mod 8)" using i(2) by (auto simp: card_eq_0_iff)
    then show ?thesis using BitGet_nonzero [OF i(1)] by auto
  qed
  have "\<exists>acc'. column_loop P E None [] cols_bitmap i cols acc w1 = (Inr acc', w1)"
    if "i + length cols \<le> 8 * length cols_bitmap" for i cols acc
    using that
  proof (induction cols arbitrary: i acc)
    case (Cons col cols)
    then have "BitGet cols_bitmap i = Inr 0" by (intro zero) simp
    with Cons show ?case by (simp add: partial_flag_def read_values_name_def bind_sx_def)
  qed simp
  then obtain acc' where "column_loop P E None [] cols_bitmap 0 (re_columns ev)
      \<lparr>ra_values = [], ra_notes = ns, ra_null_index = 0, ra_partial_index = 0\<rparr> w1 = (Inr acc', w1)"
    using assms(3) by (metis add_0)
  with w1 show ?thesis by (simp add: read_column_data_def read_partial_bitmap_def assms(2) bind_sx_def)
qed

lemma rows_loop_stuck:
  assumes "\<And>ns w. \<exists>row ns' w'. fetch ns w = (Inr (row, ns'), w') \<and> read_bytes w' = read_bytes w" "read_bytes w < n"
  shows "rows_loop fuel fetch n acc ns w = None"
  using assms(2)
proof (induction fuel arbitrary: acc ns w)
  case (Suc fuel)
  obtain row ns' w' where "fetch ns w = (Inr (row, ns'), w')" "read_bytes w' = read_bytes w" using assms(1) by blast
  with Suc show ?case by simp
qed simp

text \<open>C32: \<open>rows\<close> returns or raises after at most one iteration per byte of the event, whatever the packet
  answers, when at least one column is present in the image. When no column is present and bytes are left, a
  row consumes nothing and the loop never ends.\<close>

theorem rows_terminate:
  "(0 < BitCount (re_present ev) \<and> nat (re_size ev - read_bytes w) < fuel \<longrightarrow>
      (\<forall>fetch \<in> {write_fetch_one_row P E ev, delete_fetch_one_row P E ev, update_fetch_one_row P E ev,
          partial_update_fetch_one_row P E ev}. fetch_rows fuel fetch ev w \<noteq> None))
   \<and> (packet_laws P r \<and> re_complete ev \<and> BitCount (re_present ev) = 0 \<and> read_bytes w < re_size ev
        \<and> length (re_columns ev) \<le> 8 * length (re_present ev) \<longrightarrow>
      fetch_rows fuel (write_fetch_one_row P E ev) ev w = None)"
proof (intro conjI impI ballI)
  fix fetch assume "0 < BitCount (re_present ev) \<and> nat (re_size ev - read_bytes w) < fuel"
    and "fetch \<in> {write_fetch_one_row P E ev, delete_fetch_one_row P E ev, update_fetch_one_row P E ev,
          partial_update_fetch_one_row P E ev}"
  then have "\<And>ns. progress (fetch ns)" "nat (re_size ev - read_bytes w) < fuel" using progress_fetch [of ev] by auto
  then show "fetch_rows fuel fetch ev w \<noteq> None" unfolding fetch_rows_def
    by (simp add: rows_loop_returns del: not_None_eq)
next
  assume e: "packet_laws P r \<and> re_complete ev \<and> BitCount (re_present ev) = 0 \<and> read_bytes w < re_size ev
        \<and> length (re_columns ev) \<le> 8 * length (re_present ev)"
  have "\<exists>row ns' w'. write_fetch_one_row P E ev ns w = (Inr (row, ns'), w') \<and> read_bytes w' = read_bytes w" for ns w
    using empty_image [of P r "re_present ev" ev E ns w] e
    by (auto simp: write_fetch_one_row_def fetch_image_def bind_sx_def split: prod.splits)
  with e show "fetch_rows fuel (write_fetch_one_row P E ev) ev w = None"
    unfolding fetch_rows_def by (simp add: rows_loop_stuck)
qed

theorem rows_terminate_witness:
  "fetch_rows 10 (update_fetch_one_row list_packet demo_row_env demo_rows_event) demo_rows_event
     \<lparr>read_bytes = 0, data_buffer = [], packet = [1, 2, 3]\<rparr> \<noteq> None
   \<and> fetch_rows 1000 (write_fetch_one_row list_packet demo_row_env (demo_rows_event\<lparr>re_present := [0]\<rparr>))
       (demo_rows_event\<lparr>re_present := [0]\<rparr>) \<lparr>read_bytes = 0, data_buffer = [], packet = [1, 2, 3]\<rparr> = None"
proof -
  let ?w = "\<lparr>read_bytes = 0, data_buffer = [], packet = [1, 2, 3]\<rparr> :: bytes wrapper"
  have "BitCount [7] = 3" "BitCount [0] = 0" by code_simp+
  then show ?thesis
    using rows_terminate [of demo_rows_event ?w 10 list_packet demo_row_env "\<lambda>p. p"]
      rows_terminate [of "demo_rows_event\<lparr>re_present := [0]\<rparr>" ?w 1000 list_packet demo_row_env "\<lambda>p. p"] list_packet_laws
    by (simp add: demo_rows_event_def)
qed

end
