(* ===== verification/Table_Map.thy ===== *)
theory Table_Map
  imports Row_Progress
begin

text \<open>
  \<open>TableMapEvent\<close> and \<open>OptionalMetaData\<close> of \<open>row_event.py\<close>: the columns of a table with their optional
  metadata, and how the metadata is put into the columns.

  The loops that read up to a position use \<open>until_loop\<close> with fuel; every iteration consumes a byte, so the
  length of the block is enough, and \<open>until_loop_enough\<close> shows that more fuel changes nothing. The code changes
  the \<open>Column\<close> objects in place, so the table that was stored before sees the changes, but not the primary
  key that is computed from them afterwards.
\<close>

section \<open>Definitions\<close>

datatype metadata_field_type =
    SIGNEDNESS | DEFAULT_CHARSET | COLUMN_CHARSET | COLUMN_NAME | SET_STR_VALUE | ENUM_STR_VALUE
  | GEOMETRY_TYPE | SIMPLE_PRIMARY_KEY | PRIMARY_KEY_WITH_PREFIX | ENUM_AND_SET_DEFAULT_CHARSET
  | ENUM_AND_SET_COLUMN_CHARSET | VISIBILITY | UNKNOWN_METADATA_FIELD_TYPE

definition metadata_by_index :: "int \<Rightarrow> metadata_field_type res" where
  "metadata_by_index i =
     (if i = 1 then Inr SIGNEDNESS else if i = 2 then Inr DEFAULT_CHARSET else if i = 3 then Inr COLUMN_CHARSET
      else if i = 4 then Inr COLUMN_NAME else if i = 5 then Inr SET_STR_VALUE else if i = 6 then Inr ENUM_STR_VALUE
      else if i = 7 then Inr GEOMETRY_TYPE else if i = 8 then Inr SIMPLE_PRIMARY_KEY
      else if i = 9 then Inr PRIMARY_KEY_WITH_PREFIX else if i = 10 then Inr ENUM_AND_SET_DEFAULT_CHARSET
      else if i = 11 then Inr ENUM_AND_SET_COLUMN_CHARSET else if i = 12 then Inr VISIBILITY
      else if i = 128 then Inr UNKNOWN_METADATA_FIELD_TYPE else Inl ValueError)"

text \<open>A length-coded number may be NULL, so lists of numbers have optional elements. A list that the code
  sets to \<open>None\<close> is \<open>None\<close>.\<close>

record optional_metadata =
  unsigned_column_list :: "bool list"
  default_charset_collation :: "int option"
  charset_collation :: "(int option, int option) dict"
  column_charset :: "int option list"
  column_name_list :: "string list"
  set_str_value_list :: "string list list option"
  set_enum_str_value_list :: "string list list option"
  geometry_type_list :: "int option list"
  simple_primary_key_list :: "int option list"
  primary_keys_with_prefix :: "(int option, int option) dict"
  enum_and_set_default_charset :: "int option"
  enum_and_set_charset_collation :: "(int option, int option) dict"
  enum_and_set_default_column_charset_list :: "int option list"
  charset_collation_list :: "int option list option"
  enum_and_set_collation_list :: "int option list option"
  visibility_list :: "bool list"

definition optional_metadata_init :: optional_metadata where
  "optional_metadata_init =
     \<lparr>unsigned_column_list = [], default_charset_collation = None, charset_collation = [], column_charset = [],
      column_name_list = [], set_str_value_list = Some [], set_enum_str_value_list = Some [],
      geometry_type_list = [], simple_primary_key_list = [], primary_keys_with_prefix = [],
      enum_and_set_default_charset = None, enum_and_set_charset_collation = [],
      enum_and_set_default_column_charset_list = [], charset_collation_list = Some [],
      enum_and_set_collation_list = Some [], visibility_list = []\<rparr>"

subsection \<open>Kinds of columns\<close>

definition is_character_column :: "int \<Rightarrow> string \<Rightarrow> bool" where
  "is_character_column t dbms =
     (if t \<in> {FT_STRING, FT_VAR_STRING, FT_VARCHAR, FT_BLOB} then True
      else if t = FT_GEOMETRY \<and> dbms = ''mariadb'' then True else False)"

definition is_enum_column :: "int \<Rightarrow> bool" where "is_enum_column t = (t = FT_ENUM)"

definition is_set_column :: "int \<Rightarrow> bool" where "is_set_column t = (t = FT_SET)"

definition is_enum_or_set_column :: "int \<Rightarrow> string \<Rightarrow> bool" where
  "is_enum_or_set_column t dbms = (t \<in> {FT_ENUM, FT_SET})"

definition is_numeric_column :: "int \<Rightarrow> bool" where
  "is_numeric_column t =
     (t \<in> {FT_TINY, FT_SHORT, FT_INT24, FT_LONG, FT_LONGLONG, FT_NEWDECIMAL, FT_FLOAT, FT_DOUBLE, FT_YEAR})"

subsection \<open>Readers of the metadata blocks\<close>

fun until_loop :: "nat \<Rightarrow> int \<Rightarrow> ('a \<Rightarrow> ('p, 'a) reader) \<Rightarrow> 'a \<Rightarrow> ('p, 'a) reader" where
  "until_loop 0 stop body acc = (\<lambda>w. (if read_bytes w < stop then Inl RecursionError else Inr acc, w))"
| "until_loop (Suc n) stop body acc =
     (\<lambda>w. if read_bytes w < stop then bind_sx (body acc) (until_loop n stop body) w else (Inr acc, w))"

definition until_end :: "int \<Rightarrow> ('a \<Rightarrow> ('p, 'a) reader) \<Rightarrow> 'a \<Rightarrow> ('p, 'a) reader" where
  "until_end len body acc = (\<lambda>w. until_loop (nat len) (read_bytes w + len) body acc w)"

fun bool_loop :: "bool \<Rightarrow> bytes \<Rightarrow> column list \<Rightarrow> byte \<Rightarrow> nat \<Rightarrow> nat \<Rightarrow> bool list \<Rightarrow> bool list res" where
  "bool_loop signedness_flag bytes_data [] cur byte_idx bit_idx bool_list = Inr bool_list"
| "bool_loop signedness_flag bytes_data (col # cols) cur byte_idx bit_idx bool_list =
     (if \<not> is_numeric_column (ctype col) \<and> signedness_flag
      then bool_loop signedness_flag bytes_data cols cur byte_idx bit_idx bool_list
      else bind_res (if bit_idx = 0 then index_at bytes_data byte_idx else Inr cur) (\<lambda>b.
        bool_loop signedness_flag bytes_data cols b (if bit_idx = 0 then byte_idx + 1 else byte_idx) ((bit_idx + 1) mod 8)
          (bool_list @ [and (uint b) (drop_bit bit_idx 0x80) \<noteq> 0])))"

definition read_bool_list :: "'p packet_ops \<Rightarrow> column list \<Rightarrow> int \<Rightarrow> bool \<Rightarrow> ('p, bool list) reader" where
  "read_bool_list P columns read_byte_length signedness_flag =
     bind_sx (read P read_byte_length) (\<lambda>bytes_data.
       lift_sx (bool_loop signedness_flag bytes_data columns 0 0 0 []))"

fun convert_loop :: "bool list \<Rightarrow> column list \<Rightarrow> nat \<Rightarrow> bool list \<Rightarrow> bool list res" where
  "convert_loop signedness [] position bool_list = Inr bool_list"
| "convert_loop signedness (col # cols) position bool_list =
     (if is_numeric_column (ctype col)
      then bind_res (index_at signedness position) (\<lambda>b. convert_loop signedness cols (position + 1) (bool_list @ [b]))
      else convert_loop signedness cols position (bool_list @ [False]))"

definition convert_include_non_numeric_column :: "column list \<Rightarrow> bool list \<Rightarrow> bool list res" where
  "convert_include_non_numeric_column columns signedness = convert_loop signedness columns 0 []"

text \<open>An empty block returns \<open>None\<close>, which the callers then try to unpack.\<close>

definition read_default_charset :: "'p packet_ops \<Rightarrow> int \<Rightarrow> ('p, int option \<times> (int option, int option) dict) reader" where
  "read_default_charset P len =
     (\<lambda>w. let read_until = read_bytes w + len
       in if read_bytes w \<ge> read_until then (Inl TypeError, w)
          else bind_sx (read_length_coded_binary P) (\<lambda>dflt.
            bind_sx (until_loop (nat len) read_until (\<lambda>charset.
                bind_sx (read_length_coded_binary P) (\<lambda>column_index.
                bind_sx (read_length_coded_binary P) (\<lambda>collation. ret_sx (dict_set column_index collation charset)))) [])
              (\<lambda>charset. ret_sx (dflt, charset))) w)"

definition read_ints :: "'p packet_ops \<Rightarrow> int \<Rightarrow> ('p, int option list) reader" where
  "read_ints P len =
     until_end len (\<lambda>result. bind_sx (read_length_coded_binary P) (\<lambda>v. ret_sx (result @ [v]))) []"

definition read_column_names :: "'p packet_ops \<Rightarrow> int \<Rightarrow> ('p, string list) reader" where
  "read_column_names P len =
     until_end len (\<lambda>result. bind_sx (read_variable_length_string P) (\<lambda>b.
       bind_sx (lift_sx (decode_utf8 b)) (\<lambda>s. ret_sx (result @ [s])))) []"

definition decode_or_empty :: "bytes \<Rightarrow> string res" where
  "decode_or_empty b = (case decode_utf8 b of Inl UnicodeDecodeError \<Rightarrow> Inr [] | r \<Rightarrow> r)"

definition read_type_value_list :: "'p packet_ops \<Rightarrow> ('p, string list) reader" where
  "read_type_value_list P =
     bind_sx (read_length_coded_binary P) (\<lambda>c. bind_sx (lift_sx (some_int c)) (\<lambda>value_count.
       map_sx (\<lambda>_. bind_sx (read_variable_length_string P) (\<lambda>b. lift_sx (decode_or_empty b))) [0..<nat value_count]))"

definition read_type_values :: "'p packet_ops \<Rightarrow> int \<Rightarrow> ('p, string list list option) reader" where
  "read_type_values P len =
     (if len \<le> 0 then ret_sx None
      else bind_sx (until_end len (\<lambda>result. bind_sx (read_type_value_list P) (\<lambda>vs. ret_sx (result @ [vs]))) [])
        (\<lambda>r. ret_sx (Some r)))"

fun prefix_pairs :: "int option list \<Rightarrow> (int option, int option) dict \<Rightarrow> (int option, int option) dict res" where
  "prefix_pairs [] result = Inr result"
| "prefix_pairs [x] result = Inl IndexError"
| "prefix_pairs (x # y # ints) result = prefix_pairs ints (dict_set x y result)"

definition read_primary_keys_with_prefix :: "'p packet_ops \<Rightarrow> int \<Rightarrow> ('p, (int option, int option) dict) reader" where
  "read_primary_keys_with_prefix P len = bind_sx (read_ints P len) (\<lambda>ints. lift_sx (prefix_pairs ints []))"

fun default_charset_loop ::
    "(int \<Rightarrow> bool) \<Rightarrow> int option \<Rightarrow> (int option, int option) dict \<Rightarrow> column list \<Rightarrow> int \<Rightarrow> int option list" where
  "default_charset_loop detect dflt d [] position = []"
| "default_charset_loop detect dflt d (col # cols) position =
     (if \<not> detect (ctype col) then default_charset_loop detect dflt d cols position
      else (case map_of d (Some position) of None \<Rightarrow> dflt | Some c \<Rightarrow> c)
        # default_charset_loop detect dflt d cols (position + 1))"

definition parsed_column_charset_by_default_charset ::
    "column list \<Rightarrow> int option \<Rightarrow> (int option, int option) dict \<Rightarrow> (int \<Rightarrow> bool) \<Rightarrow> int option list" where
  "parsed_column_charset_by_default_charset columns dflt d detect = default_charset_loop detect dflt d columns 0"

fun column_charset_loop :: "(int \<Rightarrow> bool) \<Rightarrow> int option list \<Rightarrow> column list \<Rightarrow> nat \<Rightarrow> int option list res" where
  "column_charset_loop detect cs [] position = Inr []"
| "column_charset_loop detect cs (col # cols) position =
     (if \<not> detect (ctype col) then column_charset_loop detect cs cols position
      else bind_res (index_at cs position) (\<lambda>c.
        bind_res (column_charset_loop detect cs cols (position + 1)) (\<lambda>r. Inr (c # r))))"

definition parsed_column_charset_by_column_charset ::
    "column list \<Rightarrow> int option list \<Rightarrow> (int \<Rightarrow> bool) \<Rightarrow> int option list option res" where
  "parsed_column_charset_by_column_charset columns cs detect =
     (if cs = [] then Inr None
      else bind_res (column_charset_loop detect cs columns 0) (\<lambda>r. Inr (Some r)))"

text \<open>One block of optional metadata: type, length, value.\<close>

definition metadata_block :: "'p packet_ops \<Rightarrow> string \<Rightarrow> column list \<Rightarrow> optional_metadata \<Rightarrow> ('p, optional_metadata) reader" where
  "metadata_block P dbms columns om =
     bind_sx (unpacked P 1 (unpack_uint 1)) (\<lambda>option_metadata_type.
     bind_sx (read_length_coded_binary P) (\<lambda>length_opt.
     bind_sx (lift_sx (metadata_by_index option_metadata_type)) (\<lambda>field_type.
     if field_type = UNKNOWN_METADATA_FIELD_TYPE then ret_sx om
     else bind_sx (lift_sx (some_int length_opt)) (\<lambda>len.
       case field_type of
         SIGNEDNESS \<Rightarrow>
           bind_sx (read_bool_list P columns len True) (\<lambda>bs.
           bind_sx (lift_sx (convert_include_non_numeric_column columns bs)) (\<lambda>l. ret_sx (om\<lparr>unsigned_column_list := l\<rparr>)))
       | DEFAULT_CHARSET \<Rightarrow>
           bind_sx (read_default_charset P len) (\<lambda>(dflt, d).
             ret_sx (om\<lparr>default_charset_collation := dflt, charset_collation := d,
               charset_collation_list := Some (parsed_column_charset_by_default_charset columns dflt d
                 (\<lambda>t. is_character_column t dbms))\<rparr>))
       | COLUMN_CHARSET \<Rightarrow>
           bind_sx (read_ints P len) (\<lambda>cs.
           bind_sx (lift_sx (parsed_column_charset_by_column_charset columns cs (\<lambda>t. is_character_column t dbms))) (\<lambda>l.
             ret_sx (om\<lparr>column_charset := cs, charset_collation_list := l\<rparr>)))
       | COLUMN_NAME \<Rightarrow> bind_sx (read_column_names P len) (\<lambda>l. ret_sx (om\<lparr>column_name_list := l\<rparr>))
       | SET_STR_VALUE \<Rightarrow> bind_sx (read_type_values P len) (\<lambda>l. ret_sx (om\<lparr>set_str_value_list := l\<rparr>))
       | ENUM_STR_VALUE \<Rightarrow> bind_sx (read_type_values P len) (\<lambda>l. ret_sx (om\<lparr>set_enum_str_value_list := l\<rparr>))
       | GEOMETRY_TYPE \<Rightarrow> bind_sx (read_ints P len) (\<lambda>l. ret_sx (om\<lparr>geometry_type_list := l\<rparr>))
       | SIMPLE_PRIMARY_KEY \<Rightarrow> bind_sx (read_ints P len) (\<lambda>l. ret_sx (om\<lparr>simple_primary_key_list := l\<rparr>))
       | PRIMARY_KEY_WITH_PREFIX \<Rightarrow>
           bind_sx (read_primary_keys_with_prefix P len) (\<lambda>l. ret_sx (om\<lparr>primary_keys_with_prefix := l\<rparr>))
       | ENUM_AND_SET_DEFAULT_CHARSET \<Rightarrow>
           bind_sx (read_default_charset P len) (\<lambda>(dflt, d).
             ret_sx (om\<lparr>enum_and_set_default_charset := dflt, enum_and_set_charset_collation := d,
               enum_and_set_collation_list := Some (parsed_column_charset_by_default_charset columns dflt d
                 (\<lambda>t. is_enum_or_set_column t dbms))\<rparr>))
       | ENUM_AND_SET_COLUMN_CHARSET \<Rightarrow>
           bind_sx (read_ints P len) (\<lambda>cs.
           bind_sx (lift_sx (parsed_column_charset_by_column_charset columns cs (\<lambda>t. is_enum_or_set_column t dbms))) (\<lambda>l.
             ret_sx (om\<lparr>enum_and_set_default_column_charset_list := cs, enum_and_set_collation_list := l\<rparr>)))
       | VISIBILITY \<Rightarrow> bind_sx (read_bool_list P columns len False) (\<lambda>l. ret_sx (om\<lparr>visibility_list := l\<rparr>))
       | UNKNOWN_METADATA_FIELD_TYPE \<Rightarrow> ret_sx om))))"

fun metadata_loop :: "'p packet_ops \<Rightarrow> string \<Rightarrow> column list \<Rightarrow> nat \<Rightarrow> optional_metadata \<Rightarrow> ('p, optional_metadata) reader" where
  "metadata_loop P dbms columns 0 om = raise_sx RecursionError"
| "metadata_loop P dbms columns (Suc n) om =
     bind_sx (bytes_to_read P) (\<lambda>left.
       if left > BINLOG_CHECKSUM_LEN
       then bind_sx (metadata_block P dbms columns om) (metadata_loop P dbms columns n)
       else ret_sx om)"

definition get_optional_meta_data :: "'p packet_ops \<Rightarrow> string \<Rightarrow> column list \<Rightarrow> ('p, optional_metadata) reader" where
  "get_optional_meta_data P dbms columns = (\<lambda>w. metadata_loop P dbms columns (fuel_of P w) optional_metadata_init w)"

subsection \<open>Metadata of the columns\<close>

definition index_opt :: "'a list option \<Rightarrow> nat \<Rightarrow> 'a res" where
  "index_opt l i = (case l of None \<Rightarrow> Inl TypeError | Some xs \<Rightarrow> index_at xs i)"

definition str_opt :: "int option \<Rightarrow> string" where
  "str_opt v = (case v of None \<Rightarrow> ''None'' | Some i \<Rightarrow> str_int i)"

record sync_pos =
  charset_pos :: nat
  enum_or_set_pos :: nat
  enum_pos :: nat
  set_pos :: nat

definition sync_charset :: "string \<Rightarrow> int option list option \<Rightarrow> nat \<Rightarrow> column \<Rightarrow> column res" where
  "sync_charset dbms l pos col =
     bind_res (index_opt l pos) (\<lambda>charset_id.
     bind_res (find_charset (str_opt charset_id) dbms) (\<lambda>(encode_name, coll_name, charset_name).
       Inr (col\<lparr>collation_name := coll_name, character_set_name := Some encode_name\<rparr>)))"

definition sync_character :: "string \<Rightarrow> optional_metadata \<Rightarrow> sync_pos \<Rightarrow> column \<Rightarrow> (column \<times> sync_pos) res" where
  "sync_character dbms om p col =
     (if is_character_column (ctype col) dbms
      then bind_res (sync_charset dbms (charset_collation_list om) (charset_pos p) col) (\<lambda>c.
        Inr (c, p\<lparr>charset_pos := charset_pos p + 1\<rparr>))
      else Inr (col, p))"

definition sync_enum_set :: "string \<Rightarrow> optional_metadata \<Rightarrow> sync_pos \<Rightarrow> column \<Rightarrow> (column \<times> sync_pos) res" where
  "sync_enum_set dbms om p col =
     (if is_enum_or_set_column (ctype col) dbms
      then bind_res (sync_charset dbms (enum_and_set_collation_list om) (enum_or_set_pos p) col) (\<lambda>c.
        let p1 = p\<lparr>enum_or_set_pos := enum_or_set_pos p + 1\<rparr>
        in bind_res (if is_enum_column (ctype col)
                     then bind_res (index_opt (set_enum_str_value_list om) (enum_pos p1)) (\<lambda>vs.
                       Inr (c\<lparr>enum_values := Some ([] # vs)\<rparr>, p1\<lparr>enum_pos := enum_pos p1 + 1\<rparr>))
                     else Inr (c, p1)) (\<lambda>(c1, p2).
           if is_set_column (ctype col)
           then bind_res (index_opt (set_str_value_list om) (set_pos p2)) (\<lambda>vs.
             Inr (c1\<lparr>set_values := Some vs\<rparr>, p2\<lparr>set_pos := set_pos p2 + 1\<rparr>))
           else Inr (c1, p2)))
      else Inr (col, p))"

definition sync_flags :: "optional_metadata \<Rightarrow> nat \<Rightarrow> column \<Rightarrow> column res" where
  "sync_flags om idx col =
     bind_res (if unsigned_column_list om = [] then Inr False else index_at (unsigned_column_list om) idx) (\<lambda>uns.
     bind_res (if visibility_list om = [] then Inr False else index_at (visibility_list om) idx) (\<lambda>vis.
       let col1 = (if uns then col\<lparr>unsigned := True\<rparr> else col);
           col2 = (if Some (int idx) \<in> set (simple_primary_key_list om) then col1\<lparr>is_primary := True\<rparr> else col1)
       in Inr (if vis then col2\<lparr>visibility := True\<rparr> else col2)))"

definition sync_column :: "string \<Rightarrow> optional_metadata \<Rightarrow> nat \<Rightarrow> sync_pos \<Rightarrow> column \<Rightarrow> (column \<times> sync_pos) res" where
  "sync_column dbms om idx p col =
     bind_res (index_at (column_name_list om) idx) (\<lambda>column_name.
     bind_res (sync_character dbms om p (col\<lparr>name := column_name\<rparr>)) (\<lambda>(col1, p1).
     bind_res (sync_enum_set dbms om p1 col1) (\<lambda>(col2, p2).
     bind_res (sync_flags om idx col2) (\<lambda>col3. Inr (col3, p2)))))"

fun sync_loop :: "string \<Rightarrow> optional_metadata \<Rightarrow> nat \<Rightarrow> sync_pos \<Rightarrow> column list \<Rightarrow> column list res" where
  "sync_loop dbms om idx p [] = Inr []"
| "sync_loop dbms om idx p (col # cols) =
     bind_res (sync_column dbms om idx p col) (\<lambda>(col', p').
     bind_res (sync_loop dbms om (idx + 1) p' cols) (\<lambda>cols'. Inr (col' # cols')))"

text \<open>The columns after the metadata was put into them, and whether a new table object was made.\<close>

definition sync_column_info :: "bool \<Rightarrow> string \<Rightarrow> optional_metadata \<Rightarrow> column list \<Rightarrow> (column list \<times> bool) res" where
  "sync_column_info optional_meta_data dbms om columns =
     (if \<not> optional_meta_data then Inr (columns, False)
      else if column_name_list om = [] then Inr (columns, False)
      else bind_res (sync_loop dbms om 0 \<lparr>charset_pos = 0, enum_or_set_pos = 0, enum_pos = 0, set_pos = 0\<rparr> columns)
        (\<lambda>cols. Inr (cols, True)))"

subsection \<open>The event\<close>

record table_map_event =
  tme_table_id :: int
  tme_flags :: int
  tme_schema :: string
  tme_table :: string
  tme_column_count :: int
  tme_null_bitmask :: bytes
  tme_metadata :: optional_metadata
  tme_table_obj :: table

definition get_table :: "table_map_event \<Rightarrow> table" where "get_table ev = tme_table_obj ev"

text \<open>The name of the schema or table: a length byte and the bytes.\<close>

definition read_name :: "'p packet_ops \<Rightarrow> ('p, string) reader" where
  "read_name P = bind_sx (unpacked P 1 (unpack_uint_be 1)) (\<lambda>n. bind_sx (read P n) (\<lambda>b. lift_sx (decode_utf8 b)))"

definition table_map_body ::
    "'p packet_ops \<Rightarrow> bool \<Rightarrow> string \<Rightarrow> (int, table) dict \<Rightarrow> int \<Rightarrow> int \<Rightarrow> string \<Rightarrow> string \<Rightarrow>
     ('p, table_map_event \<times> (int, table) dict) reader" where
  "table_map_body P optional_meta_data dbms tm tid flags schema tab =
     bind_sx (advance P 1) (\<lambda>_.
     bind_sx (read_length_coded_binary P) (\<lambda>c.
     bind_sx (read_sized P c) (\<lambda>column_types.
     bind_sx (read_length_coded_binary P) (\<lambda>_.
     bind_sx (map_sx (\<lambda>t. parse_column_definition P (uint t)) column_types) (\<lambda>columns.
     bind_sx (read P (int ((length column_types + 7) div 8))) (\<lambda>null_bitmask.
     bind_sx (get_optional_meta_data P dbms columns) (\<lambda>om.
     bind_sx (lift_sx (sync_column_info optional_meta_data dbms om columns)) (\<lambda>(cols, synced).
       let t0 = table_init tid schema tab columns None False
       in ret_sx (\<lparr>tme_table_id = tid, tme_flags = flags, tme_schema = schema, tme_table = tab,
            tme_column_count = int (length column_types), tme_null_bitmask = null_bitmask, tme_metadata = om,
            tme_table_obj = (if synced then table_init tid schema tab cols None True else t0)\<rparr>,
          dict_set tid (t0\<lparr>t_columns := cols\<rparr>) tm)))))))))"

text \<open>\<open>None\<close> is an event that is skipped: its table is frozen or filtered out.\<close>

definition table_map_event_init ::
    "'p packet_ops \<Rightarrow> filters \<Rightarrow> bool \<Rightarrow> bool \<Rightarrow> string \<Rightarrow> (int, table) dict \<Rightarrow>
     ('p, table_map_event option \<times> (int, table) dict) reader" where
  "table_map_event_init P F freeze_schema optional_meta_data dbms tm =
     bind_sx (read_table_id P) (\<lambda>tid.
       if map_of tm tid \<noteq> None \<and> freeze_schema then ret_sx (None, tm)
       else
         bind_sx (unpacked P 2 (unpack_uint 2)) (\<lambda>flags.
         bind_sx (read_name P) (\<lambda>schema.
         bind_sx (advance P 1) (\<lambda>_.
         bind_sx (read_name P) (\<lambda>tab.
           if filtered_out F schema tab then ret_sx (None, tm)
           else bind_sx (table_map_body P optional_meta_data dbms tm tid flags schema tab) (\<lambda>(ev, tm').
             ret_sx (Some ev, tm')))))))"

end
