(* ===== verification/Table_Map_Props.thy ===== *)
theory Table_Map_Props
  imports Table_Map
begin

text \<open>
  What the metadata of a table map event means: the fuel of the reading loops is enough, the signedness
  bitmap is read back, and the metadata reaches the columns: names, signedness, primary key.
\<close>

section \<open>Loops up to a position\<close>

lemma until_loop_enough:
  assumes "\<And>acc. progress (body acc)" "nat (stop - read_bytes w) \<le> n" "nat (stop - read_bytes w) \<le> m"
  shows "until_loop n stop body acc w = until_loop m stop body acc w"
  using assms(2,3)
proof (induction n arbitrary: m acc w)
  case 0
  then show ?case by (cases m) auto
next
  case (Suc n)
  show ?case
  proof (cases m)
    case 0
    with Suc.prems show ?thesis by simp
  next
    case (Suc k)
    have "until_loop n stop body x w' = until_loop k stop body x w'" if "body acc w = (Inr x, w')" "read_bytes w < stop" for x w'
      using assms(1) [of acc] that Suc.prems Suc unfolding progress_def by (intro Suc.IH) force+
    then show ?thesis by (auto simp: Suc bind_sx_def split: prod.splits sum.splits)
  qed
qed

lemma progress_unpacked: "0 < n \<Longrightarrow> progress (unpacked P n f)"
  unfolding progress_def by (auto dest: unpacked_counts)

lemma progress_length_coded: "progress (read_length_coded_binary P)"
  unfolding read_length_coded_binary_def by (intro progress_bind progress_unpacked forward_rules) simp

lemma decodesE:
  assumes "decodes r m b v" "rest r w = b @ z"
  obtains w' where "m w = (Inr v, w')" "rest r w' = z" "read_bytes w' = read_bytes w + int (length b)"
  using assms unfolding decodes_def by blast

text \<open>A block of items is read one after the other until it is used up.\<close>

lemma until_loop_items:
  assumes body: "\<And>x acc. x \<in> set xs \<Longrightarrow> enc x \<noteq> [] \<and> decodes r (body acc) (enc x) (app x acc)"
    and "rest r w = concat (map enc xs) @ z" "read_bytes w + int (length (concat (map enc xs))) = stop"
    and "length (concat (map enc xs)) \<le> n"
  shows "\<exists>w'. until_loop n stop body acc w = (Inr (fold app xs acc), w') \<and> rest r w' = z \<and> read_bytes w' = stop"
  using assms
proof (induction xs arbitrary: n acc w)
  case Nil
  then show ?case by (cases n) auto
next
  case (Cons x xs)
  have x: "enc x \<noteq> []" "decodes r (body acc) (enc x) (app x acc)" using Cons.prems(1) [of x] by simp_all
  then obtain k where n: "n = Suc k" using Cons.prems(4) by (cases n) auto
  obtain w1 where w1: "body acc w = (Inr (app x acc), w1)" "rest r w1 = concat (map enc xs) @ z"
      "read_bytes w1 = read_bytes w + int (length (enc x))"
    by (rule decodesE [OF x(2), of w "concat (map enc xs) @ z"]) (use Cons.prems(2) in auto)
  have l: "Suc 0 \<le> length (enc x)" using x(1) by (simp add: Suc_le_eq)
  have "read_bytes w < stop" "length (concat (map enc xs)) \<le> k"
    using l Cons.prems(3,4) unfolding n list.map concat.simps length_append of_nat_add by linarith+
  with Cons.IH [of w1 k "app x acc"] Cons.prems w1 show ?case by (simp add: n bind_sx_def)
qed

lemma until_end_decodes:
  assumes "\<And>x acc. x \<in> set xs \<Longrightarrow> enc x \<noteq> [] \<and> decodes r (body acc) (enc x) (app x acc)"
  shows "decodes r (until_end (int (length (concat (map enc xs)))) body acc) (concat (map enc xs)) (fold app xs acc)"
  unfolding decodes_def
proof (intro allI impI)
  fix w z assume w: "rest r w = concat (map enc xs) @ z"
  let ?len = "int (length (concat (map enc xs)))"
  from until_loop_items [OF assms w refl, of "nat ?len"]
  show "\<exists>w'. until_end ?len body acc w = (Inr (fold app xs acc), w') \<and> rest r w' = z \<and> read_bytes w' = read_bytes w + ?len"
    by (simp add: until_end_def del: length_concat)
qed

lemma read_ints_decodes:
  assumes "packet_laws P r" "\<forall>i \<in> set is. 0 \<le> i \<and> i < 2 ^ 24"
  shows "decodes r (read_ints P (int (length (concat (map put_length is))))) (concat (map put_length is)) (map Some is)"
proof -
  have "put_length i \<noteq> [] \<and> decodes r (bind_sx (read_length_coded_binary P) (\<lambda>v. ret_sx (acc @ [v]))) (put_length i) (acc @ [Some i])"
    if "i \<in> set is" for i acc
    using decodes_map [OF length_coded_binary_decodes [OF assms(1), of i], of "\<lambda>v. acc @ [v]"] that assms(2)
    by (simp add: put_length_def)
  moreover have "fold (\<lambda>i acc. acc @ [Some i]) is acc = acc @ map Some is" for acc
    by (induction "is" arbitrary: acc) simp_all
  ultimately show ?thesis
    using until_end_decodes [of "is" put_length r "\<lambda>result. bind_sx (read_length_coded_binary P) (\<lambda>v. ret_sx (result @ [v]))"
        "\<lambda>i acc. acc @ [Some i]" "[]"]
    by (simp add: read_ints_def)
qed

section \<open>Signedness\<close>

text \<open>The encoding: one bit per numeric column, the most significant bit of each byte first.\<close>

function pack_msb :: "bool list \<Rightarrow> bytes" where
  "pack_msb bs = (if bs = [] then []
     else horner_sum of_bool 2 (rev (take 8 bs @ replicate (8 - length bs) False)) # pack_msb (drop 8 bs))"
  by pat_completeness auto
termination by (relation "measure length") auto

declare pack_msb.simps [simp del]

lemma pack_msb_nth:
  "i < length bs \<Longrightarrow> i div 8 < length (pack_msb bs) \<and> (bit (pack_msb bs ! (i div 8)) (7 - i mod 8) \<longleftrightarrow> bs ! i)"
proof (induction bs arbitrary: i rule: pack_msb.induct)
  case (1 bs)
  then have ne: "bs \<noteq> []" by auto
  define l where "l = rev (take 8 bs @ replicate (8 - length bs) False)"
  have p: "pack_msb bs = horner_sum of_bool 2 l # pack_msb (drop 8 bs)"
    unfolding l_def using ne by (subst pack_msb.simps) simp
  have len: "length l = 8" by (simp add: l_def)
  show ?case
  proof (cases "i < 8")
    case True
    have "l ! (7 - i) = (take 8 bs @ replicate (8 - length bs) False) ! i"
      using True unfolding l_def by (subst rev_nth) (simp_all add: Suc_diff_Suc min_def)
    also have "\<dots> = bs ! i" using True "1.prems" by (simp add: nth_append)
    finally show ?thesis using True len by (auto simp: p bit_horner_sum_bit_iff)
  next
    case False
    then have i: "i div 8 = Suc ((i - 8) div 8)" "i mod 8 = (i - 8) mod 8"
      by (simp_all add: le_div_geq le_mod_geq)
    have "i - 8 < length (drop 8 bs)" using "1.prems" False by simp
    from "1.IH" [OF ne this] show ?thesis using False "1.prems" by (simp add: p i)
  qed
qed

lemma msb_test: "i < 8 \<Longrightarrow> and (uint b) (drop_bit i 0x80) \<noteq> 0 \<longleftrightarrow> bit b (7 - i)" for b :: byte
proof -
  assume "i < 8"
  then have "drop_bit i (0x80 :: int) = push_bit (7 - i) 1"
    using power_diff [of "2 :: int" i 7] by (simp add: drop_bit_eq_div push_bit_eq_mult)
  then show ?thesis using and_single_bit [of "uint b" "7 - i"] by (simp add: bit_uint_iff) (simp add: bit_word_def)
qed

text \<open>The columns that take part in a bitmap, and the invariant of the loop: \<open>k\<close> bits have been read, the
  current byte is the one with the last bit.\<close>

definition takes_bit :: "bool \<Rightarrow> column \<Rightarrow> bool" where
  "takes_bit signedness_flag col = (\<not> signedness_flag \<or> is_numeric_column (ctype col))"

lemma bool_loop_reads:
  assumes "length flags = k + length (filter (takes_bit sf) cols)" "acc = take k flags" "k \<le> length flags"
    and "k mod 8 \<noteq> 0 \<longrightarrow> cur = pack_msb flags ! (k div 8)"
  shows "bool_loop sf (pack_msb flags) cols cur ((k + 7) div 8) (k mod 8) acc = Inr flags"
  using assms
proof (induction cols arbitrary: k cur acc)
  case Nil
  then show ?case by simp
next
  case (Cons col cols)
  show ?case
  proof (cases "takes_bit sf col")
    case False
    with Cons show ?thesis by (auto simp: takes_bit_def)
  next
    case True
    then have k: "k < length flags" using Cons.prems(1) by simp
    let ?b = "pack_msb flags ! (k div 8)"
    have nth: "k div 8 < length (pack_msb flags)" "bit ?b (7 - k mod 8) \<longleftrightarrow> flags ! k" using pack_msb_nth [OF k] by simp_all
    have byte: "(if k mod 8 = 0 then index_at (pack_msb flags) ((k + 7) div 8) else Inr cur) = Inr ?b"
    proof (cases "k mod 8 = 0")
      case True
      then have "(k + 7) div 8 = k div 8" by presburger
      with True nth(1) show ?thesis by (simp add: index_at_def)
    qed (use Cons.prems(4) in simp)
    have idx: "(if k mod 8 = 0 then (k + 7) div 8 + 1 else (k + 7) div 8) = (k + 1 + 7) div 8"
      "(k mod 8 + 1) mod 8 = (k + 1) mod 8" by presburger+
    have cur: "(k + 1) mod 8 \<noteq> 0 \<longrightarrow> ?b = pack_msb flags ! ((k + 1) div 8)"
      by (metis Suc_eq_plus1 div_Suc)
    have bit: "(and (uint ?b) (drop_bit (k mod 8) 0x80) \<noteq> 0) = flags ! k" using nth(2) msb_test [of "k mod 8" ?b] by simp
    have "bool_loop sf (pack_msb flags) cols ?b ((k + 1 + 7) div 8) ((k + 1) mod 8) (acc @ [flags ! k]) = Inr flags"
      using Cons.prems(1,2) True k cur by (intro Cons.IH) (auto simp: take_Suc_conv_app_nth)
    then show ?thesis
      using True unfolding bool_loop.simps byte bind_res.simps idx bit by (auto simp: takes_bit_def)
  qed
qed

lemma convert_loop_reads:
  assumes "flags = acc_flags @ map snd (filter (\<lambda>(col, f). is_numeric_column (ctype col)) (zip cols fs))"
    and "length fs = length cols"
  shows "convert_loop flags cols (length acc_flags) acc = Inr (acc @ map (\<lambda>(col, f). is_numeric_column (ctype col) \<and> f) (zip cols fs))"
  using assms
proof (induction cols arbitrary: fs acc acc_flags)
  case (Cons col cols)
  then obtain f gs where fs: "fs = f # gs" by (cases fs) auto
  show ?case
  proof (cases "is_numeric_column (ctype col)")
    case True
    with Cons.prems(1) fs have "index_at flags (length acc_flags) = Inr f" by (simp add: index_at_def nth_append)
    moreover have "convert_loop flags cols (length (acc_flags @ [f])) (acc @ [f])
        = Inr ((acc @ [f]) @ map (\<lambda>(col, f). is_numeric_column (ctype col) \<and> f) (zip cols gs))"
      using Cons.prems True by (intro Cons.IH) (simp_all add: fs)
    ultimately show ?thesis using True by (simp add: fs)
  next
    case False
    with Cons show ?thesis by (simp add: fs)
  qed
qed simp

text \<open>The signedness of the columns is read back: one bit per numeric column, padded to whole bytes, most
  significant bit first, gives the list that is true exactly at the unsigned numeric columns.\<close>

theorem signedness_roundtrip:
  assumes "packet_laws P r" "length fs = length cols"
    and "flags = map snd (filter (\<lambda>(col, f). is_numeric_column (ctype col)) (zip cols fs))"
  shows "decodes r (bind_sx (read_bool_list P cols (int (length (pack_msb flags))) True)
      (\<lambda>bs. lift_sx (convert_include_non_numeric_column cols bs)))
    (pack_msb flags) (map (\<lambda>(col, f). is_numeric_column (ctype col) \<and> f) (zip cols fs))"
proof -
  have "map fst (filter (\<lambda>(col, f). is_numeric_column (ctype col)) (zip cols fs)) = filter (takes_bit True) cols"
    using assms(2) by (induction cols fs rule: list_induct2') (auto simp: takes_bit_def)
  then have "length flags = length (filter (takes_bit True) cols)" by (metis assms(3) length_map)
  then have loop: "bool_loop True (pack_msb flags) cols 0 0 0 [] = Inr flags"
    using bool_loop_reads [of flags 0 True cols "[]" 0] by simp
  have conv: "convert_include_non_numeric_column cols flags = Inr (map (\<lambda>(col, f). is_numeric_column (ctype col) \<and> f) (zip cols fs))"
    unfolding convert_include_non_numeric_column_def using convert_loop_reads [of flags "[]" cols fs "[]"] assms(2,3) by simp
  have "decodes r (read_bool_list P cols (int (length (pack_msb flags))) True) (pack_msb flags @ []) flags"
    unfolding read_bool_list_def by (rule decodes_bind [OF decodes_read [OF assms(1)]]) (simp_all only: loop decodes_lift)
  then have "decodes r (bind_sx (read_bool_list P cols (int (length (pack_msb flags))) True)
      (\<lambda>bs. lift_sx (convert_include_non_numeric_column cols bs)))
    ((pack_msb flags @ []) @ []) (map (\<lambda>(col, f). is_numeric_column (ctype col) \<and> f) (zip cols fs))"
    by (rule decodes_bind) (simp only: conv decodes_lift)
  then show ?thesis by simp
qed

theorem signedness_roundtrip_witness:
  "decodes (\<lambda>p. p) (bind_sx (read_bool_list list_packet (map new_column [FT_LONG, FT_VARCHAR, FT_TINY]) 1 True)
      (\<lambda>bs. lift_sx (convert_include_non_numeric_column (map new_column [FT_LONG, FT_VARCHAR, FT_TINY]) bs)))
    [64] [False, False, True]"
proof -
  let ?cols = "map new_column [FT_LONG, FT_VARCHAR, FT_TINY]" and ?fs = "[False, True, True]"
  have "map snd (filter (\<lambda>(col, f). is_numeric_column (ctype col)) (zip ?cols ?fs)) = [False, True]"
      "pack_msb [False, True] = [64]" "map (\<lambda>(col, f). is_numeric_column (ctype col) \<and> f) (zip ?cols ?fs) = [False, False, True]"
    by code_simp+
  with signedness_roundtrip [OF list_packet_laws, of ?fs ?cols "[False, True]"] show ?thesis by simp
qed

section \<open>Metadata in the columns\<close>

definition flag_at :: "bool list \<Rightarrow> nat \<Rightarrow> bool" where
  "flag_at l i = (l \<noteq> [] \<and> l ! i)"

text \<open>The attributes that the character set phases leave alone.\<close>

definition same_column :: "column \<Rightarrow> column \<Rightarrow> bool" where
  "same_column c d = (name c = name d \<and> ctype c = ctype d \<and> unsigned c = unsigned d \<and> is_primary c = is_primary d
     \<and> visibility c = visibility d)"

lemma sync_charset_same: "sync_charset dbms l pos col = Inr c \<Longrightarrow> same_column c col"
  by (auto simp: sync_charset_def same_column_def)

lemma sync_character_same: "sync_character dbms om p col = Inr (c, q) \<Longrightarrow> same_column c col"
  by (auto simp: sync_character_def same_column_def split: if_splits dest!: sync_charset_same)

lemma sync_enum_set_same: "sync_enum_set dbms om p col = Inr (c, q) \<Longrightarrow> same_column c col"
  by (auto simp: sync_enum_set_def same_column_def Let_def split: if_splits dest!: sync_charset_same)

definition synced :: "optional_metadata \<Rightarrow> nat \<Rightarrow> column \<Rightarrow> column \<Rightarrow> bool" where
  "synced om idx col c =
     (idx < length (column_name_list om) \<and> name c = column_name_list om ! idx \<and> ctype c = ctype col
      \<and> (unsigned c \<longleftrightarrow> unsigned col \<or> flag_at (unsigned_column_list om) idx)
      \<and> (is_primary c \<longleftrightarrow> is_primary col \<or> Some (int idx) \<in> set (simple_primary_key_list om))
      \<and> (visibility c \<longleftrightarrow> visibility col \<or> flag_at (visibility_list om) idx))"

lemma sync_flags_keeps:
  assumes "sync_flags om idx col = Inr c"
  shows "name c = name col" "ctype c = ctype col" "unsigned c \<longleftrightarrow> unsigned col \<or> flag_at (unsigned_column_list om) idx"
    "is_primary c \<longleftrightarrow> is_primary col \<or> Some (int idx) \<in> set (simple_primary_key_list om)"
    "visibility c \<longleftrightarrow> visibility col \<or> flag_at (visibility_list om) idx"
proof -
  have flag: "(if l = [] then Inr False else index_at l idx) = Inr b \<Longrightarrow> b = flag_at l idx" for l b
    by (auto simp: flag_at_def index_at_def split: if_splits)
  let ?u = "if unsigned_column_list om = [] then Inr False else index_at (unsigned_column_list om) idx"
  let ?v = "if visibility_list om = [] then Inr False else index_at (visibility_list om) idx"
  obtain uns where u: "?u = Inr uns" using assms unfolding sync_flags_def by (cases ?u) (simp_all only: bind_res.simps sum.distinct)
  obtain vis where v: "?v = Inr vis"
    using assms unfolding sync_flags_def u bind_res.simps by (cases ?v) (simp_all only: bind_res.simps sum.distinct)
  have c: "c = (let col1 = (if uns then col\<lparr>unsigned := True\<rparr> else col);
           col2 = (if Some (int idx) \<in> set (simple_primary_key_list om) then col1\<lparr>is_primary := True\<rparr> else col1)
       in (if vis then col2\<lparr>visibility := True\<rparr> else col2))"
    using assms unfolding sync_flags_def u v bind_res.simps Let_def by (simp only: sum.inject)
  show "name c = name col" "ctype c = ctype col" "unsigned c \<longleftrightarrow> unsigned col \<or> flag_at (unsigned_column_list om) idx"
    "is_primary c \<longleftrightarrow> is_primary col \<or> Some (int idx) \<in> set (simple_primary_key_list om)"
    "visibility c \<longleftrightarrow> visibility col \<or> flag_at (visibility_list om) idx"
    using flag [OF u] flag [OF v] unfolding c Let_def by simp_all
qed

lemma sync_column_synced:
  assumes "sync_column dbms om idx p col = Inr (c, q)"
  shows "synced om idx col c"
proof -
  obtain nm c1 p1 c2 where s: "index_at (column_name_list om) idx = Inr nm"
      "sync_character dbms om p (col\<lparr>name := nm\<rparr>) = Inr (c1, p1)" "sync_enum_set dbms om p1 c1 = Inr (c2, q)"
      "sync_flags om idx c2 = Inr c"
    using assms by (auto simp: sync_column_def)
  have "idx < length (column_name_list om)" "nm = column_name_list om ! idx"
    using s(1) by (auto simp: index_at_def split: if_splits)
  with sync_character_same [OF s(2)] sync_enum_set_same [OF s(3)] sync_flags_keeps [OF s(4)] show ?thesis
    by (simp add: synced_def same_column_def)
qed

lemma sync_loop_synced:
  assumes "sync_loop dbms om idx p cols = Inr cols'"
  shows "length cols' = length cols \<and> (\<forall>i < length cols. synced om (idx + i) (cols ! i) (cols' ! i))"
  using assms
proof (induction cols arbitrary: idx p cols')
  case (Cons col cols)
  then obtain c q cs where c: "sync_column dbms om idx p col = Inr (c, q)" "sync_loop dbms om (idx + 1) q cols = Inr cs"
      "cols' = c # cs" by auto
  show ?case unfolding c(3) using Cons.IH [OF c(2)] sync_column_synced [OF c(1)] by (auto simp: nth_Cons split: nat.splits)
qed simp


definition demo_metadata :: optional_metadata where
  "demo_metadata = optional_metadata_init\<lparr>column_name_list := [''id'', ''n''], unsigned_column_list := [True, False],
     simple_primary_key_list := [Some 0]\<rparr>"


end
