(* ===== verification/Events.thy ===== *)
theory Events
  imports Table_Map_Props Gtid_Codec
begin

text \<open>
  The events of \<open>event.py\<close>: what every event checks when it is constructed (\<open>BinLogEvent\<close> with the
  optional checksum), and the constructors that read the payload of each event. Printing (\<open>dump\<close>,
  \<open>_dump\<close>, \<open>__repr__\<close>) is left out.

  The checksum needs to move the packet to an absolute position; this is the parameter \<open>RW\<close>, the method
  \<open>rewind\<close> of PyMySQL's packet. The attributes that the status variables of a query event set are optional.
\<close>

section \<open>Definitions\<close>

subsection \<open>Checksum\<close>

text \<open>\<open>zlib.crc32\<close>, bit by bit.\<close>

fun crc_bits :: "nat \<Rightarrow> 32 word \<Rightarrow> 32 word" where
  "crc_bits 0 c = c"
| "crc_bits (Suc n) c = crc_bits n (if bit c 0 then xor (drop_bit 1 c) 0xEDB88320 else drop_bit 1 c)"

definition crc32 :: "bytes \<Rightarrow> 32 word" where
  "crc32 data = not (fold (\<lambda>b c. crc_bits 8 (xor c (ucast b))) data (not 0))"

definition add_read_bytes :: "int \<Rightarrow> ('p, unit) reader" where
  "add_read_bytes n = (\<lambda>w. (Inr (), w\<lparr>read_bytes := read_bytes w + n\<rparr>))"

definition verify_event :: "(int \<Rightarrow> ('p, unit) sx) \<Rightarrow> 'p packet_ops \<Rightarrow> bool \<Rightarrow> int \<Rightarrow> ('p, bool option) reader" where
  "verify_event RW P verify_checksum event_size =
     (if \<not> verify_checksum then ret_sx None
      else bind_sx (on_packet (RW 1)) (\<lambda>_.
        bind_sx (read P (19 + event_size)) (\<lambda>data.
        bind_sx (read P 4) (\<lambda>footer.
        let byte_data = le_bytes 4 (uint (crc32 data))
        in bind_sx (add_read_bytes (- (19 + event_size + 4))) (\<lambda>_.
           bind_sx (on_packet (RW 20)) (\<lambda>_. ret_sx (Some (byte_data = footer))))))))"

record event_header =
  timestamp :: int
  event_type :: int
  server_id :: int
  full_event_size :: int
  log_pos :: int
  header_flags :: int

record event_args =
  ea_header :: event_header
  ea_size :: int
  ea_mysql_version :: "int list"
  ea_verify_checksum :: bool
  ea_dbms :: string

text \<open>The attributes that every event has; \<open>_processed\<close> and \<open>complete\<close> start as true.\<close>

record base_event =
  be_args :: event_args
  is_event_valid :: "bool option"

definition binlog_event_init :: "(int \<Rightarrow> ('p, unit) sx) \<Rightarrow> 'p packet_ops \<Rightarrow> event_args \<Rightarrow> ('p, base_event) reader" where
  "binlog_event_init RW P A =
     bind_sx (verify_event RW P (ea_verify_checksum A) (ea_size A)) (\<lambda>v. ret_sx \<lparr>be_args = A, is_event_valid = v\<rparr>)"

subsection \<open>Transactions\<close>

text \<open>Comparison of version tuples.\<close>

fun tuple_ge :: "int list \<Rightarrow> int list \<Rightarrow> bool" where
  "tuple_ge xs [] = True"
| "tuple_ge [] (y # ys) = False"
| "tuple_ge (x # xs) (y # ys) = (x > y \<or> (x = y \<and> tuple_ge xs ys))"

record gtid_event =
  ge_commit_flag :: bool
  ge_sid :: bytes
  ge_gno :: int
  ge_lt_type :: int
  ge_last_committed :: "int option"
  ge_sequence_number :: "int option"

definition gtid_event_init :: "'p packet_ops \<Rightarrow> event_args \<Rightarrow> ('p, gtid_event) reader" where
  "gtid_event_init P A =
     bind_sx (unpacked P 1 (unpack_uint_be 1)) (\<lambda>flag.
     bind_sx (read P 16) (\<lambda>sd.
     bind_sx (unpacked P 8 (unpack_uint 8)) (\<lambda>gno.
     bind_sx (unpacked P 1 (\<lambda>b. bind_res (index_at b 0) (\<lambda>x. Inr (uint x)))) (\<lambda>lt_type.
     if tuple_ge (ea_mysql_version A) [5, 7]
     then bind_sx (unpacked P 8 (unpack_uint 8)) (\<lambda>lc. bind_sx (unpacked P 8 (unpack_uint 8)) (\<lambda>sn.
       ret_sx \<lparr>ge_commit_flag = (flag = 1), ge_sid = sd, ge_gno = gno, ge_lt_type = lt_type,
         ge_last_committed = Some lc, ge_sequence_number = Some sn\<rparr>))
     else ret_sx \<lparr>ge_commit_flag = (flag = 1), ge_sid = sd, ge_gno = gno, ge_lt_type = lt_type,
         ge_last_committed = None, ge_sequence_number = None\<rparr>))))"

definition dashed :: "bytes \<Rightarrow> string" where
  "dashed sd =
     (let nibbles = hexlify sd
      in take 8 nibbles @ ''-'' @ take 4 (drop 8 nibbles) @ ''-'' @ take 4 (drop 12 nibbles) @ ''-''
         @ take 4 (drop 16 nibbles) @ ''-'' @ drop 20 nibbles)"

definition gtid_event_gtid :: "gtid_event \<Rightarrow> string" where
  "gtid_event_gtid ev = dashed (ge_sid ev) @ '':'' @ str_int (ge_gno ev)"

text \<open>The text of the intervals is the representation of a Python list of strings.\<close>

definition repr_strings :: "string list \<Rightarrow> string" where
  "repr_strings xs = ''['' @ join '', '' (map (\<lambda>x. [CHR 0x27] @ x @ [CHR 0x27]) xs) @ '']''"

definition read_previous_gtid :: "'p packet_ops \<Rightarrow> ('p, string) reader" where
  "read_previous_gtid P =
     bind_sx (read P 16) (\<lambda>sd. bind_sx (read_uint64 P) (\<lambda>n.
       bind_sx (map_sx (\<lambda>_. bind_sx (read_int64 P) (\<lambda>a. bind_sx (read_uint64 P) (\<lambda>b.
           ret_sx (str_int a @ ''-'' @ str_int b)))) [0..<nat n]) (\<lambda>intervals.
         ret_sx (dashed sd @ ''-:'' @ repr_strings intervals))))"

definition previous_gtids_event_init :: "'p packet_ops \<Rightarrow> ('p, int \<times> string) reader" where
  "previous_gtids_event_init P =
     bind_sx (read_int64 P) (\<lambda>n_sid. bind_sx (map_sx (\<lambda>_. read_previous_gtid P) [0..<nat n_sid]) (\<lambda>gtids.
       ret_sx (n_sid, join '','' gtids)))"

definition mariadb_gtid_text :: "int \<Rightarrow> int \<Rightarrow> int \<Rightarrow> string" where
  "mariadb_gtid_text domain server seq_no = str_int domain @ ''-'' @ str_int server @ ''-'' @ str_int seq_no"

record mariadb_gtid_event =
  mg_server_id :: int
  mg_seq_no :: int
  mg_domain_id :: int
  mg_flags :: int
  mg_gtid :: string

definition mariadb_gtid_event_init :: "'p packet_ops \<Rightarrow> event_args \<Rightarrow> ('p, mariadb_gtid_event) reader" where
  "mariadb_gtid_event_init P A =
     bind_sx (read_uint64 P) (\<lambda>seq_no. bind_sx (read_uint32 P) (\<lambda>domain. bind_sx (read_uint8 P) (\<lambda>flags.
       ret_sx \<lparr>mg_server_id = server_id (ea_header A), mg_seq_no = seq_no, mg_domain_id = domain, mg_flags = flags,
         mg_gtid = mariadb_gtid_text domain (server_id (ea_header A)) seq_no\<rparr>)))"

definition mariadb_binlog_checkpoint_event_init :: "'p packet_ops \<Rightarrow> ('p, string) reader" where
  "mariadb_binlog_checkpoint_event_init P =
     bind_sx (read_uint32 P) (\<lambda>n. bind_sx (read P n) (\<lambda>b. lift_sx (decode_utf8 b)))"

definition mariadb_annotate_rows_event_init :: "'p packet_ops \<Rightarrow> event_args \<Rightarrow> ('p, bytes) reader" where
  "mariadb_annotate_rows_event_init P A = read P (ea_size A)"

text \<open>Every element of the list is constructed as an event of its own.\<close>

definition mariadb_gtid_object_init ::
    "(int \<Rightarrow> ('p, unit) sx) \<Rightarrow> 'p packet_ops \<Rightarrow> event_args \<Rightarrow> ('p, string) reader" where
  "mariadb_gtid_object_init RW P A =
     bind_sx (binlog_event_init RW P A) (\<lambda>_.
     bind_sx (read_uint32 P) (\<lambda>domain. bind_sx (read_uint32 P) (\<lambda>server. bind_sx (read_uint64 P) (\<lambda>seq_no.
       ret_sx (mariadb_gtid_text domain server seq_no)))))"

definition mariadb_gtid_list_event_init ::
    "(int \<Rightarrow> ('p, unit) sx) \<Rightarrow> 'p packet_ops \<Rightarrow> event_args \<Rightarrow> ('p, string list) reader" where
  "mariadb_gtid_list_event_init RW P A =
     bind_sx (read_uint32 P) (\<lambda>n. map_sx (\<lambda>_. mariadb_gtid_object_init RW P A) [0..<nat n])"

record xa_prepare_event =
  xa_one_phase :: bool
  xa_format_id :: int
  xa_gtrid :: bytes
  xa_bqual :: bytes

definition xa_prepare_event_init :: "'p packet_ops \<Rightarrow> ('p, xa_prepare_event) reader" where
  "xa_prepare_event_init P =
     bind_sx (read P 1) (\<lambda>one.
     bind_sx (unpacked P 4 (unpack_uint 4)) (\<lambda>fmt.
     bind_sx (unpacked P 4 (unpack_uint 4)) (\<lambda>gtrid_length.
     bind_sx (unpacked P 4 (unpack_uint 4)) (\<lambda>bqual_length.
     bind_sx (read P gtrid_length) (\<lambda>gtrid.
     bind_sx (read P bqual_length) (\<lambda>bqual.
       ret_sx \<lparr>xa_one_phase = (one \<noteq> [0]), xa_format_id = fmt, xa_gtrid = gtrid, xa_bqual = bqual\<rparr>))))))"

definition xa_xid :: "xa_prepare_event \<Rightarrow> string res" where
  "xa_xid ev = bind_res (decode_utf8 (xa_gtrid ev)) (\<lambda>a. bind_res (decode_utf8 (xa_bqual ev)) (\<lambda>b. Inr (a @ b)))"

definition xid_event_init :: "'p packet_ops \<Rightarrow> ('p, int) reader" where
  "xid_event_init P = unpacked P 8 (unpack_uint 8)"

subsection \<open>Log files\<close>

record rotate_event =
  ro_position :: int
  ro_next_binlog :: string

definition rotate_event_init :: "'p packet_ops \<Rightarrow> event_args \<Rightarrow> ('p, rotate_event) reader" where
  "rotate_event_init P A =
     bind_sx (unpacked P 8 (unpack_uint 8)) (\<lambda>pos. bind_sx (read P (ea_size A - 8)) (\<lambda>b.
       bind_sx (lift_sx (decode_utf8 b)) (\<lambda>s. ret_sx \<lparr>ro_position = pos, ro_next_binlog = s\<rparr>)))"

record format_description_event =
  fd_binlog_version :: int
  fd_mysql_version_str :: string
  fd_mysql_version :: "int list"
  fd_created :: int
  fd_common_header_len :: int
  fd_post_header_len :: bytes
  fd_server_version_split :: bytes
  fd_number_of_event_types :: int

definition rstrip_zero :: "bytes \<Rightarrow> bytes" where
  "rstrip_zero b = rev (dropWhile (\<lambda>x. x = 0) (rev b))"

definition mysql_version_of :: "string \<Rightarrow> int list res" where
  "mysql_version_of s = map_res (py_int 10) (split_on CHR ''.'' (hd (split_on CHR ''-'' s)))"

definition format_description_event_init :: "'p packet_ops \<Rightarrow> event_args \<Rightarrow> ('p, format_description_event) reader" where
  "format_description_event_init P A =
     bind_sx (unpacked P 2 (unpack_uint 2)) (\<lambda>bver.
     bind_sx (read P 50) (\<lambda>vb.
     bind_sx (lift_sx (decode_utf8 (rstrip_zero vb))) (\<lambda>vs.
     bind_sx (lift_sx (mysql_version_of vs)) (\<lambda>v.
     bind_sx (unpacked P 4 (unpack_uint 4)) (\<lambda>created.
     bind_sx (unpacked P 1 (unpack_uint 1)) (\<lambda>hlen.
     let n = ea_size A - (4 + 2 + 50 + 1) - hlen - 1 - 4
     in bind_sx (read P n) (\<lambda>post.
        if n < 0 then raise_sx StructError
        else bind_sx (read P 3) (\<lambda>split.
          bind_sx (unpacked P 1 (unpack_uint 1)) (\<lambda>types.
            ret_sx \<lparr>fd_binlog_version = bver, fd_mysql_version_str = vs, fd_mysql_version = v, fd_created = created,
              fd_common_header_len = hlen, fd_post_header_len = post, fd_server_version_split = split,
              fd_number_of_event_types = types\<rparr>)))))))))"

definition heartbeat_log_event_init :: "'p packet_ops \<Rightarrow> event_args \<Rightarrow> ('p, string) reader" where
  "heartbeat_log_event_init P A = bind_sx (read P (ea_size A)) (\<lambda>b. lift_sx (decode_utf8 b))"

subsection \<open>Queries\<close>

record status_vars =
  flags2 :: "int option"
  sql_mode :: "int option"
  auto_increment :: "(int \<times> int) option"
  charset_codes :: "(int \<times> int \<times> int) option"
  time_zone :: "bytes option"
  catalog_nz_code :: "bytes option"
  lc_time_names_number :: "int option"
  charset_database_number :: "int option"
  table_map_for_update :: "int option"
  user :: "bytes option"
  host :: "bytes option"
  mts_accessed_db_names :: "bytes list option"
  microseconds :: "int option"
  explicit_defaults_ts :: "int option"
  ddl_xid :: "int option"
  default_collation_for_utf8mb4_number :: "int option"
  sql_require_primary_key :: "int option"
  default_table_encryption :: "int option"
  hrnow :: "int option"
  sv_xid :: "int option"

definition no_status_vars :: status_vars where
  "no_status_vars =
     \<lparr>flags2 = None, sql_mode = None, auto_increment = None, charset_codes = None, time_zone = None,
      catalog_nz_code = None, lc_time_names_number = None, charset_database_number = None,
      table_map_for_update = None, user = None, host = None, mts_accessed_db_names = None, microseconds = None,
      explicit_defaults_ts = None, ddl_xid = None, default_collation_for_utf8mb4_number = None,
      sql_require_primary_key = None, default_table_encryption = None, hrnow = None, sv_xid = None\<rparr>"

text \<open>A byte with a length and that many bytes; an empty value leaves the attribute as it was.\<close>

definition read_sized_attr :: "'p packet_ops \<Rightarrow> bytes option \<Rightarrow> ('p, bytes option) reader" where
  "read_sized_attr P old =
     bind_sx (read_uint8 P) (\<lambda>n. if n \<noteq> 0 then bind_sx (read P n) (\<lambda>b. ret_sx (Some b)) else ret_sx old)"

definition read_status_vars_value_for_key :: "'p packet_ops \<Rightarrow> status_vars \<Rightarrow> int \<Rightarrow> ('p, status_vars) reader" where
  "read_status_vars_value_for_key P s key =
     (if key = Q_FLAGS2_CODE then bind_sx (read_uint32 P) (\<lambda>v. ret_sx (s\<lparr>flags2 := Some v\<rparr>))
      else if key = Q_SQL_MODE_CODE then bind_sx (read_uint64 P) (\<lambda>v. ret_sx (s\<lparr>sql_mode := Some v\<rparr>))
      else if key = Q_CATALOG_CODE then ret_sx s
      else if key = Q_AUTO_INCREMENT then
        bind_sx (read_uint16 P) (\<lambda>a. bind_sx (read_uint16 P) (\<lambda>b. ret_sx (s\<lparr>auto_increment := Some (a, b)\<rparr>)))
      else if key = Q_CHARSET_CODE then
        bind_sx (read_uint16 P) (\<lambda>a. bind_sx (read_uint16 P) (\<lambda>b. bind_sx (read_uint16 P) (\<lambda>c.
          ret_sx (s\<lparr>charset_codes := Some (a, b, c)\<rparr>))))
      else if key = Q_TIME_ZONE_CODE then bind_sx (read_sized_attr P (time_zone s)) (\<lambda>v. ret_sx (s\<lparr>time_zone := v\<rparr>))
      else if key = Q_CATALOG_NZ_CODE then
        bind_sx (read_sized_attr P (catalog_nz_code s)) (\<lambda>v. ret_sx (s\<lparr>catalog_nz_code := v\<rparr>))
      else if key = Q_LC_TIME_NAMES_CODE then bind_sx (read_uint16 P) (\<lambda>v. ret_sx (s\<lparr>lc_time_names_number := Some v\<rparr>))
      else if key = Q_CHARSET_DATABASE_CODE then
        bind_sx (read_uint16 P) (\<lambda>v. ret_sx (s\<lparr>charset_database_number := Some v\<rparr>))
      else if key = Q_TABLE_MAP_FOR_UPDATE_CODE then
        bind_sx (read_uint64 P) (\<lambda>v. ret_sx (s\<lparr>table_map_for_update := Some v\<rparr>))
      else if key = Q_MASTER_DATA_WRITTEN_CODE then ret_sx s
      else if key = Q_INVOKER then
        bind_sx (read_sized_attr P (user s)) (\<lambda>u. bind_sx (read_sized_attr P (host s)) (\<lambda>h.
          ret_sx (s\<lparr>user := u, host := h\<rparr>)))
      else if key = Q_UPDATED_DB_NAMES then
        bind_sx (read_uint8 P) (\<lambda>n.
          if n = 254 then ret_sx s
          else bind_sx (map_sx (\<lambda>_. read_string P) [0..<nat n]) (\<lambda>dbs. ret_sx (s\<lparr>mts_accessed_db_names := Some dbs\<rparr>)))
      else if key = Q_MICROSECONDS then bind_sx (read_uint24 P) (\<lambda>v. ret_sx (s\<lparr>microseconds := Some v\<rparr>))
      else if key = Q_COMMIT_TS then ret_sx s
      else if key = Q_COMMIT_TS2 then ret_sx s
      else if key = Q_EXPLICIT_DEFAULTS_FOR_TIMESTAMP then
        bind_sx (read_uint8 P) (\<lambda>v. ret_sx (s\<lparr>explicit_defaults_ts := Some v\<rparr>))
      else if key = Q_DDL_LOGGED_WITH_XID then bind_sx (read_uint64 P) (\<lambda>v. ret_sx (s\<lparr>ddl_xid := Some v\<rparr>))
      else if key = Q_DEFAULT_COLLATION_FOR_UTF8MB4 then
        bind_sx (read_uint16 P) (\<lambda>v. ret_sx (s\<lparr>default_collation_for_utf8mb4_number := Some v\<rparr>))
      else if key = Q_SQL_REQUIRE_PRIMARY_KEY then
        bind_sx (read_uint8 P) (\<lambda>v. ret_sx (s\<lparr>sql_require_primary_key := Some v\<rparr>))
      else if key = Q_DEFAULT_TABLE_ENCRYPTION then
        bind_sx (read_uint8 P) (\<lambda>v. ret_sx (s\<lparr>default_table_encryption := Some v\<rparr>))
      else if key = Q_HRNOW then bind_sx (read_uint24 P) (\<lambda>v. ret_sx (s\<lparr>hrnow := Some v\<rparr>))
      else if key = Q_XID then bind_sx (read_uint64 P) (\<lambda>v. ret_sx (s\<lparr>sv_xid := Some v\<rparr>))
      else raise_sx StatusVariableMismatch)"

definition read_status_var :: "'p packet_ops \<Rightarrow> status_vars \<Rightarrow> ('p, status_vars) reader" where
  "read_status_var P s = bind_sx (read_uint8 P) (read_status_vars_value_for_key P s)"

text \<open>\<open>decode("utf-8", errors="backslashreplace")\<close>: the bytes that \<open>ignore\<close> drops are written as escapes.\<close>

definition escape_byte :: "byte \<Rightarrow> nat list" where
  "escape_byte b = map of_char ([CHR 0x5C, CHR ''x''] @ hexlify [b])"

fun utf8_escape :: "bytes \<Rightarrow> nat list" where
  "utf8_escape [] = []"
| "utf8_escape (a # bs) =
     (if unat a < 128 then unat a # utf8_escape bs
      else if 194 \<le> unat a \<and> unat a < 224 then
        (case bs of
           b # r \<Rightarrow> if is_cont b then ((unat a - 192) * 64 + cont_bits b) # utf8_escape r
             else escape_byte a @ utf8_escape bs
         | [] \<Rightarrow> escape_byte a)
      else if 224 \<le> unat a \<and> unat a < 240 then
        (case bs of
           b # r \<Rightarrow>
             if second_ok a b then
               (case r of
                  c # t \<Rightarrow>
                    if is_cont c then ((unat a - 224) * 4096 + cont_bits b * 64 + cont_bits c) # utf8_escape t
                    else escape_byte a @ escape_byte b @ utf8_escape r
                | [] \<Rightarrow> escape_byte a @ escape_byte b)
             else escape_byte a @ utf8_escape bs
         | [] \<Rightarrow> escape_byte a)
      else if 240 \<le> unat a \<and> unat a < 245 then
        (case bs of
           b # r \<Rightarrow>
             if second_ok a b then
               (case r of
                  c # t \<Rightarrow>
                    if is_cont c then
                      (case t of
                         d # u \<Rightarrow>
                           if is_cont d then
                             ((unat a - 240) * 262144 + cont_bits b * 4096 + cont_bits c * 64 + cont_bits d) # utf8_escape u
                           else escape_byte a @ escape_byte b @ escape_byte c @ utf8_escape t
                       | [] \<Rightarrow> escape_byte a @ escape_byte b @ escape_byte c)
                    else escape_byte a @ escape_byte b @ utf8_escape r
                | [] \<Rightarrow> escape_byte a @ escape_byte b)
             else escape_byte a @ utf8_escape bs
         | [] \<Rightarrow> escape_byte a)
      else escape_byte a @ utf8_escape bs)"

definition decode_backslashreplace :: "bytes \<Rightarrow> string res" where
  "decode_backslashreplace b =
     (let ps = utf8_escape b in if list_all (\<lambda>p. p < 256) ps then Inr (map char_of ps) else Inl OutOfModel)"

record query_event =
  qe_slave_proxy_id :: int
  qe_execution_time :: int
  qe_error_code :: int
  qe_status_vars :: status_vars
  qe_schema :: bytes
  qe_query :: string

definition query_event_init :: "'p packet_ops \<Rightarrow> event_args \<Rightarrow> ('p, query_event) reader" where
  "query_event_init P A =
     bind_sx (read_uint32 P) (\<lambda>proxy.
     bind_sx (read_uint32 P) (\<lambda>etime.
     bind_sx (unpacked P 1 (unpack_uint_be 1)) (\<lambda>schema_length.
     bind_sx (read_uint16 P) (\<lambda>error_code.
     bind_sx (read_uint16 P) (\<lambda>status_vars_length.
     bind_sx (until_end status_vars_length (read_status_var P) no_status_vars) (\<lambda>s.
     bind_sx (read P schema_length) (\<lambda>schema.
     bind_sx (advance P 1) (\<lambda>_.
     bind_sx (read P (ea_size A - 13 - status_vars_length - schema_length - 1)) (\<lambda>b.
     bind_sx (lift_sx (decode_backslashreplace b)) (\<lambda>q.
       ret_sx \<lparr>qe_slave_proxy_id = proxy, qe_execution_time = etime, qe_error_code = error_code,
         qe_status_vars = s, qe_schema = schema, qe_query = q\<rparr>))))))))))"

definition rows_query_log_event_init :: "'p packet_ops \<Rightarrow> ('p, string) reader" where
  "rows_query_log_event_init P =
     bind_sx (advance P 1) (\<lambda>_. bind_sx (read_available P) (\<lambda>b. lift_sx (decode_utf8 b)))"

definition begin_load_query_event_init :: "'p packet_ops \<Rightarrow> event_args \<Rightarrow> ('p, int \<times> bytes) reader" where
  "begin_load_query_event_init P A =
     bind_sx (read_uint32 P) (\<lambda>file_id. bind_sx (read P (ea_size A - 4)) (\<lambda>data. ret_sx (file_id, data)))"

record execute_load_query_event =
  el_slave_proxy_id :: int
  el_execution_time :: int
  el_schema_length :: int
  el_error_code :: int
  el_status_vars_length :: int
  el_file_id :: int
  el_start_pos :: int
  el_end_pos :: int
  el_dup_handling_flags :: int

definition execute_load_query_event_init :: "'p packet_ops \<Rightarrow> ('p, execute_load_query_event) reader" where
  "execute_load_query_event_init P =
     bind_sx (read_uint32 P) (\<lambda>a. bind_sx (read_uint32 P) (\<lambda>b. bind_sx (read_uint8 P) (\<lambda>c.
     bind_sx (read_uint16 P) (\<lambda>d. bind_sx (read_uint16 P) (\<lambda>e. bind_sx (read_uint32 P) (\<lambda>f.
     bind_sx (read_uint32 P) (\<lambda>g. bind_sx (read_uint32 P) (\<lambda>h. bind_sx (read_uint8 P) (\<lambda>i.
       ret_sx \<lparr>el_slave_proxy_id = a, el_execution_time = b, el_schema_length = c, el_error_code = d,
         el_status_vars_length = e, el_file_id = f, el_start_pos = g, el_end_pos = h, el_dup_handling_flags = i\<rparr>)))))))))"

subsection \<open>Variables\<close>

definition intvar_event_init :: "'p packet_ops \<Rightarrow> ('p, int \<times> int) reader" where
  "intvar_event_init P = bind_sx (read_uint8 P) (\<lambda>t. bind_sx (read_uint32 P) (\<lambda>v. ret_sx (t, v)))"

definition rand_event_init :: "'p packet_ops \<Rightarrow> ('p, int \<times> int) reader" where
  "rand_event_init P = bind_sx (read_uint64 P) (\<lambda>a. bind_sx (read_uint64 P) (\<lambda>b. ret_sx (a, b)))"

text \<open>\<open>_read_default\<close> takes no argument, but it is called with the buffer.\<close>

definition user_var_value :: "int \<Rightarrow> int \<Rightarrow> bytes \<Rightarrow> pyval res" where
  "user_var_value t flags buffer =
     (if buffer = [] then Inr PNone
      else if t = 0 then bind_res (decode_utf8 buffer) (\<lambda>s. Inr (PStr s))
      else if t = 1 then (if length buffer = 8 then Inr (PFloat buffer) else Inl StructError)
      else if t = 2 then bind_res (if flags = 1 then unpack_uint 8 buffer else unpack_int 8 buffer) (\<lambda>i. Inr (PInt i))
      else if t = 4 then decode_decimal buffer
      else Inl TypeError)"

record user_var_event =
  uv_name :: string
  uv_is_null :: int
  uv_type :: "int option"
  uv_charset :: "int option"
  uv_value :: pyval
  uv_flags :: "int option"

definition user_var_event_init :: "'p packet_ops \<Rightarrow> ('p, user_var_event) reader" where
  "user_var_event_init P =
     bind_sx (read_uint32 P) (\<lambda>name_len.
     bind_sx (read P name_len) (\<lambda>nb.
     bind_sx (lift_sx (decode_utf8 nb)) (\<lambda>nm.
     bind_sx (read_uint8 P) (\<lambda>null.
       if null = 0 then
         bind_sx (read_uint8 P) (\<lambda>t. bind_sx (read_uint32 P) (\<lambda>cs. bind_sx (read_uint32 P) (\<lambda>len.
         bind_sx (read P len) (\<lambda>buffer. bind_sx (read_uint8 P) (\<lambda>flags.
         bind_sx (lift_sx (user_var_value t flags buffer)) (\<lambda>v.
           ret_sx \<lparr>uv_name = nm, uv_is_null = null, uv_type = Some t, uv_charset = Some cs, uv_value = v,
             uv_flags = Some flags\<rparr>))))))
       else ret_sx \<lparr>uv_name = nm, uv_is_null = null, uv_type = None, uv_charset = None, uv_value = PNone,
             uv_flags = None\<rparr>))))"

definition mariadb_start_encryption_event_init :: "'p packet_ops \<Rightarrow> ('p, int \<times> int \<times> bytes) reader" where
  "mariadb_start_encryption_event_init P =
     bind_sx (read_uint8 P) (\<lambda>schema. bind_sx (read_uint32 P) (\<lambda>key_version. bind_sx (read P 12) (\<lambda>nonce.
       ret_sx (schema, key_version, nonce))))"

definition not_implemented_event_init :: "'p packet_ops \<Rightarrow> event_args \<Rightarrow> ('p, unit) reader" where
  "not_implemented_event_init P A = advance P (ea_size A)"

end
