(* ===== verification/Events_Props.thy ===== *)
theory Events_Props
  imports Events Sync_State
begin

text \<open>
  The events as a server writes them. The identifier of a transaction in a GTID event becomes the text that the
  synchroniser splits again and that \<open>Gtid\<close> reads as this one transaction. A query event is read back with its
  status variables. The checksum is compared with the one of the bytes, and the position of the packet is
  restored afterwards.
\<close>

section \<open>GTID events\<close>

definition put_gtid_event :: "byte \<Rightarrow> bytes \<Rightarrow> int \<Rightarrow> byte \<Rightarrow> int \<Rightarrow> int \<Rightarrow> bytes" where
  "put_gtid_event flag sd gno lt lc sn = [flag] @ sd @ le_bytes 8 gno @ [lt] @ le_bytes 8 lc @ le_bytes 8 sn"

lemma decodes_le:
  assumes "packet_laws P r" "0 \<le> v" "v < 256 ^ n"
  shows "decodes r (unpacked P n (unpack_uint n)) (le_bytes n v) v"
  using assms by (intro decodes_unpacked) (simp_all add: unpack_uint_le_bytes)

lemma decodes_byte:
  assumes "packet_laws P r"
  shows "decodes r (unpacked P 1 (unpack_uint_be 1)) [b] (uint b)"
    and "decodes r (unpacked P 1 (\<lambda>b. bind_res (index_at b 0) (\<lambda>x. Inr (uint x)))) [b] (uint b)"
    and "decodes r (unpacked P 1 (unpack_uint 1)) [b] (uint b)"
  using assms by (auto intro!: decodes_unpacked simp: unpack_uint_be_def unpack_uint_def be_val_def index_at_def)

lemma gtid_event_decodes:
  assumes "packet_laws P r" "length sd = 16" "0 \<le> gno" "gno < 2 ^ 64" "0 \<le> lc" "lc < 2 ^ 64" "0 \<le> sn" "sn < 2 ^ 64"
    and "tuple_ge (ea_mysql_version A) [5, 7]"
  shows "decodes r (gtid_event_init P A) (put_gtid_event flag sd gno lt lc sn)
    \<lparr>ge_commit_flag = (flag = 1), ge_sid = sd, ge_gno = gno, ge_lt_type = uint lt,
     ge_last_committed = Some lc, ge_sequence_number = Some sn\<rparr>"
proof -
  have f: "flag = 1 \<longleftrightarrow> uint flag = 1" by (metis uint_1 word_uint_eq_iff)
  have num: "decodes r (unpacked P 8 (unpack_uint 8)) (le_bytes 8 v) v" if "0 \<le> v" "v < 2 ^ 64" for v
    using decodes_le [OF assms(1), of v 8] that by simp
  have sid: "decodes r (read P 16) sd sd" using decodes_read [OF assms(1), of sd 16] assms(2) by simp
  show ?thesis
    unfolding gtid_event_init_def put_gtid_event_def f
    by (rule decodes_bind [OF decodes_byte(1) [OF assms(1)] decodes_bind [OF sid decodes_bind [OF num [OF assms(3,4)]
        decodes_bind [OF decodes_byte(2) [OF assms(1)]]]]])
      (simp only: assms(9) if_True, rule decodes_bind [OF num [OF assms(5,6)] decodes_map [OF num [OF assms(7,8)]]])
qed

lemma hexlify_digits: "c \<in> set (hexlify bs) \<Longrightarrow> is_hexdigit c"
proof (induction bs)
  case (Cons b bs)
  have "is_hexdigit (hex_char d)" if "d < 16" for d
    using that by (simp add: hex_char_def is_hexdigit_def Let_def)
  moreover have "unat b div 16 < 16" using unsigned_less [of b, where ?'a = nat] by (simp add: less_mult_imp_div_less)
  ultimately show ?case using Cons by auto
qed simp

lemma length_hexlify: "length (hexlify bs) = 2 * length bs"
  by (induction bs) simp_all

lemma valid_sid_dashed:
  assumes "length sd = 16"
  shows "valid_sid (dashed sd)"
proof -
  let ?n = "hexlify sd"
  let ?parts = "[take 8 ?n, take 4 (drop 8 ?n), take 4 (drop 12 ?n), take 4 (drop 16 ?n), drop 20 ?n]"
  have d: "is_hexdigit c" if "x \<in> set ?parts" "c \<in> set x" for x c
    using that by (auto dest!: in_set_takeD in_set_dropD intro: hexlify_digits)
  have "dashed sd = join ''-'' ?parts" by (simp add: dashed_def Let_def)
  moreover have "split_on CHR ''-'' (join ''-'' ?parts) = ?parts"
    by (rule split_on_join) (use d hexdigit_ascii(2) in blast)+
  ultimately show ?thesis
    using assms d by (auto simp: valid_sid_def length_hexlify list_all_iff simp del: join.simps)
qed

lemma dashed_no_colon: "CHR '':'' \<notin> set (dashed sd)"
proof -
  have "\<not> is_hexdigit CHR '':''" by (simp add: is_hexdigit_def Let_def)
  then show ?thesis
    by (auto simp: dashed_def Let_def dest!: in_set_takeD in_set_dropD dest: hexlify_digits)
qed

lemma gtid_event_text:
  assumes "length (ge_sid ev) = 16" "0 \<le> ge_gno ev"
  shows "gtid_init (gtid_event_gtid ev) None [] = Inr \<lparr>sid = dashed (ge_sid ev), intervals = [(ge_gno ev, ge_gno ev + 1)]\<rparr>"
    and "handle_event_gtid (gtid_event_gtid ev) lc
      = Inr (OperationGtid \<lparr>server_uuid = dashed (ge_sid ev), xid = str_int (ge_gno ev), last_committed = lc\<rparr>)"
proof -
  have t: "gtid_event_gtid ev = dashed (ge_sid ev) @ '':'' @ join '':'' [str_nat (nat (ge_gno ev))]"
    using assms(2) by (simp add: gtid_event_gtid_def str_int_nonneg)
  show "gtid_init (gtid_event_gtid ev) None [] = Inr \<lparr>sid = dashed (ge_sid ev), intervals = [(ge_gno ev, ge_gno ev + 1)]\<rparr>"
    unfolding t
    by (rule gtid_init_text [OF valid_sid_dashed [OF assms(1)]])
      (use assms(2) parse_interval_single [of "nat (ge_gno ev)"] str_nat_digits in \<open>auto simp: wf_ivs_Cons interval_text_def\<close>)
  show "handle_event_gtid (gtid_event_gtid ev) lc
      = Inr (OperationGtid \<lparr>server_uuid = dashed (ge_sid ev), xid = str_int (ge_gno ev), last_committed = lc\<rparr>)"
    using assms(2) dashed_no_colon [of "ge_sid ev"]
    by (simp add: handle_event_gtid_def gtid_event_gtid_def str_int_nonneg split_on_append split_on_no_sep str_nat_notin)
qed

text \<open>C34: the constructor of a GTID event (of a server of version 5.7 or later) reads the fields that the
  server wrote; its property \<open>gtid\<close> is a text that \<open>Gtid\<close> reads as this one transaction of this server, and
  that the synchroniser splits into the server and the transaction number.\<close>

theorem gtid_event_identifies_transaction:
  assumes "packet_laws P r" "length sd = 16" "0 \<le> gno" "gno < 2 ^ 64" "0 \<le> lc" "lc < 2 ^ 64" "0 \<le> sn" "sn < 2 ^ 64"
    and "tuple_ge (ea_mysql_version A) [5, 7]"
  shows "\<exists>ev. decodes r (gtid_event_init P A) (put_gtid_event flag sd gno lt lc sn) ev
    \<and> ge_last_committed ev = Some lc
    \<and> gtid_init (gtid_event_gtid ev) None [] = Inr \<lparr>sid = dashed sd, intervals = [(gno, gno + 1)]\<rparr>
    \<and> handle_event_gtid (gtid_event_gtid ev) lc
        = Inr (OperationGtid \<lparr>server_uuid = dashed sd, xid = str_int gno, last_committed = lc\<rparr>)"
  using gtid_event_decodes [OF assms] gtid_event_text
  by (intro exI conjI) (assumption | simp add: assms(2,3))+

section \<open>A packet that can go back\<close>

text \<open>A packet over a buffer with a position, as PyMySQL's packet has them.\<close>

definition seek_packet :: "(nat \<times> bytes) packet_ops" where
  "seek_packet = \<lparr>
     p_read = (\<lambda>n (i, b). if n \<le> int (length b - i) then (Inr (take (nat n) (drop i b)), (i + nat n, b))
                else (Inl AssertionError, (i, b))),
     p_advance = (\<lambda>n (i, b). (Inr (), (i + nat n, b))),
     p_left = (\<lambda>(i, b). int (length b - i))\<rparr>"

definition seek_rewind :: "int \<Rightarrow> (nat \<times> bytes, unit) sx" where
  "seek_rewind n = (\<lambda>(i, b). (Inr (), (nat n, b)))"

lemma seek_packet_laws: "packet_laws seek_packet (\<lambda>(i, b). drop i b)"
  by (auto simp: packet_laws_def seek_packet_def add.commute)

text \<open>\<open>whole p\<close> is the buffer of the packet: reading keeps it, and rewinding moves to a position in it.\<close>

definition rewind_laws :: "'p packet_ops \<Rightarrow> (int \<Rightarrow> ('p, unit) sx) \<Rightarrow> ('p \<Rightarrow> bytes) \<Rightarrow> ('p \<Rightarrow> bytes) \<Rightarrow> bool" where
  "rewind_laws P RW r whole =
     ((\<forall>n p v p'. p_read P n p = (Inr v, p') \<longrightarrow> whole p' = whole p)
      \<and> (\<forall>n p. 0 \<le> n \<and> n \<le> int (length (whole p)) \<longrightarrow>
           (\<exists>p'. RW n p = (Inr (), p') \<and> whole p' = whole p \<and> r p' = drop (nat n) (whole p))))"

lemma seek_rewind_laws: "rewind_laws seek_packet seek_rewind (\<lambda>(i, b). drop i b) snd"
  by (auto simp: rewind_laws_def seek_packet_def seek_rewind_def split: if_splits)

lemma packet_read_take:
  assumes "packet_laws P r" "rewind_laws P RW r whole" "0 \<le> n" "n \<le> int (length (r p))"
  obtains p' where "p_read P n p = (Inr (take (nat n) (r p)), p')" "r p' = drop (nat n) (r p)" "whole p' = whole p"
  using assms unfolding packet_laws_def rewind_laws_def by metis

text \<open>C36: with the checksum option an event is marked valid exactly when the four bytes at its end are the
  CRC-32 of its header and body, and the check leaves the packet at the start of the body and the counter of
  read bytes as they were.\<close>

theorem checksum_verified:
  assumes "packet_laws P r" "rewind_laws P RW r whole" "data_buffer w = []"
    and "whole (packet w) = ok # hdr @ body @ footer" "length hdr = 19" "length footer = 4"
  shows "\<exists>w'. verify_event RW P True (int (length body)) w
      = (Inr (Some (le_bytes 4 (uint (crc32 (hdr @ body))) = footer)), w')
    \<and> rest r w' = body @ footer \<and> read_bytes w' = read_bytes w"
proof -
  let ?n = "19 + int (length body)"
  obtain p1 where p1: "RW 1 (packet w) = (Inr (), p1)" "whole p1 = whole (packet w)" "r p1 = hdr @ body @ footer"
    using assms(2) [unfolded rewind_laws_def, THEN conjunct2, rule_format, of 1 "packet w"] assms(4) by auto
  obtain p2 where p2: "p_read P ?n p1 = (Inr (hdr @ body), p2)" "r p2 = footer" "whole p2 = whole (packet w)"
    by (rule packet_read_take [OF assms(1,2), of ?n p1]) (use p1 assms(5) in \<open>auto simp: nat_add_distrib\<close>)
  obtain p3 where p3: "p_read P 4 p2 = (Inr footer, p3)" "whole p3 = whole (packet w)"
    by (rule packet_read_take [OF assms(1,2), of 4 p2]) (use p2 assms(6) in auto)
  obtain p4 where p4: "RW 20 p3 = (Inr (), p4)" "r p4 = body @ footer"
    using assms(2) [unfolded rewind_laws_def, THEN conjunct2, rule_format, of 20 p3] p3 assms(4-6) by auto
  show ?thesis
    using p1(1) p2(1) p3(1) p4 assms(3)
    by (simp add: verify_event_def bind_sx_def on_packet_def read_def add_read_bytes_def rest_def Let_def)
qed

theorem checksum_verified_witness:
  "\<exists>w'. verify_event seek_rewind seek_packet True 1
        \<lparr>read_bytes = 0, data_buffer = [], packet = (20, 0 # replicate 19 1 @ [7] @ [1, 2, 3, 4])\<rparr>
      = (Inr (Some (le_bytes 4 (uint (crc32 (replicate 19 1 @ [7]))) = [1, 2, 3, 4])), w')
    \<and> rest (\<lambda>(i, b). drop i b) w' = [7, 1, 2, 3, 4] \<and> read_bytes w' = 0"
  using checksum_verified [OF seek_packet_laws seek_rewind_laws,
      of "\<lparr>read_bytes = 0, data_buffer = [], packet = (20, 0 # replicate 19 1 @ [7] @ [1, 2, 3, 4])\<rparr>" 0
        "replicate 19 1" "[7]" "[1, 2, 3, 4]"]
  by simp

theorem gtid_event_identifies_transaction_witness:
  "\<exists>ev. decodes (\<lambda>(i, b). drop i b)
        (gtid_event_init seek_packet \<lparr>ea_header = \<lparr>timestamp = 0, event_type = 33, server_id = 1, full_event_size = 65,
           log_pos = 0, header_flags = 0\<rparr>, ea_size = 42, ea_mysql_version = [8, 0, 36], ea_verify_checksum = False,
           ea_dbms = ''mysql''\<rparr>)
        (put_gtid_event 1 (replicate 16 0x1f) 5 2 3 4) ev
    \<and> ge_last_committed ev = Some 3
    \<and> gtid_init (gtid_event_gtid ev) None [] = Inr \<lparr>sid = dashed (replicate 16 0x1f), intervals = [(5, 6)]\<rparr>
    \<and> handle_event_gtid (gtid_event_gtid ev) 3
        = Inr (OperationGtid \<lparr>server_uuid = dashed (replicate 16 0x1f), xid = str_int 5, last_committed = 3\<rparr>)"
  using gtid_event_identifies_transaction [OF seek_packet_laws, of "replicate 16 0x1f" 5 3 4] by simp

end
