(* ===== verification/Query_Props.thy ===== *)
theory Query_Props
  imports Events_Props
begin

text \<open>
  Query events are read back: for every sequence of status variables, in any order and with repetitions, the
  event has the attributes that the variables set one after the other, and the schema and the statement as they
  were written.
\<close>

section \<open>Status variables as a server writes them\<close>

datatype status_var =
    SvFlags2 int | SvSqlMode int | SvCatalog | SvAutoIncrement int int | SvCharset int int int | SvTimeZone bytes
  | SvCatalogNz bytes | SvLcTimeNames int | SvCharsetDatabase int | SvTableMapForUpdate int | SvMasterDataWritten
  | SvInvoker bytes bytes | SvDbNames "bytes list" | SvNoDbName | SvMicroseconds int | SvCommitTs | SvCommitTs2
  | SvExplicitDefaults int | SvDdlXid int | SvDefaultCollation int | SvRequirePrimaryKey int | SvTableEncryption int
  | SvHrnow int | SvXid int

definition sized :: "bytes \<Rightarrow> bytes" where
  "sized b = le_bytes 1 (int (length b)) @ b"

fun put_status_var :: "status_var \<Rightarrow> bytes" where
  "put_status_var (SvFlags2 v) = [0] @ le_bytes 4 v"
| "put_status_var (SvSqlMode v) = [1] @ le_bytes 8 v"
| "put_status_var SvCatalog = [2]"
| "put_status_var (SvAutoIncrement a b) = [3] @ le_bytes 2 a @ le_bytes 2 b"
| "put_status_var (SvCharset a b c) = [4] @ le_bytes 2 a @ le_bytes 2 b @ le_bytes 2 c"
| "put_status_var (SvTimeZone z) = [5] @ sized z"
| "put_status_var (SvCatalogNz c) = [6] @ sized c"
| "put_status_var (SvLcTimeNames v) = [7] @ le_bytes 2 v"
| "put_status_var (SvCharsetDatabase v) = [8] @ le_bytes 2 v"
| "put_status_var (SvTableMapForUpdate v) = [9] @ le_bytes 8 v"
| "put_status_var SvMasterDataWritten = [10]"
| "put_status_var (SvInvoker u h) = [11] @ sized u @ sized h"
| "put_status_var (SvDbNames dbs) = [12] @ le_bytes 1 (int (length dbs)) @ concat (map (\<lambda>d. d @ [0]) dbs)"
| "put_status_var SvNoDbName = [12] @ le_bytes 1 254"
| "put_status_var (SvMicroseconds v) = [13] @ le_bytes 3 v"
| "put_status_var SvCommitTs = [14]"
| "put_status_var SvCommitTs2 = [15]"
| "put_status_var (SvExplicitDefaults v) = [16] @ le_bytes 1 v"
| "put_status_var (SvDdlXid v) = [17] @ le_bytes 8 v"
| "put_status_var (SvDefaultCollation v) = [18] @ le_bytes 2 v"
| "put_status_var (SvRequirePrimaryKey v) = [19] @ le_bytes 1 v"
| "put_status_var (SvTableEncryption v) = [20] @ le_bytes 1 v"
| "put_status_var (SvHrnow v) = [128] @ le_bytes 3 v"
| "put_status_var (SvXid v) = [129] @ le_bytes 8 v"

definition fits :: "nat \<Rightarrow> int \<Rightarrow> bool" where
  "fits n v = (0 \<le> v \<and> v < 256 ^ n)"

fun status_var_ok :: "status_var \<Rightarrow> bool" where
  "status_var_ok (SvFlags2 v) = fits 4 v"
| "status_var_ok (SvSqlMode v) = fits 8 v"
| "status_var_ok (SvAutoIncrement a b) = (fits 2 a \<and> fits 2 b)"
| "status_var_ok (SvCharset a b c) = (fits 2 a \<and> fits 2 b \<and> fits 2 c)"
| "status_var_ok (SvTimeZone z) = (length z < 256)"
| "status_var_ok (SvCatalogNz c) = (length c < 256)"
| "status_var_ok (SvLcTimeNames v) = fits 2 v"
| "status_var_ok (SvCharsetDatabase v) = fits 2 v"
| "status_var_ok (SvTableMapForUpdate v) = fits 8 v"
| "status_var_ok (SvInvoker u h) = (length u < 256 \<and> length h < 256)"
| "status_var_ok (SvDbNames dbs) = (length dbs < 254 \<and> list_all (\<lambda>d. 0 \<notin> set d) dbs)"
| "status_var_ok (SvMicroseconds v) = fits 3 v"
| "status_var_ok (SvExplicitDefaults v) = fits 1 v"
| "status_var_ok (SvDdlXid v) = fits 8 v"
| "status_var_ok (SvDefaultCollation v) = fits 2 v"
| "status_var_ok (SvRequirePrimaryKey v) = fits 1 v"
| "status_var_ok (SvTableEncryption v) = fits 1 v"
| "status_var_ok (SvHrnow v) = fits 3 v"
| "status_var_ok (SvXid v) = fits 8 v"
| "status_var_ok _ = True"

text \<open>An empty value leaves the attribute as it was.\<close>

definition unless_empty :: "bytes \<Rightarrow> bytes option \<Rightarrow> bytes option" where
  "unless_empty b old = (if b = [] then old else Some b)"

fun set_status_var :: "status_var \<Rightarrow> status_vars \<Rightarrow> status_vars" where
  "set_status_var (SvFlags2 v) s = s\<lparr>flags2 := Some v\<rparr>"
| "set_status_var (SvSqlMode v) s = s\<lparr>sql_mode := Some v\<rparr>"
| "set_status_var (SvAutoIncrement a b) s = s\<lparr>auto_increment := Some (a, b)\<rparr>"
| "set_status_var (SvCharset a b c) s = s\<lparr>charset_codes := Some (a, b, c)\<rparr>"
| "set_status_var (SvTimeZone z) s = s\<lparr>time_zone := unless_empty z (time_zone s)\<rparr>"
| "set_status_var (SvCatalogNz c) s = s\<lparr>catalog_nz_code := unless_empty c (catalog_nz_code s)\<rparr>"
| "set_status_var (SvLcTimeNames v) s = s\<lparr>lc_time_names_number := Some v\<rparr>"
| "set_status_var (SvCharsetDatabase v) s = s\<lparr>charset_database_number := Some v\<rparr>"
| "set_status_var (SvTableMapForUpdate v) s = s\<lparr>table_map_for_update := Some v\<rparr>"
| "set_status_var (SvInvoker u h) s = s\<lparr>user := unless_empty u (user s), host := unless_empty h (host s)\<rparr>"
| "set_status_var (SvDbNames dbs) s = s\<lparr>mts_accessed_db_names := Some dbs\<rparr>"
| "set_status_var (SvMicroseconds v) s = s\<lparr>microseconds := Some v\<rparr>"
| "set_status_var (SvExplicitDefaults v) s = s\<lparr>explicit_defaults_ts := Some v\<rparr>"
| "set_status_var (SvDdlXid v) s = s\<lparr>ddl_xid := Some v\<rparr>"
| "set_status_var (SvDefaultCollation v) s = s\<lparr>default_collation_for_utf8mb4_number := Some v\<rparr>"
| "set_status_var (SvRequirePrimaryKey v) s = s\<lparr>sql_require_primary_key := Some v\<rparr>"
| "set_status_var (SvTableEncryption v) s = s\<lparr>default_table_encryption := Some v\<rparr>"
| "set_status_var (SvHrnow v) s = s\<lparr>hrnow := Some v\<rparr>"
| "set_status_var (SvXid v) s = s\<lparr>sv_xid := Some v\<rparr>"
| "set_status_var _ s = s"

section \<open>Reading them\<close>

lemma uint_reads:
  assumes "packet_laws P r"
  shows "fits 1 v \<Longrightarrow> decodes r (read_uint8 P) (le_bytes 1 v) v"
    and "fits 2 v \<Longrightarrow> decodes r (read_uint16 P) (le_bytes 2 v) v"
    and "fits 4 v \<Longrightarrow> decodes r (read_uint32 P) (le_bytes 4 v) v"
    and "fits 8 v \<Longrightarrow> decodes r (read_uint64 P) (le_bytes 8 v) v"
  unfolding read_uint8_def read_uint16_def read_uint32_def read_uint64_def fits_def
  using decodes_le [OF assms] by blast+

lemma uint24_read:
  assumes "packet_laws P r" "fits 3 v"
  shows "decodes r (read_uint24 P) (le_bytes 3 v) v"
  unfolding read_uint24_def
proof (rule decodes_unpacked [OF assms(1)])
  have "le_val (le_bytes 3 v) = v" using assms(2) by (intro le_val_le_bytes) (auto simp: fits_def)
  then show "bind_res (three_bytes (le_bytes 3 v)) (\<lambda>(a, b, c). Inr (a + push_bit 8 b + push_bit 16 c)) = Inr v"
    by (simp add: three_bytes_def numeral_3_eq_3 push_bit_eq_mult)
qed simp

lemma sized_attr_read:
  assumes "packet_laws P r" "length b < 256"
  shows "decodes r (read_sized_attr P old) (sized b) (unless_empty b old)"
  unfolding read_sized_attr_def sized_def
proof (rule decodes_bind [OF uint_reads(1) [OF assms(1)]])
  show "fits 1 (int (length b))" using assms(2) by (simp add: fits_def)
  show "decodes r (if int (length b) \<noteq> 0 then bind_sx (read P (int (length b))) (\<lambda>b. ret_sx (Some b)) else ret_sx old)
      b (unless_empty b old)"
  proof (cases "b = []")
    case True
    then have "int (length b) = 0" by simp
    with True show ?thesis by (simp only: unless_empty_def simp_thms if_True if_False decodes_ret)
  next
    case False
    then have "int (length b) \<noteq> 0" by simp
    with False show ?thesis
      by (simp only: if_True unless_empty_def if_False not_False_eq_True simp_thms decodes_map [OF decodes_read [OF assms(1) refl]])
  qed
qed

lemma map_sx_decodes:
  assumes "\<And>x. x \<in> set xs \<Longrightarrow> decodes r m (enc x) (val x)" "length is = length xs"
  shows "decodes r (map_sx (\<lambda>_. m) is) (concat (map enc xs)) (map val xs)"
  using assms(2,1)
proof (induction "is" xs rule: list_induct2)
  case Nil
  show ?case by (simp only: map_sx.simps list.map concat.simps decodes_ret)
next
  case (Cons i "is" x xs)
  show ?case
    unfolding map_sx.simps list.map concat.simps
    by (rule decodes_bind [OF Cons.prems decodes_map [OF Cons.IH]]) (use Cons.prems in simp_all)
qed

lemma key_read:
  assumes "packet_laws P r" "decodes r (read_status_vars_value_for_key P s (uint k)) b s'"
  shows "decodes r (read_status_var P s) ([k] @ b) s'"
  unfolding read_status_var_def read_uint8_def
  by (rule decodes_bind [OF decodes_byte(3) [OF assms(1)]]) (rule assms(2))

lemma names_read:
  assumes "packet_laws P r" "list_all (\<lambda>d. 0 \<notin> set d) dbs" "n = length dbs"
  shows "decodes r (map_sx (\<lambda>_. read_string P) [0..<n]) (concat (map (\<lambda>d. d @ [0]) dbs)) dbs"
  using map_sx_decodes [of dbs r "read_string P" "\<lambda>d. d @ [0]" "\<lambda>d. d" "[0..<n]"] string_decodes [OF assms(1)] assms(2,3)
  by (auto simp: list_all_iff)

lemma int_keys:
  "read_status_vars_value_for_key P s (uint (0 :: byte)) = bind_sx (read_uint32 P) (\<lambda>v. ret_sx (s\<lparr>flags2 := Some v\<rparr>))"
  "read_status_vars_value_for_key P s (uint (1 :: byte)) = bind_sx (read_uint64 P) (\<lambda>v. ret_sx (s\<lparr>sql_mode := Some v\<rparr>))"
  "read_status_vars_value_for_key P s (uint (7 :: byte)) = bind_sx (read_uint16 P) (\<lambda>v. ret_sx (s\<lparr>lc_time_names_number := Some v\<rparr>))"
  "read_status_vars_value_for_key P s (uint (8 :: byte)) = bind_sx (read_uint16 P) (\<lambda>v. ret_sx (s\<lparr>charset_database_number := Some v\<rparr>))"
  "read_status_vars_value_for_key P s (uint (9 :: byte)) = bind_sx (read_uint64 P) (\<lambda>v. ret_sx (s\<lparr>table_map_for_update := Some v\<rparr>))"
  "read_status_vars_value_for_key P s (uint (13 :: byte)) = bind_sx (read_uint24 P) (\<lambda>v. ret_sx (s\<lparr>microseconds := Some v\<rparr>))"
  "read_status_vars_value_for_key P s (uint (16 :: byte)) = bind_sx (read_uint8 P) (\<lambda>v. ret_sx (s\<lparr>explicit_defaults_ts := Some v\<rparr>))"
  "read_status_vars_value_for_key P s (uint (17 :: byte)) = bind_sx (read_uint64 P) (\<lambda>v. ret_sx (s\<lparr>ddl_xid := Some v\<rparr>))"
  "read_status_vars_value_for_key P s (uint (18 :: byte)) = bind_sx (read_uint16 P) (\<lambda>v. ret_sx (s\<lparr>default_collation_for_utf8mb4_number := Some v\<rparr>))"
  "read_status_vars_value_for_key P s (uint (19 :: byte)) = bind_sx (read_uint8 P) (\<lambda>v. ret_sx (s\<lparr>sql_require_primary_key := Some v\<rparr>))"
  "read_status_vars_value_for_key P s (uint (20 :: byte)) = bind_sx (read_uint8 P) (\<lambda>v. ret_sx (s\<lparr>default_table_encryption := Some v\<rparr>))"
  "read_status_vars_value_for_key P s (uint (128 :: byte)) = bind_sx (read_uint24 P) (\<lambda>v. ret_sx (s\<lparr>hrnow := Some v\<rparr>))"
  "read_status_vars_value_for_key P s (uint (129 :: byte)) = bind_sx (read_uint64 P) (\<lambda>v. ret_sx (s\<lparr>sv_xid := Some v\<rparr>))"
  by (simp_all add: read_status_vars_value_for_key_def)

lemma skipped_keys:
  "k \<in> {2, 10, 14, 15} \<Longrightarrow> read_status_vars_value_for_key P s (uint (k :: byte)) = ret_sx s"
  by (auto simp: read_status_vars_value_for_key_def)

lemma sized_keys:
  "read_status_vars_value_for_key P s (uint (5 :: byte))
     = bind_sx (read_sized_attr P (time_zone s)) (\<lambda>v. ret_sx (s\<lparr>time_zone := v\<rparr>))"
  "read_status_vars_value_for_key P s (uint (6 :: byte))
     = bind_sx (read_sized_attr P (catalog_nz_code s)) (\<lambda>v. ret_sx (s\<lparr>catalog_nz_code := v\<rparr>))"
  "read_status_vars_value_for_key P s (uint (11 :: byte))
     = bind_sx (read_sized_attr P (user s)) (\<lambda>u. bind_sx (read_sized_attr P (host s)) (\<lambda>h. ret_sx (s\<lparr>user := u, host := h\<rparr>)))"
  by (simp_all add: read_status_vars_value_for_key_def)

lemma multi_keys:
  "read_status_vars_value_for_key P s (uint (3 :: byte))
     = bind_sx (read_uint16 P) (\<lambda>a. bind_sx (read_uint16 P) (\<lambda>b. ret_sx (s\<lparr>auto_increment := Some (a, b)\<rparr>)))"
  "read_status_vars_value_for_key P s (uint (4 :: byte))
     = bind_sx (read_uint16 P) (\<lambda>a. bind_sx (read_uint16 P) (\<lambda>b. bind_sx (read_uint16 P) (\<lambda>c.
         ret_sx (s\<lparr>charset_codes := Some (a, b, c)\<rparr>))))"
  "read_status_vars_value_for_key P s (uint (12 :: byte))
     = bind_sx (read_uint8 P) (\<lambda>n. if n = 254 then ret_sx s
         else bind_sx (map_sx (\<lambda>_. read_string P) [0..<nat n]) (\<lambda>dbs. ret_sx (s\<lparr>mts_accessed_db_names := Some dbs\<rparr>)))"
  by (simp_all add: read_status_vars_value_for_key_def)

lemma key_value:
  assumes "packet_laws P r" "decodes r m b x" "read_status_vars_value_for_key P s (uint k) = bind_sx m (\<lambda>v. ret_sx (f v))"
  shows "decodes r (read_status_var P s) ([k] @ b) (f x)"
  by (rule key_read [OF assms(1)]) (use decodes_map [OF assms(2), of f] assms(3) in \<open>simp only:\<close>)

lemma key_skip:
  assumes "packet_laws P r" "k \<in> {2, 10, 14, 15}"
  shows "decodes r (read_status_var P s) [k] s"
  by (rule key_read [OF assms(1), of s k "[]" s, unfolded skipped_keys [OF assms(2)] append_Nil2, OF decodes_ret])

lemmas put_set = put_status_var.simps set_status_var.simps status_var_ok.simps

lemma status_var_reads:
  assumes "packet_laws P r" "status_var_ok v"
  shows "decodes r (read_status_var P s) (put_status_var v) (set_status_var v s)"
proof (cases v)
  case (SvFlags2 x)
  show ?thesis
    using assms(2) unfolding SvFlags2 put_set
    by (rule key_value [OF assms(1) uint_reads(3) [OF assms(1)] int_keys(1)])
next
  case (SvSqlMode x)
  show ?thesis
    using assms(2) unfolding SvSqlMode put_set
    by (rule key_value [OF assms(1) uint_reads(4) [OF assms(1)] int_keys(2)])
next
  case (SvLcTimeNames x)
  show ?thesis
    using assms(2) unfolding SvLcTimeNames put_set
    by (rule key_value [OF assms(1) uint_reads(2) [OF assms(1)] int_keys(3)])
next
  case (SvCharsetDatabase x)
  show ?thesis
    using assms(2) unfolding SvCharsetDatabase put_set
    by (rule key_value [OF assms(1) uint_reads(2) [OF assms(1)] int_keys(4)])
next
  case (SvTableMapForUpdate x)
  show ?thesis
    using assms(2) unfolding SvTableMapForUpdate put_set
    by (rule key_value [OF assms(1) uint_reads(4) [OF assms(1)] int_keys(5)])
next
  case (SvMicroseconds x)
  show ?thesis
    using assms(2) unfolding SvMicroseconds put_set
    by (rule key_value [OF assms(1) uint24_read [OF assms(1)] int_keys(6)])
next
  case (SvExplicitDefaults x)
  show ?thesis
    using assms(2) unfolding SvExplicitDefaults put_set
    by (rule key_value [OF assms(1) uint_reads(1) [OF assms(1)] int_keys(7)])
next
  case (SvDdlXid x)
  show ?thesis
    using assms(2) unfolding SvDdlXid put_set
    by (rule key_value [OF assms(1) uint_reads(4) [OF assms(1)] int_keys(8)])
next
  case (SvDefaultCollation x)
  show ?thesis
    using assms(2) unfolding SvDefaultCollation put_set
    by (rule key_value [OF assms(1) uint_reads(2) [OF assms(1)] int_keys(9)])
next
  case (SvRequirePrimaryKey x)
  show ?thesis
    using assms(2) unfolding SvRequirePrimaryKey put_set
    by (rule key_value [OF assms(1) uint_reads(1) [OF assms(1)] int_keys(10)])
next
  case (SvTableEncryption x)
  show ?thesis
    using assms(2) unfolding SvTableEncryption put_set
    by (rule key_value [OF assms(1) uint_reads(1) [OF assms(1)] int_keys(11)])
next
  case (SvHrnow x)
  show ?thesis
    using assms(2) unfolding SvHrnow put_set
    by (rule key_value [OF assms(1) uint24_read [OF assms(1)] int_keys(12)])
next
  case (SvXid x)
  show ?thesis
    using assms(2) unfolding SvXid put_set
    by (rule key_value [OF assms(1) uint_reads(4) [OF assms(1)] int_keys(13)])
next
  case SvCatalog
  show ?thesis unfolding SvCatalog put_set by (rule key_skip [OF assms(1)]) simp
next
  case SvMasterDataWritten
  show ?thesis unfolding SvMasterDataWritten put_set by (rule key_skip [OF assms(1)]) simp
next
  case SvCommitTs
  show ?thesis unfolding SvCommitTs put_set by (rule key_skip [OF assms(1)]) simp
next
  case SvCommitTs2
  show ?thesis unfolding SvCommitTs2 put_set by (rule key_skip [OF assms(1)]) simp
next
  case (SvTimeZone z)
  show ?thesis
    using assms(2) unfolding SvTimeZone put_set
    by (rule key_value [OF assms(1) sized_attr_read [OF assms(1)] sized_keys(1)])
next
  case (SvCatalogNz z)
  show ?thesis
    using assms(2) unfolding SvCatalogNz put_set
    by (rule key_value [OF assms(1) sized_attr_read [OF assms(1)] sized_keys(2)])
next
  case (SvInvoker u h)
  then have l: "length u < 256" "length h < 256" using assms(2) by simp_all
  show ?thesis
    unfolding SvInvoker put_set
    by (rule key_read [OF assms(1)], unfold sized_keys,
        rule decodes_bind [OF sized_attr_read [OF assms(1) l(1)] decodes_map [OF sized_attr_read [OF assms(1) l(2)]]])
next
  case (SvAutoIncrement x y)
  then have l: "fits 2 x" "fits 2 y" using assms(2) by simp_all
  show ?thesis
    unfolding SvAutoIncrement put_set
    by (rule key_read [OF assms(1)], unfold multi_keys,
        rule decodes_bind [OF uint_reads(2) [OF assms(1) l(1)] decodes_map [OF uint_reads(2) [OF assms(1) l(2)]]])
next
  case (SvCharset x y z)
  then have l: "fits 2 x" "fits 2 y" "fits 2 z" using assms(2) by simp_all
  show ?thesis
    unfolding SvCharset put_set
    by (rule key_read [OF assms(1)], unfold multi_keys,
        rule decodes_bind [OF uint_reads(2) [OF assms(1) l(1)] decodes_bind [OF uint_reads(2) [OF assms(1) l(2)]
          decodes_map [OF uint_reads(2) [OF assms(1) l(3)]]]])
next
  case (SvDbNames dbs)
  then have l: "fits 1 (int (length dbs))" "int (length dbs) \<noteq> 254" "list_all (\<lambda>d. 0 \<notin> set d) dbs"
    using assms(2) by (auto simp: fits_def)
  have "decodes r (if int (length dbs) = 254 then ret_sx s else bind_sx (map_sx (\<lambda>_. read_string P) [0..<nat (int (length dbs))])
      (\<lambda>dbs. ret_sx (s\<lparr>mts_accessed_db_names := Some dbs\<rparr>))) (concat (map (\<lambda>d. d @ [0]) dbs))
      (s\<lparr>mts_accessed_db_names := Some dbs\<rparr>)"
    using decodes_map [OF names_read [OF assms(1) l(3) refl], of "\<lambda>dbs. s\<lparr>mts_accessed_db_names := Some dbs\<rparr>"] l(2)
    by (simp only: if_False nat_int)
  then show ?thesis
    unfolding SvDbNames put_set
    by (intro key_read [OF assms(1)], unfold multi_keys) (rule decodes_bind [OF uint_reads(1) [OF assms(1) l(1)]])
next
  case SvNoDbName
  have fit: "fits 1 254" by (simp add: fits_def)
  have "decodes r (bind_sx (read_uint8 P) (\<lambda>n. if n = 254 then ret_sx s
      else bind_sx (map_sx (\<lambda>_. read_string P) [0..<nat n]) (\<lambda>dbs. ret_sx (s\<lparr>mts_accessed_db_names := Some dbs\<rparr>))))
      (le_bytes 1 254 @ []) s"
    by (rule decodes_bind [OF uint_reads(1) [OF assms(1) fit]]) (simp only: simp_thms if_True decodes_ret)
  then show ?thesis
    unfolding SvNoDbName put_set append_Nil2 by (intro key_read [OF assms(1)], unfold multi_keys)
qed

section \<open>The event\<close>

definition text_bytes :: "string \<Rightarrow> bytes" where
  "text_bytes t = map (\<lambda>c. of_nat (of_char c)) t"

definition put_query_event :: "int \<Rightarrow> int \<Rightarrow> int \<Rightarrow> status_var list \<Rightarrow> bytes \<Rightarrow> string \<Rightarrow> bytes" where
  "put_query_event proxy etime err vars schema query =
     le_bytes 4 proxy @ le_bytes 4 etime @ [of_nat (length schema)] @ le_bytes 2 err
       @ le_bytes 2 (int (length (concat (map put_status_var vars)))) @ concat (map put_status_var vars)
       @ schema @ [0] @ text_bytes query"

lemma text_bytes_decode:
  assumes "\<forall>c \<in> set t. (of_char c :: nat) < 128"
  shows "decode_backslashreplace (text_bytes t) = Inr t"
proof -
  have "utf8_escape (text_bytes t) = map of_char t"
    using assms by (induction t) (simp_all add: text_bytes_def unat_of_nat)
  with assms show ?thesis
    by (auto simp: decode_backslashreplace_def list_all_iff Let_def comp_def)
qed

lemma advance_decodes:
  assumes "packet_laws P r" "int (length b) = n"
  shows "decodes r (advance P n) b ()"
  unfolding decodes_def
proof (intro allI impI)
  fix w z assume w: "rest r w = b @ z"
  let ?d = "data_buffer w"
  have law: "\<exists>p'. p_advance P k (packet w) = (Inr (), p') \<and> r p' = drop (nat k) (r (packet w))"
    if "0 \<le> k" "k \<le> int (length (r (packet w)))" for k
    using assms(1) that unfolding packet_laws_def by blast
  have l: "length ?d + length (r (packet w)) = length b + length z"
    using arg_cong [OF w, of length] by (simp add: rest_def)
  show "\<exists>w'. advance P n w = (Inr (), w') \<and> rest r w' = z \<and> read_bytes w' = read_bytes w + int (length b)"
  proof (cases "length b \<le> length ?d \<and> ?d \<noteq> []")
    case True
    have "drop (length b) ?d @ r (packet w) = z"
      using arg_cong [OF w, of "drop (length b)"] True by (simp add: rest_def)
    with True assms(2) show ?thesis by (auto simp: advance_def rest_def slice_from_def Let_def)
  next
    case False
    let ?k = "n - int (length ?d)"
    have "0 \<le> ?k" using False assms(2) by auto
    moreover have "?k \<le> int (length (r (packet w)))" using l assms(2) by simp
    ultimately obtain p' where p': "p_advance P ?k (packet w) = (Inr (), p')" "r p' = drop (nat ?k) (r (packet w))"
      using law by blast
    have "drop (length b) (?d @ r (packet w)) = z" using arg_cong [OF w, of "drop (length b)"] by (simp add: rest_def)
    with False assms(2) have "drop (nat ?k) (r (packet w)) = z"
      by (auto simp: nat_diff_distrib)
    with p' False assms(2) show ?thesis
      by (cases "?d = []") (auto simp: advance_def rest_def slice_from_def on_packet_def Let_def)
  qed
qed

lemma status_vars_read:
  assumes "packet_laws P r" "list_all status_var_ok vars"
  shows "decodes r (until_end (int (length (concat (map put_status_var vars)))) (read_status_var P) s)
    (concat (map put_status_var vars)) (fold set_status_var vars s)"
proof (rule until_end_decodes)
  fix v acc assume "v \<in> set vars"
  with assms show "put_status_var v \<noteq> [] \<and> decodes r (read_status_var P acc) (put_status_var v) (set_status_var v acc)"
    using status_var_reads [OF assms(1), of v acc] by (cases v) (auto simp: list_all_iff)
qed

text \<open>C35: the constructor of a query event reads back what a server wrote: the numbers of the header, the
  effect of the status variables one after the other, the schema and the statement, and it consumes the whole
  event.\<close>

theorem query_event_roundtrip:
  assumes "packet_laws P r" "fits 4 proxy" "fits 4 etime" "fits 2 err" "list_all status_var_ok vars"
    and "length (concat (map put_status_var vars)) < 65536" "length schema < 256"
    and "\<forall>c \<in> set query. (of_char c :: nat) < 128"
    and "ea_size A = int (length (put_query_event proxy etime err vars schema query))"
  shows "decodes r (query_event_init P A) (put_query_event proxy etime err vars schema query)
    \<lparr>qe_slave_proxy_id = proxy, qe_execution_time = etime, qe_error_code = err,
     qe_status_vars = fold set_status_var vars no_status_vars, qe_schema = schema, qe_query = query\<rparr>"
proof -
  let ?vs = "concat (map put_status_var vars)"
  have len: "decodes r (unpacked P 1 (unpack_uint_be 1)) [of_nat (length schema)] (int (length schema))"
    using decodes_byte(1) [OF assms(1), of "of_nat (length schema)"] assms(7) by (simp add: uint_byte_of_nat)
  have vlen: "fits 2 (int (length ?vs))" using assms(6) by (simp add: fits_def del: length_concat)
  have sch: "decodes r (read P (int (length schema))) schema schema" by (rule decodes_read [OF assms(1) refl])
  have adv: "decodes r (advance P 1) [0] ()" by (rule advance_decodes [OF assms(1)]) simp
  have q: "decodes r (read P (ea_size A - 13 - int (length ?vs) - int (length schema) - 1)) (text_bytes query) (text_bytes query)"
    by (rule decodes_read [OF assms(1)]) (simp add: assms(9) put_query_event_def text_bytes_def del: length_concat)
  have fin: "decodes r (bind_sx (read P (ea_size A - 13 - int (length ?vs) - int (length schema) - 1))
      (\<lambda>b. bind_sx (lift_sx (decode_backslashreplace b)) (\<lambda>q. ret_sx (f q)))) (text_bytes query @ []) (f query)"
    for f :: "string \<Rightarrow> query_event"
    by (rule decodes_bind [OF q]) (simp only: text_bytes_decode [OF assms(8)] lift_sx_simps bind_sx_simps(1) decodes_ret)
  note h1 = decodes_bind [OF uint_reads(3) [OF assms(1,2)]] decodes_bind [OF uint_reads(3) [OF assms(1,3)]]
    and h2 = decodes_bind [OF uint_reads(2) [OF assms(1,4)]] decodes_bind [OF uint_reads(2) [OF assms(1) vlen]]
  show ?thesis
    unfolding query_event_init_def put_query_event_def
    by (rule h1(1), rule h1(2), rule decodes_bind [OF len], rule h2(1), rule h2(2),
        rule decodes_bind [OF status_vars_read [OF assms(1,5)]], rule decodes_bind [OF sch], rule decodes_bind [OF adv],
        rule fin [unfolded append_Nil2])
qed

theorem query_event_roundtrip_witness:
  "decodes (\<lambda>(i, b). drop i b)
     (query_event_init seek_packet \<lparr>ea_header = \<lparr>timestamp = 0, event_type = 2, server_id = 1, full_event_size = 58,
        log_pos = 0, header_flags = 0\<rparr>, ea_size = 35, ea_mysql_version = [8, 0, 36], ea_verify_checksum = False,
        ea_dbms = ''mysql''\<rparr>)
     (put_query_event 7 0 0 [SvSqlMode 1, SvDbNames [[100, 98]]] [100, 98] ''BEGIN'')
     \<lparr>qe_slave_proxy_id = 7, qe_execution_time = 0, qe_error_code = 0,
      qe_status_vars = no_status_vars\<lparr>sql_mode := Some 1, mts_accessed_db_names := Some [[100, 98]]\<rparr>,
      qe_schema = [100, 98], qe_query = ''BEGIN''\<rparr>"
proof -
  have l: "length (put_query_event 7 0 0 [SvSqlMode 1, SvDbNames [[100, 98]]] [100, 98] ''BEGIN'') = 35"
    by (simp add: put_query_event_def text_bytes_def)
  show ?thesis
    using query_event_roundtrip [OF seek_packet_laws, of 7 0 0 "[SvSqlMode 1, SvDbNames [[100, 98]]]" "[100, 98]" "''BEGIN''"
        "\<lparr>ea_header = \<lparr>timestamp = 0, event_type = 2, server_id = 1, full_event_size = 58, log_pos = 0, header_flags = 0\<rparr>,
          ea_size = 35, ea_mysql_version = [8, 0, 36], ea_verify_checksum = False, ea_dbms = ''mysql''\<rparr>"] l
    by (simp add: fits_def)
qed

end
