(* ===== verification/Sync_Old.thy ===== *)
theory Sync_Old
  imports Sync_Plan
begin

text \<open>
  \<open>main.bak1.py\<close>, the older variant of the synchroniser. The operations, the generation of SQL, the event
  handlers and the reading of the checkpoint are the same text as in \<open>main.py\<close>; this theory has what differs:
  \<open>MysqlClient\<close>, which keeps the flag \<open>active_trx\<close> of its own instead of asking the connector, \<open>parse_gtidset\<close>,
  the file of the checkpoint, and \<open>MysqlSync\<close>, whose loop does not catch a failing statement and takes the
  checkpoint inside the merged commit.

  \<open>checkpoint_gtidset\<close> is first the text that \<open>Checkpoint\<close> computed and later an alias of the dictionary
  \<open>latest_gtidset\<close>; \<open>checkpoint_text\<close> is the text, or \<open>None\<close> for the alias. Calling \<open>items\<close> on the text raises.
\<close>

section \<open>Definitions\<close>

subsection \<open>Gtid sets\<close>

definition alnum :: "char \<Rightarrow> bool" where
  "alnum c = (let n = (of_char c :: nat) in 48 \<le> n \<and> n \<le> 57 \<or> 65 \<le> n \<and> n \<le> 90 \<or> 97 \<le> n \<and> n \<le> 122)"

text \<open>The third group of the pattern has the range from \<open>0\<close> to the underscore.\<close>

definition alnum_wide :: "char \<Rightarrow> bool" where
  "alnum_wide c = (let n = (of_char c :: nat) in 48 \<le> n \<and> n \<le> 95 \<or> 97 \<le> n \<and> n \<le> 122)"

definition old_gtid_re :: rx where
  "old_gtid_re =
     Seqs [Cap 1 (Seqs [Rep 8 (Cls alnum), Chr CHR ''-'', Rep 4 (Cls alnum), Chr CHR ''-'', Rep 4 (Cls alnum_wide),
             Chr CHR ''-'', Rep 4 (Cls alnum), Chr CHR ''-'', Rep 12 (Cls alnum)]),
           Chr CHR '':'', Plus (Cls is_digit), Chr CHR ''-'', Cap 2 (Plus (Cls is_digit)), Eos]"

fun parse_loop :: "string list \<Rightarrow> (string, int) dict \<Rightarrow> (string, int) dict res" where
  "parse_loop [] d = Inr d"
| "parse_loop (gtid # gtids) d =
     (case rx_match old_gtid_re gtid of
        None \<Rightarrow> Inl (PyException ''gtid set format error'')
      | Some m \<Rightarrow>
          (case (rx_group m 1, rx_group m 2) of
             (Some uuid, Some n) \<Rightarrow> bind_res (py_int 10 n) (\<lambda>v. parse_loop gtids (dict_set uuid v d))
           | _ \<Rightarrow> Inl TypeError))"

definition parse_gtidset :: "string \<Rightarrow> (string, int) dict res" where
  "parse_gtidset gtidset_str = parse_loop (split_on CHR '','' gtidset_str) []"

subsection \<open>The client\<close>

record old_client =
  base :: client
  active_trx :: bool

definition on_base :: "(client, 'a) sx \<Rightarrow> (old_client, 'a) sx" where
  "on_base m = (\<lambda>s. case m (base s) of (r, c) \<Rightarrow> (r, s\<lparr>base := c\<rparr>))"

definition set_active :: "bool \<Rightarrow> (old_client, unit) sx" where
  "set_active b = modify_sx (\<lambda>s. s\<lparr>active_trx := b\<rparr>)"

definition old_client_init :: "connector \<Rightarrow> string \<Rightarrow> (old_client, unit) sx" where
  "old_client_init K settings = bind_sx (on_base (client_init K settings)) (\<lambda>_. set_active False)"

definition old_push_begin :: "connector \<Rightarrow> (old_client, unit) sx" where
  "old_push_begin K = (\<lambda>s.
     if active_trx s then (Inr (), s)
     else bind_sx (on_base (do_call K StartTransaction)) (\<lambda>_. set_active True) s)"

definition old_push_dml :: "connector \<Rightarrow> string \<Rightarrow> pyval list \<Rightarrow> (old_client, unit) sx" where
  "old_push_dml K sql_text params =
     bind_sx (on_base (do_call K (Execute sql_text params))) (\<lambda>_.
       on_base (\<lambda>c. set_cnt (dml_cnt c + 1) c))"

definition old_push_nondml :: "connector \<Rightarrow> string option \<Rightarrow> string \<Rightarrow> (old_client, unit) sx" where
  "old_push_nondml K db sql_text =
     bind_sx (on_base (case db of
                None \<Rightarrow> ret_sx ()
              | Some d \<Rightarrow> if d \<noteq> [] then do_call K (UseDatabase d) else ret_sx ())) (\<lambda>_.
     bind_sx (on_base (with_ddl_cursor K sql_text)) (\<lambda>_. set_active False))"

definition old_push_commit :: "connector \<Rightarrow> (old_client, unit) sx" where
  "old_push_commit K =
     bind_sx (\<lambda>s. if dml_cnt (base s) \<ge> 1 \<and> active_trx s
                  then on_base (do_call K Commit) s else on_base (do_call K Rollback) s) (\<lambda>_.
     bind_sx (on_base (set_cnt 0)) (\<lambda>_. set_active False))"

definition push_rollback :: "connector \<Rightarrow> (old_client, unit) sx" where
  "push_rollback K = on_base (do_call K Rollback)"

subsection \<open>The synchroniser\<close>

record old_sync =
  o_mc :: old_client
  o_files :: files
  o_ticks :: nat
  o_merge_trx :: bool
  statistics :: "(string, int) dict"
  o_last_committed :: int
  o_allow_commit :: bool
  o_last_operation :: "operation option"
  o_allow_ckeckpoint :: bool
  checkpoint_text :: "string option"
  checkpoint_position :: "(string \<times> int) option"
  o_latest_gtidset :: "(string, int) dict"
  o_latest_position :: "(string \<times> int) option"
  o_exclude_tables :: "(string, string list) dict"
  o_ts_0 :: rat
  o_timestamp :: rat

definition old_persist_checkpoint :: "(string, int) dict \<Rightarrow> files \<Rightarrow> files" where
  "old_persist_checkpoint gtidset fs = dict_set ''ckpt.json'' (JsonDict gtidset) fs"

definition old_start :: "bool \<Rightarrow> files \<Rightarrow> string \<Rightarrow> old_client \<Rightarrow> old_sync" where
  "old_start merge fs start c =
     \<lparr>o_mc = c, o_files = fs, o_ticks = 0, o_merge_trx = merge,
      statistics = [(''dml'', 0), (''nomdml'', 0), (''trx-merge'', 0), (''trx'', 0), (''dml-delete'', 0),
        (''dml-insert'', 0), (''dml-update'', 0)],
      o_last_committed = -1, o_allow_commit = False, o_last_operation = None, o_allow_ckeckpoint = False,
      checkpoint_text = Some start, checkpoint_position = None, o_latest_gtidset = [], o_latest_position = None,
      o_exclude_tables = [], o_ts_0 = 0, o_timestamp = 0\<rparr>"

definition old_sync_init :: "connector \<Rightarrow> string \<Rightarrow> string \<Rightarrow> bool \<Rightarrow> files \<Rightarrow> (string \<times> old_sync) res" where
  "old_sync_init K target auto_position merge fs =
     bind_res (get_checkpoint_gtidset auto_position fs) (\<lambda>start.
       case old_client_init K target \<lparr>base = \<lparr>hist = [], dml_cnt = 0\<rparr>, active_trx = False\<rparr> of
         (Inl e, _) \<Rightarrow> Inl e
       | (Inr _, c) \<Rightarrow> Inr (start, old_start merge fs start c))"

definition on_old :: "(old_client, 'a) sx \<Rightarrow> (old_sync, 'a) sx" where
  "on_old m = (\<lambda>s. case m (o_mc s) of (r, c) \<Rightarrow> (r, s\<lparr>o_mc := c\<rparr>))"

definition old_clock :: "clock \<Rightarrow> (old_sync, rat) sx" where
  "old_clock clock = (\<lambda>s. (Inr (clock (o_ticks s)), s\<lparr>o_ticks := o_ticks s + 1\<rparr>))"

definition count_stat :: "string \<Rightarrow> (old_sync, unit) sx" where
  "count_stat k = (\<lambda>s.
     case map_of (statistics s) k of
       None \<Rightarrow> (Inl KeyError, s)
     | Some n \<Rightarrow> (Inr (), s\<lparr>statistics := dict_set k (n + 1) (statistics s)\<rparr>))"

definition old_merge_commit :: "connector \<Rightarrow> (old_sync, unit) sx" where
  "old_merge_commit K = (\<lambda>s.
     if o_allow_commit s then
       bind_sx (on_old (old_push_commit K)) (\<lambda>_.
       bind_sx (modify_sx (\<lambda>s. s\<lparr>o_allow_commit := False\<rparr>)) (\<lambda>_.
       bind_sx (count_stat ''trx-merge'') (\<lambda>_.
       modify_sx (\<lambda>s.
         let s1 = s\<lparr>checkpoint_text := None, checkpoint_position := o_latest_position s\<rparr>
         in if o_allow_ckeckpoint s1
            then s1\<lparr>o_files := old_persist_checkpoint (o_latest_gtidset s1) (o_files s1), o_allow_ckeckpoint := False\<rparr>
            else s1)))) s
     else (Inr (), s))"

fun old_nondml_name :: "non_dml_type \<Rightarrow> string" where
  "old_nondml_name CREATEDATABASE = ''nondml-createdatabase''"
| "old_nondml_name DROPDATABASE = ''nondml-dropdatabase''"
| "old_nondml_name ALTERDATABASE = ''nondml-alterdatabase''"
| "old_nondml_name CREATETABLE = ''nondml-createtable''"
| "old_nondml_name ALTERTABLE = ''nondml-altertable''"
| "old_nondml_name DROPTABLE = ''nondml-droptable''"
| "old_nondml_name RENAMETABLE = ''nondml-renametable''"
| "old_nondml_name TRUNCATETABLE = ''nondml-truncatetable''"
| "old_nondml_name CREATEINDEX = ''nondml-createindex''"

definition count_nondml :: "string \<Rightarrow> (old_sync, unit) sx" where
  "count_nondml k = modify_sx (\<lambda>s. s\<lparr>statistics :=
     dict_set k ((case map_of (statistics s) k of None \<Rightarrow> 0 | Some n \<Rightarrow> n) + 1) (statistics s)\<rparr>)"

text \<open>An exception of the block becomes \<open>sys.exit(1)\<close>.\<close>

definition or_exit :: "('s, unit) sx \<Rightarrow> ('s, unit) sx" where
  "or_exit m = try_sx m (raise_sx (SystemExit 1))"

definition old_nondml :: "connector \<Rightarrow> operation_non_dml \<Rightarrow> (old_sync, unit) sx" where
  "old_nondml K n =
     bind_sx (old_merge_commit K) (\<lambda>_.
       or_exit
         (bind_sx (on_old (old_push_nondml K (nd_schema n) (nd_query n))) (\<lambda>_.
          bind_sx (count_stat ''nomdml'') (\<lambda>_. count_nondml (old_nondml_name (oper_type n))))))"

fun dml_stat :: "operation_dml \<Rightarrow> string" where
  "dml_stat (DmlDelete r) = ''dml-delete''"
| "dml_stat (DmlInsert r) = ''dml-insert''"
| "dml_stat (DmlUpdate r) = ''dml-update''"

definition old_dml :: "connector \<Rightarrow> operation_dml \<Rightarrow> (old_sync, unit) sx" where
  "old_dml K d =
     bind_sx (count_stat ''dml'') (\<lambda>_.
     bind_sx (count_stat (dml_stat d)) (\<lambda>_.
     bind_sx (lift_sx (dmlOperation2Sql d)) (\<lambda>(sql_text, params). on_old (old_push_dml K sql_text params))))"

definition old_commit :: "connector \<Rightarrow> (old_sync, unit) sx" where
  "old_commit K =
     bind_sx (count_stat ''trx'') (\<lambda>_. \<lambda>s.
       if o_merge_trx s then (Inr (), s\<lparr>o_allow_commit := True\<rparr>) else on_old (old_push_commit K) s)"

definition old_gtid :: "connector \<Rightarrow> string \<Rightarrow> int \<Rightarrow> operation_gtid \<Rightarrow> (old_sync, unit) sx" where
  "old_gtid K log_file log_pos g =
     bind_sx
       (\<lambda>s. if o_merge_trx s \<and> o_last_committed s \<noteq> last_committed g
            then bind_sx (old_merge_commit K) (\<lambda>_. modify_sx (\<lambda>s. s\<lparr>o_last_committed := last_committed g\<rparr>)) s
            else (Inr (), s))
       (\<lambda>_. bind_sx (lift_sx (py_int 10 (xid g)))
         (\<lambda>n. modify_sx (\<lambda>s. s\<lparr>o_latest_gtidset := dict_set (server_uuid g) n (o_latest_gtidset s),
                                o_latest_position := Some (log_file, log_pos)\<rparr>)))"

definition old_heartbeat :: "connector \<Rightarrow> clock \<Rightarrow> (old_sync, unit) sx" where
  "old_heartbeat K clock = (\<lambda>s.
     if o_last_operation s = Some OperationHeartbeat then
       bind_sx (old_clock clock) (\<lambda>t. bind_sx (modify_sx (\<lambda>s. s\<lparr>o_timestamp := t\<rparr>))
         (\<lambda>_. old_merge_commit K)) s
     else (Inr (), s))"

fun old_dispatch :: "connector \<Rightarrow> clock \<Rightarrow> yielded \<Rightarrow> operation \<Rightarrow> (old_sync, unit) sx" where
  "old_dispatch K clock y (OperationNonDML n) = old_nondml K n"
| "old_dispatch K clock y (OperationDML d) = old_dml K d"
| "old_dispatch K clock y OperationBegin = on_old (old_push_begin K)"
| "old_dispatch K clock y OperationCommit = old_commit K"
| "old_dispatch K clock y (OperationGtid g) = old_gtid K (y_log_file y) (y_log_pos y) g"
| "old_dispatch K clock y OperationHeartbeat = old_heartbeat K clock"

text \<open>Printing the positions calls \<open>items\<close> on \<open>checkpoint_gtidset\<close>.\<close>

definition show_gtidset :: "(old_sync, unit) sx" where
  "show_gtidset = (\<lambda>s. (if checkpoint_text s = None then Inr () else Inl AttributeError, s))"

definition old_periodic :: "clock \<Rightarrow> (old_sync, unit) sx" where
  "old_periodic clock =
     bind_sx (old_clock clock) (\<lambda>ts_1. \<lambda>s.
       if ts_1 \<ge> o_ts_0 s + 10 then
         bind_sx show_gtidset (\<lambda>_.
         bind_sx (old_clock clock) (\<lambda>_.
         modify_sx (\<lambda>s. s\<lparr>o_ts_0 := ts_1,
           o_allow_ckeckpoint := (if o_allow_commit s \<and> \<not> o_allow_ckeckpoint s then True else o_allow_ckeckpoint s)\<rparr>))) s
       else (Inr (), s))"

definition old_after :: "clock \<Rightarrow> yielded \<Rightarrow> (old_sync, unit) sx" where
  "old_after clock y =
     bind_sx (modify_sx (\<lambda>s. if y_operation y \<noteq> OperationHeartbeat
                             then s\<lparr>o_timestamp := of_int (y_timestamp y)\<rparr> else s)) (\<lambda>_.
     bind_sx (old_periodic clock) (\<lambda>_.
     modify_sx (\<lambda>s. s\<lparr>o_last_operation := Some (y_operation y)\<rparr>)))"

definition old_iteration :: "connector \<Rightarrow> clock \<Rightarrow> yielded \<Rightarrow> (old_sync, unit) sx" where
  "old_iteration K clock y = bind_sx (old_dispatch K clock y (y_operation y)) (\<lambda>_. old_after clock y)"

definition old_skipped :: "old_sync \<Rightarrow> operation \<Rightarrow> bool" where
  "old_skipped s op = (case op of OperationDML d \<Rightarrow> excluded (o_exclude_tables s) d | _ \<Rightarrow> False)"

fun old_run_loop :: "connector \<Rightarrow> clock \<Rightarrow> yielded list \<Rightarrow> py_exc option \<Rightarrow> (old_sync, unit) sx" where
  "old_run_loop K clock [] fin s = (case fin of None \<Rightarrow> (Inr (), s) | Some e \<Rightarrow> (Inl e, s))"
| "old_run_loop K clock (y # ys) fin s =
     (if old_skipped s (y_operation y) then old_run_loop K clock ys fin s
      else case old_iteration K clock y s of
        (Inl e, s') \<Rightarrow> (Inl e, s')
      | (Inr _, s') \<Rightarrow> old_run_loop K clock ys fin s')"

definition old_run :: "connector \<Rightarrow> clock \<Rightarrow> yielded list \<times> py_exc option \<Rightarrow> (old_sync, unit) sx" where
  "old_run K clock ops =
     bind_sx (old_clock clock) (\<lambda>t.
     bind_sx (modify_sx (\<lambda>s. s\<lparr>o_ts_0 := t, o_timestamp := 0\<rparr>)) (\<lambda>_.
     bind_sx (old_run_loop K clock (fst ops) (snd ops)) (\<lambda>_.
     bind_sx (old_merge_commit K) (\<lambda>_. show_gtidset))))"

end
