(* ===== verification/Sync_Old_Props.thy ===== *)
theory Sync_Old_Props
  imports Sync_Old Gtid_Codec
begin

text \<open>
  Properties of the older variant. Its loop follows the same plan as the loop of \<open>main.py\<close>, but every failure
  leaves it at once, so what is durable is a number of whole transactions whatever the connector answers; the
  newer loop lost this. Where nothing fails, both variants leave the same statements on the target.
\<close>

section \<open>The client\<close>

abbreviation o_dur :: "old_client \<Rightarrow> stmt list" where
  "o_dur c \<equiv> durable (base c)"

abbreviation o_uns :: "old_client \<Rightarrow> stmt list" where
  "o_uns c \<equiv> unsettled (base c)"

text \<open>Statements are pending only while the flag says so and the counter is positive, so \<open>old_push_commit\<close> rolls back
  only when nothing is pending.\<close>

definition old_inv :: "old_client \<Rightarrow> bool" where
  "old_inv c = (0 \<le> dml_cnt (base c) \<and> (o_uns c \<noteq> [] \<longrightarrow> active_trx c \<and> 1 \<le> dml_cnt (base c)))"

lemmas old_client_defs = old_push_begin_def old_push_dml_def old_push_commit_def old_push_nondml_def on_base_def
  set_active_def modify_sx_def with_ddl_cursor_def do_call_def set_cnt_def bind_sx_def lift_sx_def ret_sx_def Let_def

lemma old_begin_cases:
  assumes "old_push_begin K c = (r, c')" "old_inv c"
  shows "(r = Inr () \<and> old_inv c' \<and> active_trx c' \<and> o_dur c' = o_dur c \<and> o_uns c' = o_uns c)
    \<or> (\<exists>e. r = Inl e) \<and> o_dur c' = o_dur c"
  using assms by (auto simp: old_client_defs old_inv_def db_step_def split: if_splits)

lemma old_dml_cases:
  assumes "old_push_dml K q ps c = (r, c')" "old_inv c" "active_trx c"
  shows "(r = Inr () \<and> old_inv c' \<and> active_trx c' \<and> o_dur c' = o_dur c \<and> o_uns c' = o_uns c @ [SDml q ps])
    \<or> (\<exists>e. r = Inl e) \<and> o_dur c' = o_dur c"
  using assms by (auto simp: old_client_defs old_inv_def db_step_def split: if_splits)

lemma old_commit_cases:
  assumes "old_push_commit K c = (r, c')" "old_inv c"
  shows "(r = Inr () \<and> old_inv c' \<and> o_dur c' = o_dur c @ o_uns c \<and> o_uns c' = [])
    \<or> (\<exists>e. r = Inl e) \<and> o_dur c' = o_dur c"
  using assms by (auto simp: old_client_defs old_inv_def db_step_def split: if_splits)

lemma old_nondml_cases:
  assumes "old_push_nondml K db q c = (r, c')" "old_inv c"
  shows "(r = Inr () \<and> old_inv c' \<and> o_dur c' = o_dur c @ o_uns c @ [SDdl q] \<and> o_uns c' = [])
    \<or> (\<exists>e. r = Inl e) \<and> (o_dur c' = o_dur c \<or> o_dur c' = o_dur c @ o_uns c @ [SDdl q])"
  using assms
  by (auto simp: old_client_defs old_inv_def db_step_def split: if_splits option.splits sum.splits prod.splits)

text \<open>With calls that succeed, the commands do.\<close>

lemma old_commands_ok:
  assumes "reliable K"
  shows "\<exists>c'. old_push_begin K c = (Inr (), c')" "\<exists>c'. old_push_dml K q ps c = (Inr (), c')"
    "\<exists>c'. old_push_commit K c = (Inr (), c')" "\<exists>c'. old_push_nondml K db q c = (Inr (), c')"
  using assms by (auto simp: old_client_defs reliable_def split: option.splits)

section \<open>One operation\<close>

definition old_plan_of :: "old_sync \<Rightarrow> plan_state" where
  "old_plan_of s = \<lparr>p_allow = o_allow_commit s, p_last = o_last_committed s,
     p_beat = (o_last_operation s = Some OperationHeartbeat)\<rparr>"

lemma on_oldE:
  assumes "on_old m s = (r, s')"
  obtains c where "m (o_mc s) = (r, c)" "s' = s\<lparr>o_mc := c\<rparr>"
  using assms by (auto simp: on_old_def split: prod.splits)

lemma count_statE:
  assumes "count_stat k s = (r, s')"
  obtains st where "s' = s\<lparr>statistics := st\<rparr>" "r = Inr () \<or> (\<exists>e. r = Inl e)"
proof
  show "s' = s\<lparr>statistics := statistics s'\<rparr>" using assms by (auto simp: count_stat_def split: option.splits)
  show "r = Inr () \<or> (\<exists>e. r = Inl e)" by (cases r) auto
qed

lemma count_stat_bindE:
  assumes "bind_sx (count_stat k) f s = (r, s')"
  obtains (missing_key) e where "r = Inl e" "s' = s"
    | (counted) st where "f () (s\<lparr>statistics := st\<rparr>) = (r, s')"
  using assms by (auto simp: bind_sx_def count_stat_def split: option.splits)

text \<open>What a step may do: succeed and do what the plan says, or fail and leave the durable statements as they were
  or as they are with all that was pending (or with the DDL statement too).\<close>

definition step_ok :: "old_sync \<Rightarrow> cmd list \<Rightarrow> plan_state \<Rightarrow> unit res \<Rightarrow> old_sync \<Rightarrow> bool" where
  "step_ok s cs p r s' = (r = Inr () \<and> old_inv (o_mc s') \<and> old_plan_of s' = p
     \<and> (o_dur (o_mc s'), o_uns (o_mc s')) = fold meaning cs (o_dur (o_mc s), o_uns (o_mc s)))"

definition step_failed :: "(string, string list) dict \<Rightarrow> operation \<Rightarrow> old_sync \<Rightarrow> unit res \<Rightarrow> old_sync \<Rightarrow> bool" where
  "step_failed ex op s r s' = ((\<exists>e. r = Inl e) \<and>
     (o_dur (o_mc s') = o_dur (o_mc s)
      \<or> (settles op \<or> is_ddl op) \<and> o_dur (o_mc s') = o_dur (o_mc s) @ o_uns (o_mc s)
      \<or> is_ddl op \<and> o_dur (o_mc s') = o_dur (o_mc s) @ o_uns (o_mc s) @ effect ex op))"

lemma old_merge_commit_cases:
  assumes "old_merge_commit K s = (r, s')" "old_inv (o_mc s)"
  shows "step_ok s (flush (old_plan_of s)) ((old_plan_of s)\<lparr>p_allow := False\<rparr>) r s'
    \<or> (\<exists>e. r = Inl e) \<and> (o_dur (o_mc s') = o_dur (o_mc s) \<or> o_dur (o_mc s') = o_dur (o_mc s) @ o_uns (o_mc s))"
  using assms old_commit_cases [of K "o_mc s"]
  by (auto simp: old_merge_commit_def step_ok_def flush_def old_plan_of_def modify_sx_def Let_def
      elim!: bind_sxE on_oldE count_statE split: if_splits)

lemma old_nondml_step:
  assumes "old_nondml K n s = (r, s')" "old_inv (o_mc s)"
  shows "step_ok s (flush (old_plan_of s) @ [CDdl (nd_schema n) (nd_query n)]) ((old_plan_of s)\<lparr>p_allow := False\<rparr>) r s'
    \<or> step_failed ex (OperationNonDML n) s r s'"
  using assms(1) unfolding old_nondml_def
proof (cases rule: bind_sxE)
  case (raise e)
  then show ?thesis using old_merge_commit_cases [OF raise(1) assms(2)]
    by (auto simp: step_ok_def step_failed_def is_ddl_def)
next
  case (next_step u s1)
  let ?m = "bind_sx (on_old (old_push_nondml K (nd_schema n) (nd_query n))) (\<lambda>_.
          bind_sx (count_stat ''nomdml'') (\<lambda>_. count_nondml (old_nondml_name (oper_type n))))"
  have ok: "step_ok s (flush (old_plan_of s)) ((old_plan_of s)\<lparr>p_allow := False\<rparr>) (Inr ()) s1"
    using old_merge_commit_cases [OF next_step(1) assms(2)] by auto
  obtain r2 where m: "?m s1 = (r2, s')" "(\<exists>e. r = Inl e \<and> (\<exists>e2. r2 = Inl e2)) \<or> r = r2"
    using next_step(2) by (auto simp: or_exit_def raise_sx_def elim!: try_sxE)
  from m(1) obtain c r1 where c: "old_push_nondml K (nd_schema n) (nd_query n) (o_mc s1) = (r1, c)" "o_mc s' = c"
      "(\<exists>e. r1 = Inl e) \<longrightarrow> (\<exists>e. r2 = Inl e)" "r2 = Inr () \<longrightarrow> old_plan_of s' = old_plan_of s1"
    by (auto simp: count_nondml_def modify_sx_def old_plan_of_def elim!: bind_sxE on_oldE count_statE)
  have i: "old_inv (o_mc s1)" "o_dur (o_mc s1) @ o_uns (o_mc s1) = o_dur (o_mc s) @ o_uns (o_mc s)"
      "o_dur (o_mc s1) = o_dur (o_mc s) \<or> o_dur (o_mc s1) = o_dur (o_mc s) @ o_uns (o_mc s)"
    using ok by (auto simp: step_ok_def flush_def split: if_splits)
  have d: "o_dur (o_mc s1) @ o_uns (o_mc s1) @ x = o_dur (o_mc s) @ o_uns (o_mc s) @ x" for x
    using i(2) by (metis append_assoc)
  note cs = old_nondml_cases [OF c(1) i(1)]
  show ?thesis
  proof (cases "r2 = Inr ()")
    case True
    with m(2) c have "r = Inr ()" "old_plan_of s' = old_plan_of s1" "\<nexists>e. r1 = Inl e" by auto
    moreover from ok have "fold meaning (flush (old_plan_of s)) (o_dur (o_mc s), o_uns (o_mc s)) = (o_dur (o_mc s1), o_uns (o_mc s1))"
      by (simp add: step_ok_def)
    ultimately show ?thesis using cs ok c(2) by (auto simp: step_ok_def d)
  next
    case False
    then have "\<exists>e. r = Inl e" using m(2) by (cases r2) auto
    with cs i(3) c(2) show ?thesis by (auto simp: step_failed_def is_ddl_def effect_def d)
  qed
qed

lemma old_dml_step:
  assumes "old_dml K d s = (r, s')" "old_inv (o_mc s)" "active_trx (o_mc s)" "\<not> excluded ex d"
  shows "(case plan_op m (old_plan_of s) (OperationDML d) of (cs, p) \<Rightarrow> step_ok s cs p r s' \<and> active_trx (o_mc s'))
    \<or> step_failed ex (OperationDML d) s r s'"
proof -
  have same: "step_failed ex (OperationDML d) s (Inl e) s'" if "o_mc s' = o_mc s" for e
    using that by (simp add: step_failed_def)
  from assms(1) show ?thesis
    unfolding old_dml_def
  proof (cases rule: count_stat_bindE)
    case (counted st)
    from counted show ?thesis
    proof (cases rule: count_stat_bindE)
      case (counted st2)
      let ?s = "s\<lparr>statistics := st, statistics := st2\<rparr>"
      show ?thesis
      proof (cases "dmlOperation2Sql d")
        case (Inr x)
        with counted obtain c where c: "old_push_dml K (fst x) (snd x) (o_mc s) = (r, c)" "s' = ?s\<lparr>o_mc := c\<rparr>"
          by (auto simp: lift_sx_def bind_sx_ok split_beta elim!: on_oldE)
        have "old_plan_of s' = old_plan_of s" by (simp add: c(2) old_plan_of_def)
        with old_dml_cases [OF c(1) assms(2,3)] Inr c(2) show ?thesis
          by (auto simp: step_ok_def step_failed_def split: prod.splits)
      qed (use counted same in \<open>auto simp: lift_sx_def bind_sx_def\<close>)
    qed (use same in auto)
  qed (use same in auto)
qed

lemma old_silent_step:
  assumes "old_dispatch K clock y op s = (r, s')" "old_inv (o_mc s)" "\<not> is_ddl op" "\<nexists>d. op = OperationDML d"
  shows "(case plan_op (o_merge_trx s) (old_plan_of s) op of (cs, p) \<Rightarrow>
      step_ok s cs p r s' \<and> (op = OperationBegin \<longrightarrow> active_trx (o_mc s')))
    \<or> step_failed ex op s r s'"
proof (cases op)
  case OperationBegin
  with assms(1) obtain c where c: "old_push_begin K (o_mc s) = (r, c)" "s' = s\<lparr>o_mc := c\<rparr>" by (auto elim: on_oldE)
  with old_begin_cases [OF c(1) assms(2)] OperationBegin show ?thesis
    by (auto simp: step_ok_def step_failed_def old_plan_of_def)
next
  case OperationCommit
  with assms(1) show ?thesis
    using old_commit_cases [of K "o_mc s"] assms(2)
    by (fastforce simp: old_commit_def step_ok_def step_failed_def old_plan_of_def settles_def
        elim!: bind_sxE count_statE on_oldE split: if_splits)
next
  case (OperationGtid g)
  show ?thesis
  proof (cases "o_merge_trx s \<and> o_last_committed s \<noteq> last_committed g")
    case True
    obtain r1 s1 where m: "old_merge_commit K s = (r1, s1)" by fastforce
    note mc = old_merge_commit_cases [OF m assms(2)]
    show ?thesis
    proof (cases r1)
      case (Inl e)
      with m assms(1) OperationGtid True have "r = Inl e" "s' = s1" by (auto simp: old_gtid_def bind_sx_def)
      with mc Inl OperationGtid show ?thesis by (auto simp: step_ok_def step_failed_def settles_def)
    next
      case (Inr u)
      with m assms(1) OperationGtid True have
        "bind_sx (lift_sx (py_int 10 (xid g))) (\<lambda>n. modify_sx (\<lambda>s. s\<lparr>o_latest_gtidset := dict_set (server_uuid g) n (o_latest_gtidset s),
            o_latest_position := Some (y_log_file y, y_log_pos y)\<rparr>)) (s1\<lparr>o_last_committed := last_committed g\<rparr>) = (r, s')"
        by (simp add: old_gtid_def bind_sx_def modify_sx_def)
      with mc Inr OperationGtid True show ?thesis
        by (cases "py_int 10 (xid g)")
          (auto simp: lift_sx_def bind_sx_def modify_sx_def step_ok_def step_failed_def settles_def old_plan_of_def flush_def)
    qed
  next
    case False
    with assms(1,2) OperationGtid show ?thesis
      by (cases "py_int 10 (xid g)")
        (auto simp: old_gtid_def lift_sx_def bind_sx_def modify_sx_def step_ok_def step_failed_def old_plan_of_def)
  qed
next
  case OperationHeartbeat
  show ?thesis
  proof (cases "o_last_operation s = Some OperationHeartbeat")
    case True
    let ?s = "s\<lparr>o_ticks := o_ticks s + 1, o_timestamp := clock (o_ticks s)\<rparr>"
    have m: "old_merge_commit K ?s = (r, s')"
      using assms(1) OperationHeartbeat True by (simp add: old_heartbeat_def old_clock_def modify_sx_def bind_sx_def)
    have "old_plan_of ?s = old_plan_of s" by (simp add: old_plan_of_def)
    with old_merge_commit_cases [OF m] assms(2) OperationHeartbeat True show ?thesis
      by (auto simp: step_ok_def step_failed_def settles_def old_plan_of_def)
  next
    case False
    with assms(1,2) OperationHeartbeat show ?thesis
      by (auto simp: old_heartbeat_def step_ok_def old_plan_of_def)
  qed
qed (use assms(3,4) in \<open>auto simp: is_ddl_def\<close>)

lemma old_dispatch_step:
  assumes "old_dispatch K clock y op s = (r, s')" "old_inv (o_mc s)" "\<not> old_skipped s op"
    and "(\<exists>d. op = OperationDML d) \<longrightarrow> active_trx (o_mc s)"
  shows "(case plan_op (o_merge_trx s) (old_plan_of s) op of (cs, p) \<Rightarrow>
      step_ok s cs p r s' \<and> (op = OperationBegin \<or> (\<exists>d. op = OperationDML d) \<longrightarrow> active_trx (o_mc s')))
    \<or> step_failed (o_exclude_tables s) op s r s'"
proof (cases op)
  case (OperationNonDML n)
  then show ?thesis using old_nondml_step [of K n s r s'] assms(1,2) by auto
next
  case (OperationDML d)
  then show ?thesis using old_dml_step [of K d s r s' "o_exclude_tables s" "o_merge_trx s"] assms
    by (auto simp: old_skipped_def split: prod.splits)
qed (use old_silent_step [OF assms(1,2)] in \<open>auto simp: is_ddl_def split: prod.splits\<close>)

lemma old_merge_commit_frame:
  "old_merge_commit K s = (r, s') \<Longrightarrow> o_exclude_tables s' = o_exclude_tables s \<and> o_merge_trx s' = o_merge_trx s
    \<and> o_last_operation s' = o_last_operation s"
  by (auto simp: old_merge_commit_def modify_sx_def Let_def elim!: bind_sxE on_oldE count_statE split: if_splits)

lemma old_dispatch_frame:
  assumes "old_dispatch K clock y op s = (r, s')"
  shows "o_exclude_tables s' = o_exclude_tables s" "o_merge_trx s' = o_merge_trx s"
  using assms
  by (cases op; auto simp: old_nondml_def old_dml_def old_commit_def old_gtid_def old_heartbeat_def or_exit_def
      modify_sx_def raise_sx_def lift_sx_def old_clock_def count_nondml_def split_beta
      elim!: bind_sxE on_oldE try_sxE count_statE dest!: old_merge_commit_frame split: if_splits)+

lemma old_after_frame:
  assumes "old_after clock y s = (r, s')"
  shows "o_mc s' = o_mc s" "o_exclude_tables s' = o_exclude_tables s" "o_merge_trx s' = o_merge_trx s"
    "r = Inr () \<Longrightarrow> old_plan_of s' = (old_plan_of s)\<lparr>p_beat := (y_operation y = OperationHeartbeat)\<rparr>"
  using assms
  by (auto simp: old_after_def old_periodic_def modify_sx_def old_clock_def show_gtidset_def old_plan_of_def
      elim!: bind_sxE split: if_splits)

section \<open>The loop\<close>

text \<open>\<open>tracks\<close>: the first \<open>i\<close> operations have been done as planned.\<close>

definition tracks ::
    "operation list \<Rightarrow> stmt list \<Rightarrow> (string, string list) dict \<Rightarrow> bool \<Rightarrow> plan_state \<Rightarrow> nat \<Rightarrow> old_sync \<Rightarrow> bool" where
  "tracks ops d0 ex m p0 i s =
     (old_inv (o_mc s) \<and> o_exclude_tables s = ex \<and> o_merge_trx s = m
      \<and> (\<exists>cs d u. plan ex m p0 (take i ops) = (cs, old_plan_of s) \<and> fold meaning cs ([], []) = (d, u)
           \<and> o_dur (o_mc s) = d0 @ d \<and> o_uns (o_mc s) = u))"

lemma tracksE:
  assumes "tracks ops d0 ex m p0 i s" "i \<le> length ops"
  obtains k where "k \<le> i" "cut ops k" "o_dur (o_mc s) = d0 @ all_effects ex (take k ops)"
    "o_dur (o_mc s) @ o_uns (o_mc s) = d0 @ all_effects ex (take i ops)"
proof -
  obtain cs d u where c: "plan ex m p0 (take i ops) = (cs, old_plan_of s)" "fold meaning cs ([], []) = (d, u)"
      "o_dur (o_mc s) = d0 @ d" "o_uns (o_mc s) = u"
    using assms(1) by (auto simp: tracks_def)
  with plan_cuts [OF assms(2) c(1,2)] that show ?thesis by auto
qed

lemma tracks_Suc:
  assumes "tracks ops d0 ex m p0 i s" "i < length ops" "plan_step ex m (old_plan_of s) (ops ! i) = (cs, old_plan_of s')"
    and "(o_dur (o_mc s'), o_uns (o_mc s')) = fold meaning cs (o_dur (o_mc s), o_uns (o_mc s))"
    and "old_inv (o_mc s')" "o_exclude_tables s' = ex" "o_merge_trx s' = m"
  shows "tracks ops d0 ex m p0 (Suc i) s'"
proof -
  obtain cs0 d u where c: "plan ex m p0 (take i ops) = (cs0, old_plan_of s)" "fold meaning cs0 ([], []) = (d, u)"
      "o_dur (o_mc s) = d0 @ d" "o_uns (o_mc s) = u"
    using assms(1) by (auto simp: tracks_def)
  have "plan ex m p0 (take (Suc i) ops) = (cs0 @ cs, old_plan_of s')"
    using assms(2,3) c(1) by (simp add: take_Suc_conv_app_nth plan_append)
  moreover have "(o_dur (o_mc s'), o_uns (o_mc s')) = map_prod ((@) d0) id (fold meaning (cs0 @ cs) ([], []))"
    using assms(4) c(2-4) meaning_shift [of cs d0 d u] by simp
  moreover obtain d' u' where "fold meaning (cs0 @ cs) ([], []) = (d', u')" by fastforce
  ultimately show ?thesis using assms(5-7) by (auto simp: tracks_def)
qed

text \<open>The places where a failing run may stop: a cut, or just before a DDL statement.\<close>

definition boundary :: "operation list \<Rightarrow> nat \<Rightarrow> bool" where
  "boundary ops k = (k \<le> length ops \<and> (cut ops k \<or> k < length ops \<and> is_ddl (ops ! k)))"

lemma tracks_boundary:
  assumes "tracks ops d0 ex m p0 i s" "i \<le> length ops"
  shows "\<exists>k. boundary ops k \<and> o_dur (o_mc s) = d0 @ all_effects ex (take k ops)"
proof -
  obtain k where "k \<le> i" "cut ops k" "o_dur (o_mc s) = d0 @ all_effects ex (take k ops)"
    using tracksE [OF assms] by blast
  with assms(2) show ?thesis by (intro exI [of _ k]) (simp add: boundary_def)
qed

lemma step_failed_boundary:
  assumes "tracks ops d0 ex m p0 i s" "i < length ops" "step_failed ex (ops ! i) s r s'"
  shows "\<exists>k. boundary ops k \<and> o_dur (o_mc s') = d0 @ all_effects ex (take k ops)"
proof -
  obtain k where k: "k \<le> i" "cut ops k" "o_dur (o_mc s) = d0 @ all_effects ex (take k ops)"
      "o_dur (o_mc s) @ o_uns (o_mc s) = d0 @ all_effects ex (take i ops)"
    using tracksE [OF assms(1)] assms(2) by (metis less_imp_le)
  have all: "o_dur (o_mc s) @ o_uns (o_mc s) @ effect ex (ops ! i) = d0 @ all_effects ex (take (Suc i) ops)"
    using k(4) assms(2) by (simp add: take_Suc_conv_app_nth flip: append_assoc)
  from assms(3) consider "o_dur (o_mc s') = o_dur (o_mc s)"
    | "settles (ops ! i) \<or> is_ddl (ops ! i)" "o_dur (o_mc s') = o_dur (o_mc s) @ o_uns (o_mc s)"
    | "is_ddl (ops ! i)" "o_dur (o_mc s') = o_dur (o_mc s) @ o_uns (o_mc s) @ effect ex (ops ! i)"
    by (auto simp: step_failed_def)
  then show ?thesis
  proof cases
    case 1
    with k assms(2) show ?thesis by (intro exI [of _ k]) (simp add: boundary_def)
  next
    case 2
    with k(4) assms(2) show ?thesis by (intro exI [of _ i]) (auto simp: boundary_def cut_def)
  next
    case 3
    with all assms(2) show ?thesis by (intro exI [of _ "Suc i"]) (simp add: boundary_def cut_def)
  qed
qed

text \<open>Every statement comes after the begin of its transaction.\<close>

fun begun :: "bool \<Rightarrow> operation list \<Rightarrow> bool" where
  "begun b [] = True"
| "begun b (op # ops) =
     (case op of OperationBegin \<Rightarrow> begun True ops | OperationDML _ \<Rightarrow> b \<and> begun b ops | _ \<Rightarrow> begun False ops)"

lemma begun_take: "begun b ops \<Longrightarrow> begun b (take n ops)"
  by (induction b ops arbitrary: n rule: begun.induct) (auto simp: take_Cons split: nat.splits operation.splits)

lemma begun_mono: "begun b ops \<Longrightarrow> begun True ops"
  by (induction b ops rule: begun.induct) (auto split: operation.splits)

lemma begun_stream: "begun b (stream_ops us)"
proof (induction us arbitrary: b)
  case (Cons u us)
  have "begun True (map OperationDML ds @ OperationCommit # stream_ops us)" for ds
    using Cons by (induction ds) auto
  with Cons show ?case by (cases u) auto
qed simp

lemma old_iteration_step:
  assumes "tracks ops d0 ex m p0 i s" "i < length ops" "y_operation y = ops ! i" "\<not> old_skipped s (ops ! i)"
    and "(\<exists>d. ops ! i = OperationDML d) \<longrightarrow> active_trx (o_mc s)" "old_iteration K clock y s = (r, s')"
  shows "(r = Inr () \<longrightarrow> tracks ops d0 ex m p0 (Suc i) s'
      \<and> (ops ! i = OperationBegin \<or> (\<exists>d. ops ! i = OperationDML d) \<longrightarrow> active_trx (o_mc s')))
    \<and> (r \<noteq> Inr () \<longrightarrow> (\<exists>k. boundary ops k \<and> o_dur (o_mc s') = d0 @ all_effects ex (take k ops)))"
proof -
  let ?op = "ops ! i"
  have s: "old_inv (o_mc s)" "o_exclude_tables s = ex" "o_merge_trx s = m" using assms(1) by (auto simp: tracks_def)
  obtain r1 s1 where d: "old_dispatch K clock y ?op s = (r1, s1)" by fastforce
  note fr = old_dispatch_frame [OF d]
  obtain cs p where cs: "plan_op m (old_plan_of s) ?op = (cs, p)" by fastforce
  consider (ok) "step_ok s cs p r1 s1" "?op = OperationBegin \<or> (\<exists>d. ?op = OperationDML d) \<longrightarrow> active_trx (o_mc s1)"
    | (bad) "step_failed ex ?op s r1 s1"
    using old_dispatch_step [OF d s(1) assms(4,5)] cs s by auto
  then show ?thesis
  proof cases
    case bad
    then have "r \<noteq> Inr ()" "s' = s1" using assms(3,6) d by (auto simp: old_iteration_def bind_sx_def step_failed_def)
    with step_failed_boundary [OF assms(1,2) bad] show ?thesis by simp
  next
    case ok
    then have a: "old_after clock y s1 = (r, s')"
      using assms(3,6) d by (simp add: old_iteration_def bind_sx_def step_ok_def)
    note fa = old_after_frame [OF a]
    have ps: "plan_step ex m (old_plan_of s) ?op = (cs, p\<lparr>p_beat := (?op = OperationHeartbeat)\<rparr>)"
      using cs assms(4) unfolding old_skipped_def s(2) plan_step_def by simp
    let ?s = "s'\<lparr>o_allow_commit := o_allow_commit s1, o_last_committed := o_last_committed s1, o_last_operation := Some ?op\<rparr>"
    have "old_plan_of ?s = p\<lparr>p_beat := (?op = OperationHeartbeat)\<rparr>"
      using ok(1) by (auto simp: step_ok_def old_plan_of_def)
    with ok(1) ps fa(1-3) fr s have t: "tracks ops d0 ex m p0 (Suc i) ?s"
      by (intro tracks_Suc [OF assms(1,2)]) (simp_all add: step_ok_def)
    have "tracks ops d0 ex m p0 (Suc i) s'" if "r = Inr ()"
    proof -
      have "old_plan_of s' = old_plan_of ?s"
        using fa(4) [OF that] ok(1) \<open>old_plan_of ?s = _\<close> by (simp add: step_ok_def assms(3))
      with t show ?thesis by (simp add: tracks_def)
    qed
    moreover have "\<exists>k. boundary ops k \<and> o_dur (o_mc s') = d0 @ all_effects ex (take k ops)"
      using tracks_boundary [OF t] assms(2) by simp
    ultimately show ?thesis using ok(2) fa(1) by simp
  qed
qed

lemma old_run_loop_tracks:
  assumes "tracks ops d0 ex m p0 i s" "map y_operation ys = take (length ys) (drop i ops)" "i \<le> length ops"
    and "begun b (map y_operation ys)" "b \<longrightarrow> active_trx (o_mc s)" "old_run_loop K clock ys fin s = (r, s')"
  shows "(\<exists>k. boundary ops k \<and> o_dur (o_mc s') = d0 @ all_effects ex (take k ops))
    \<and> (r = Inr () \<longrightarrow> fin = None \<and> tracks ops d0 ex m p0 (i + length ys) s')"
  using assms
proof (induction ys arbitrary: i s b)
  case Nil
  then have "s' = s" "r = Inr () \<longrightarrow> fin = None" by (auto split: option.splits)
  with Nil.prems(1) tracks_boundary [OF Nil.prems(1,3)] show ?case by simp
next
  case (Cons y ys)
  have i: "i < length ops" using Cons.prems(2) by (cases "i < length ops") auto
  then have op: "y_operation y = ops ! i" and rest: "map y_operation ys = take (length ys) (drop (Suc i) ops)"
    using Cons.prems(2) by (auto simp: Cons_nth_drop_Suc [symmetric])
  have s: "o_exclude_tables s = ex" "o_merge_trx s = m" using Cons.prems(1) by (auto simp: tracks_def)
  show ?case
  proof (cases "old_skipped s (ops ! i)")
    case True
    then have "plan_step ex m (old_plan_of s) (ops ! i) = ([], old_plan_of s)"
      by (auto simp: plan_step_def old_skipped_def s split: operation.splits)
    then have t: "tracks ops d0 ex m p0 (Suc i) s"
      using Cons.prems(1) by (intro tracks_Suc [OF Cons.prems(1) i]) (auto simp: tracks_def)
    have "begun b (map y_operation ys)"
      using Cons.prems(4) op True by (auto simp: old_skipped_def split: operation.splits)
    from Cons.IH [OF t rest _ this Cons.prems(5)] Cons.prems(6) i True op show ?thesis by simp
  next
    case False
    have dml: "(\<exists>d. ops ! i = OperationDML d) \<longrightarrow> active_trx (o_mc s)" using Cons.prems(4,5) op by auto
    obtain r1 s1 where it: "old_iteration K clock y s = (r1, s1)" by fastforce
    note step = old_iteration_step [OF Cons.prems(1) i op False dml it]
    show ?thesis
    proof (cases "r1 = Inr ()")
      case True
      let ?b = "(ops ! i = OperationBegin \<or> (\<exists>d. ops ! i = OperationDML d))"
      have "begun ?b (map y_operation ys)"
        using Cons.prems(4) op begun_mono by (auto split: operation.splits)
      moreover have "old_run_loop K clock ys fin s1 = (r, s')" using Cons.prems(6) False op it True by simp
      moreover have "?b \<longrightarrow> active_trx (o_mc s1)" using step True by simp
      ultimately show ?thesis using Cons.IH [of "Suc i" s1 ?b] step True rest i by simp
    next
      case err: False
      then obtain e where "r1 = Inl e" by (cases r1) auto
      with Cons.prems(6) False op it have "r = Inl e" "s' = s1" by simp_all
      with step err show ?thesis by auto
    qed
  qed
qed

lemma stream_before_ddl:
  assumes "k < length (stream_ops us)" "is_ddl (stream_ops us ! k)"
  shows "\<exists>j \<le> length us. all_effects ex (take k (stream_ops us)) = all_effects ex (stream_ops (take j us))"
  using assms
proof (induction us arbitrary: k)
  case (Cons u us)
  show ?case
  proof (cases "k < length (unit_ops u)")
    case True
    have "k = 1 \<and> (\<exists>g n. u = Ddl g n)"
      using Cons.prems(2) True by (cases u) (auto simp: is_ddl_def nth_append nth_Cons' split: if_splits)
    then show ?thesis by (intro exI [of _ 0]) (auto simp: effect_def)
  next
    case False
    let ?k = "k - length (unit_ops u)"
    have "?k < length (stream_ops us)" "is_ddl (stream_ops us ! ?k)" using Cons.prems False by (auto simp: nth_append)
    from Cons.IH [OF this] obtain j where "j \<le> length us"
        "all_effects ex (take ?k (stream_ops us)) = all_effects ex (stream_ops (take j us))" by blast
    with False show ?thesis by (intro exI [of _ "Suc j"]) simp
  qed
qed simp

lemma stream_boundary:
  assumes "boundary (stream_ops us) k"
  shows "\<exists>j \<le> length us. all_effects ex (take k (stream_ops us)) = all_effects ex (stream_ops (take j us))"
  using assms stream_cut [of us k ex] stream_before_ddl [of k us ex] by (auto simp: boundary_def)

section \<open>Properties\<close>

text \<open>A synchroniser as its constructor leaves it.\<close>

definition old_ready :: "old_sync \<Rightarrow> bool" where
  "old_ready s = (old_inv (o_mc s) \<and> o_uns (o_mc s) = [] \<and> \<not> o_allow_commit s)"

definition old_entry :: "clock \<Rightarrow> old_sync \<Rightarrow> old_sync" where
  "old_entry clock s = s\<lparr>o_ticks := o_ticks s + 1, o_ts_0 := clock (o_ticks s), o_timestamp := 0\<rparr>"

lemma old_run_unfold:
  "old_run K clock ops s = bind_sx (old_run_loop K clock (fst ops) (snd ops)) (\<lambda>_.
     bind_sx (old_merge_commit K) (\<lambda>_. show_gtidset)) (old_entry clock s)"
  by (simp add: old_run_def old_clock_def modify_sx_def bind_sx_def old_entry_def)

lemma old_entry_tracks:
  "old_ready s \<Longrightarrow> tracks ops (o_dur (o_mc s)) (o_exclude_tables s) (o_merge_trx s) (old_plan_of s) 0 (old_entry clock s)"
  by (auto simp: tracks_def old_ready_def old_entry_def old_plan_of_def)

text \<open>After the loop over a whole stream, what is pending is waiting for the final commit.\<close>

lemma old_loop_settled:
  assumes "tracks (stream_ops us) d0 ex m p0 (length (stream_ops us)) s"
  shows "o_uns (o_mc s) \<noteq> [] \<longrightarrow> o_allow_commit s"
proof -
  obtain cs d u where "plan ex m p0 (stream_ops us) = (cs, old_plan_of s)" "fold meaning cs ([], []) = (d, u)"
      "o_uns (o_mc s) = u"
    using assms by (auto simp: tracks_def)
  with plan_stream_settled [of ex m p0 us cs "old_plan_of s" "[]" "[]" d u] show ?thesis by (simp add: old_plan_of_def)
qed

lemma show_gtidset_mc: "show_gtidset s = (r, s') \<Longrightarrow> s' = s"
  by (simp add: show_gtidset_def)

text \<open>C9: The older variant is atomic whatever the connector answers. On a stream of transactions and DDL
  statements that is cut anywhere by an exception, or that ends after a whole number of them, \<open>run\<close> leaves the
  effects of a number of whole transactions and DDL statements on the target, however it ends and whichever call
  fails. (In \<open>main.py\<close> a failing statement of a merged group commits the part before it.)\<close>

theorem old_run_atomic:
  assumes "old_ready s" "map y_operation ys = take n (stream_ops us)" "fin = None \<longrightarrow> length (stream_ops us) \<le> n"
  shows "\<exists>j \<le> length us. o_dur (o_mc (snd (old_run K clock (ys, fin) s)))
    = o_dur (o_mc s) @ all_effects (o_exclude_tables s) (stream_ops (take j us))"
proof -
  let ?ops = "stream_ops us" and ?ex = "o_exclude_tables s" and ?d0 = "o_dur (o_mc s)"
  obtain r1 s1 where l: "old_run_loop K clock ys fin (old_entry clock s) = (r1, s1)" by fastforce
  have ys: "map y_operation ys = take (length ys) (drop 0 ?ops)"
    using assms(2) by (metis drop0 length_map take_all_iff take_take min.cobounded2 min_def length_take order_refl)
  have "begun False (map y_operation ys)" unfolding assms(2) by (intro begun_take begun_stream)
  from old_run_loop_tracks [OF old_entry_tracks [OF assms(1), where ops = ?ops] ys _ this _ l]
  have t: "\<exists>k. boundary ?ops k \<and> o_dur (o_mc s1) = ?d0 @ all_effects ?ex (take k ?ops)"
      "r1 = Inr () \<longrightarrow> fin = None \<and> tracks ?ops ?d0 ?ex (o_merge_trx s) (old_plan_of s) (length ys) s1"
    by auto
  obtain j where j: "j \<le> length us" "o_dur (o_mc s1) = ?d0 @ all_effects ?ex (stream_ops (take j us))"
    using t(1) stream_boundary by metis
  show ?thesis
  proof (cases "r1 = Inr ()")
    case False
    then have "snd (old_run K clock (ys, fin) s) = s1" using l by (cases r1) (auto simp: old_run_unfold bind_sx_def)
    with j show ?thesis by auto
  next
    case True
    have len: "length ys = length ?ops"
      using assms(2,3) t(2) True by (metis length_map take_all)
    have tr: "tracks ?ops ?d0 ?ex (o_merge_trx s) (old_plan_of s) (length ?ops) s1" using t(2) True len by simp
    obtain r2 s2 where m: "old_merge_commit K s1 = (r2, s2)" by fastforce
    have s2: "o_mc (snd (old_run K clock (ys, fin) s)) = o_mc s2"
      using l True m by (cases r2) (auto simp: old_run_unfold bind_sx_def show_gtidset_def)
    have all: "o_dur (o_mc s1) @ o_uns (o_mc s1) = ?d0 @ all_effects ?ex (stream_ops (take (length us) us))"
      by (rule tracksE [OF tr]) simp_all
    have inv: "old_inv (o_mc s1)" using tr by (simp add: tracks_def)
    have "o_dur (o_mc s2) = o_dur (o_mc s1) \<or> o_dur (o_mc s2) = o_dur (o_mc s1) @ o_uns (o_mc s1)"
      using old_merge_commit_cases [OF m inv] by (auto simp: step_ok_def flush_def split: if_splits)
    then show ?thesis
    proof
      assume "o_dur (o_mc s2) = o_dur (o_mc s1)"
      with s2 j show ?thesis by auto
    next
      assume "o_dur (o_mc s2) = o_dur (o_mc s1) @ o_uns (o_mc s1)"
      with s2 all show ?thesis by (intro exI [of _ "length us"]) simp
    qed
  qed
qed

definition demo_old :: "bool \<Rightarrow> old_sync" where
  "demo_old m = old_start m [] ''u:1-1'' \<lparr>base = \<lparr>hist = [], dml_cnt = 0\<rparr>, active_trx = False\<rparr>"

lemma demo_old_ready: "old_ready (demo_old m)"
  by (simp add: demo_old_def old_start_def old_ready_def old_inv_def db_of_def)

theorem old_run_atomic_witness:
  "\<exists>j \<le> 2. o_dur (o_mc (snd (old_run failing_connector (\<lambda>_. 0) (map demo_yield (stream_ops demo_units), None) (demo_old True))))
    = all_effects [] (stream_ops (take j demo_units))"
proof -
  have "o_dur (o_mc (demo_old True)) = []" "o_exclude_tables (demo_old True) = []" "length demo_units = 2"
    by (simp_all add: demo_old_def old_start_def db_of_def demo_units_def)
  with old_run_atomic [OF demo_old_ready [of True], where ys = "map demo_yield (stream_ops demo_units)" and n = "length (stream_ops demo_units)"
      and us = demo_units and fin = None and K = failing_connector and clock = "\<lambda>_. 0"]
  show ?thesis by (simp add: map_demo_yield del: map_map)
qed

section \<open>Both variants\<close>

definition stat_keys :: "old_sync \<Rightarrow> bool" where
  "stat_keys s = list_all (\<lambda>k. map_of (statistics s) k \<noteq> None)
     [''dml'', ''nomdml'', ''trx-merge'', ''trx'', ''dml-delete'', ''dml-insert'', ''dml-update'']"

lemma count_stat_ok:
  assumes "stat_keys s" "k \<in> set [''dml'', ''nomdml'', ''trx-merge'', ''trx'', ''dml-delete'', ''dml-insert'', ''dml-update'']"
  shows "\<exists>st. count_stat k s = (Inr (), s\<lparr>statistics := st\<rparr>) \<and> stat_keys (s\<lparr>statistics := st\<rparr>)"
proof -
  obtain n where "map_of (statistics s) k = Some n" using assms by (auto simp: stat_keys_def)
  with assms show ?thesis by (auto simp: count_stat_def stat_keys_def)
qed

text \<open>\<open>steady t s\<close>: the report can be printed since a merged commit, or it was not due yet since the time \<open>t\<close>.\<close>

definition steady :: "rat \<Rightarrow> old_sync \<Rightarrow> bool" where
  "steady t s = (stat_keys s \<and> (checkpoint_text s = None \<or> o_ts_0 s = t))"

lemma steady_updates [simp]:
  "steady t (s\<lparr>o_mc := c\<rparr>) = steady t s" "steady t (s\<lparr>o_allow_commit := b\<rparr>) = steady t s"
  "steady t (s\<lparr>o_last_committed := i\<rparr>) = steady t s" "steady t (s\<lparr>o_latest_gtidset := g\<rparr>) = steady t s"
  "steady t (s\<lparr>o_latest_position := q\<rparr>) = steady t s" "steady t (s\<lparr>o_ticks := k\<rparr>) = steady t s"
  "steady t (s\<lparr>o_timestamp := w\<rparr>) = steady t s" "steady t s \<Longrightarrow> steady t (s\<lparr>checkpoint_text := None\<rparr>)"
  "steady t (s\<lparr>checkpoint_position := q\<rparr>) = steady t s" "steady t (s\<lparr>o_files := f\<rparr>) = steady t s"
  "steady t (s\<lparr>o_allow_ckeckpoint := b\<rparr>) = steady t s" "steady t (s\<lparr>o_last_operation := v\<rparr>) = steady t s"
  by (simp_all add: steady_def stat_keys_def)

lemma steady_count:
  assumes "steady t s" "k \<in> set [''dml'', ''nomdml'', ''trx-merge'', ''trx'', ''dml-delete'', ''dml-insert'', ''dml-update'']"
  obtains st where "count_stat k s = (Inr (), s\<lparr>statistics := st\<rparr>)" "steady t (s\<lparr>statistics := st\<rparr>)"
  using count_stat_ok [of s k] assms by (auto simp: steady_def)

lemma steady_nondml_count: "steady t s \<Longrightarrow> \<exists>s'. count_nondml k s = (Inr (), s') \<and> steady t s'"
  by (auto simp: count_nondml_def modify_sx_def steady_def stat_keys_def)

lemma old_merge_commit_ok:
  assumes "reliable K" "steady t s"
  shows "\<exists>s'. old_merge_commit K s = (Inr (), s') \<and> steady t s'"
proof (cases "o_allow_commit s")
  case True
  obtain c where c: "old_push_commit K (o_mc s) = (Inr (), c)" using old_commands_ok(3) [OF assms(1)] by blast
  obtain st where "count_stat ''trx-merge'' (s\<lparr>o_mc := c, o_allow_commit := False\<rparr>)
      = (Inr (), s\<lparr>o_mc := c, o_allow_commit := False, statistics := st\<rparr>)"
      "steady t (s\<lparr>o_mc := c, o_allow_commit := False, statistics := st\<rparr>)"
    using steady_count [of t "s\<lparr>o_mc := c, o_allow_commit := False\<rparr>" "''trx-merge''"] assms(2) by auto
  with True c show ?thesis
    by (auto simp: old_merge_commit_def on_old_def bind_sx_def modify_sx_def Let_def)
qed (use assms(2) in \<open>simp add: old_merge_commit_def\<close>)

lemma old_dispatch_ok:
  assumes "reliable K" "steady t s" "ok_op op"
  shows "\<exists>s'. old_dispatch K clock y op s = (Inr (), s') \<and> steady t s'"
proof (cases op)
  case (OperationNonDML n)
  obtain s1 where s1: "old_merge_commit K s = (Inr (), s1)" "steady t s1" using old_merge_commit_ok [OF assms(1,2)] by blast
  obtain c where c: "old_push_nondml K (nd_schema n) (nd_query n) (o_mc s1) = (Inr (), c)"
    using old_commands_ok(4) [OF assms(1)] by blast
  obtain st where st: "count_stat ''nomdml'' (s1\<lparr>o_mc := c\<rparr>) = (Inr (), s1\<lparr>o_mc := c, statistics := st\<rparr>)"
      "steady t (s1\<lparr>o_mc := c, statistics := st\<rparr>)"
    using steady_count [of t "s1\<lparr>o_mc := c\<rparr>" "''nomdml''"] s1(2) by auto
  obtain s2 where "count_nondml (old_nondml_name (oper_type n)) (s1\<lparr>o_mc := c, statistics := st\<rparr>) = (Inr (), s2)" "steady t s2"
    using steady_nondml_count [OF st(2)] by blast
  with OperationNonDML s1 c st show ?thesis
    by (auto simp: old_nondml_def or_exit_def try_sx_def on_old_def bind_sx_def)
next
  case (OperationDML d)
  obtain q ps where q: "dmlOperation2Sql d = Inr (q, ps)" using assms(3) OperationDML by (auto simp: is_ok_iff)
  obtain st where st: "count_stat ''dml'' s = (Inr (), s\<lparr>statistics := st\<rparr>)" "steady t (s\<lparr>statistics := st\<rparr>)"
    using steady_count [OF assms(2), where k = "''dml''"] by auto
  have k: "dml_stat d \<in> set [''dml'', ''nomdml'', ''trx-merge'', ''trx'', ''dml-delete'', ''dml-insert'', ''dml-update'']"
    by (cases d) simp_all
  obtain st2 where st2: "count_stat (dml_stat d) (s\<lparr>statistics := st\<rparr>) = (Inr (), s\<lparr>statistics := st2\<rparr>)" "steady t (s\<lparr>statistics := st2\<rparr>)"
    using steady_count [OF st(2) k] by auto
  obtain c where "old_push_dml K q ps (o_mc s) = (Inr (), c)" using old_commands_ok(2) [OF assms(1)] by blast
  with OperationDML q st st2 show ?thesis by (auto simp: old_dml_def lift_sx_def on_old_def bind_sx_def)
next
  case OperationBegin
  then show ?thesis using old_commands_ok(1) [OF assms(1), where c = "o_mc s"] assms(2) by (auto simp: on_old_def)
next
  case OperationCommit
  obtain st where "count_stat ''trx'' s = (Inr (), s\<lparr>statistics := st\<rparr>)" "steady t (s\<lparr>statistics := st\<rparr>)"
    using steady_count [OF assms(2), where k = "''trx''"] by auto
  moreover obtain c where "old_push_commit K (o_mc s) = (Inr (), c)" using old_commands_ok(3) [OF assms(1)] by blast
  ultimately show ?thesis using OperationCommit by (auto simp: old_commit_def on_old_def bind_sx_def)
next
  case (OperationGtid g)
  obtain n where n: "py_int 10 (xid g) = Inr n" using assms(3) OperationGtid by (auto simp: is_ok_iff)
  obtain s1 where "old_merge_commit K s = (Inr (), s1)" "steady t s1" using old_merge_commit_ok [OF assms(1,2)] by blast
  with OperationGtid n assms(2) show ?thesis by (auto simp: old_gtid_def lift_sx_def modify_sx_def bind_sx_def)
next
  case OperationHeartbeat
  let ?s = "s\<lparr>o_ticks := Suc (o_ticks s), o_timestamp := clock (o_ticks s)\<rparr>"
  have "steady t ?s" using assms(2) by simp
  from old_merge_commit_ok [OF assms(1) this] OperationHeartbeat assms(2) show ?thesis
    by (auto simp: old_heartbeat_def old_clock_def modify_sx_def bind_sx_def)
qed

lemma old_after_outcome:
  assumes "steady t s"
  shows "(\<exists>s'. old_after clock y s = (Inr (), s') \<and> steady t s')
    \<or> (\<exists>s' n. old_after clock y s = (Inl AttributeError, s') \<and> checkpoint_text s' \<noteq> None \<and> t + 10 \<le> clock n)"
  using assms
  by (auto simp: old_after_def old_periodic_def old_clock_def modify_sx_def bind_sx_def show_gtidset_def steady_def stat_keys_def)

lemma old_run_loop_outcome:
  assumes "reliable K" "steady t s" "\<forall>y \<in> set ys. ok_op (y_operation y)"
  shows "(\<exists>s'. old_run_loop K clock ys None s = (Inr (), s') \<and> steady t s')
    \<or> (\<exists>s' n. old_run_loop K clock ys None s = (Inl AttributeError, s') \<and> checkpoint_text s' \<noteq> None \<and> t + 10 \<le> clock n)"
  using assms(2,3)
proof (induction ys arbitrary: s)
  case (Cons y ys)
  show ?case
  proof (cases "old_skipped s (y_operation y)")
    case False
    obtain s1 where s1: "old_dispatch K clock y (y_operation y) s = (Inr (), s1)" "steady t s1"
      using old_dispatch_ok [OF assms(1) Cons.prems(1), of "y_operation y" clock y] Cons.prems(2) by auto
    then have i: "old_iteration K clock y s = old_after clock y s1" by (simp add: old_iteration_def bind_sx_def)
    from old_after_outcome [OF s1(2), of clock y] show ?thesis
    proof
      assume "\<exists>s'. old_after clock y s1 = (Inr (), s') \<and> steady t s'"
      then obtain s2 where "old_after clock y s1 = (Inr (), s2)" "steady t s2" by blast
      with Cons.IH [of s2] Cons.prems(2) False i show ?thesis by simp
    qed (use False i in auto)
  qed (use Cons in simp)
qed simp

lemma old_run_to_the_end:
  assumes "reliable K" "old_ready s" "stat_keys s"
    and "map y_operation ys = stream_ops us" "\<forall>op \<in> set (stream_ops us). ok_op op"
  shows "case fst (old_run_loop K clock ys None (old_entry clock s)) of
      Inr _ \<Rightarrow> o_uns (o_mc (snd (old_run K clock (ys, None) s))) = []
        \<and> o_dur (o_mc (snd (old_run K clock (ys, None) s))) = o_dur (o_mc s) @ effects (o_exclude_tables s) ys
    | Inl e \<Rightarrow> e = AttributeError \<and> (\<exists>n. clock (o_ticks s) + 10 \<le> clock n)
        \<and> checkpoint_text (snd (old_run K clock (ys, None) s)) \<noteq> None"
proof -
  let ?ops = "stream_ops us" and ?loop = "old_run_loop K clock ys None (old_entry clock s)"
  have "steady (clock (o_ticks s)) (old_entry clock s)" using assms(3) by (simp add: steady_def old_entry_def stat_keys_def)
  moreover have "\<forall>y \<in> set ys. ok_op (y_operation y)" using assms(4,5) by (metis image_eqI set_map)
  ultimately consider s1 where "?loop = (Inr (), s1)" "steady (clock (o_ticks s)) s1"
    | s1 n where "?loop = (Inl AttributeError, s1)" "checkpoint_text s1 \<noteq> None" "clock (o_ticks s) + 10 \<le> clock n"
    using old_run_loop_outcome [OF assms(1)] by blast
  then show ?thesis
  proof cases
    case (1 s1)
    note l = 1
    have len: "length ys = length ?ops" using assms(4) by (metis length_map)
    have "map y_operation ys = take (length ys) (drop 0 ?ops)" "begun False (map y_operation ys)"
      using assms(4) begun_stream len by simp_all
    from old_run_loop_tracks [OF old_entry_tracks [OF assms(2), where ops = ?ops] this(1) _ this(2) _ l(1)] len
    have tr: "tracks ?ops (o_dur (o_mc s)) (o_exclude_tables s) (o_merge_trx s) (old_plan_of s) (length ?ops) s1" by simp
    obtain s2 where m: "old_merge_commit K s1 = (Inr (), s2)" using old_merge_commit_ok [OF assms(1) l(2)] by blast
    have "old_inv (o_mc s1)" using tr by (simp add: tracks_def)
    from old_merge_commit_cases [OF m this] old_loop_settled [OF tr]
    have "o_uns (o_mc s2) = []" "o_dur (o_mc s2) = o_dur (o_mc s1) @ o_uns (o_mc s1)"
      by (auto simp: step_ok_def flush_def old_plan_of_def split: if_splits)
    moreover have "o_dur (o_mc s1) @ o_uns (o_mc s1) = o_dur (o_mc s) @ effects (o_exclude_tables s) ys"
      by (rule tracksE [OF tr]) (simp_all add: effects_map assms(4))
    moreover have "o_mc (snd (old_run K clock (ys, None) s)) = o_mc s2"
      using l(1) m by (simp add: old_run_unfold bind_sx_def show_gtidset_def)
    ultimately show ?thesis using l(1) by simp
  next
    case (2 s1 n)
    then show ?thesis by (auto simp: old_run_unfold bind_sx_def)
  qed
qed

text \<open>C8: The two variants agree. Over connectors whose calls succeed, on a whole stream of operations that can be
  translated, with or without merged commits on either side, the loop of \<open>main.py\<close> returns normally, and when the loop
  of \<open>main.bak1.py\<close> comes to the end of the stream as well, both have left the same new statements on the target, all of
  them durable. The only other outcome of the older loop is its report: it raises \<open>AttributeError\<close>, at the earliest ten
  seconds after the start and only while no merged commit has happened.\<close>

theorem variants_agree:
  assumes "faithful K" "reliable K" "ready s" "reliable K'" "old_ready s'" "stat_keys s'"
    and "o_exclude_tables s' = exclude_tables s"
    and "map y_operation ys = stream_ops us" "\<forall>op \<in> set (stream_ops us). ok_op op"
  shows "\<exists>new_stmts t. run K clock (ys, None) s = (Inr (), t) \<and> durable (mc t) = durable (mc s) @ new_stmts \<and> unsettled (mc t) = []
    \<and> (case fst (old_run_loop K' clock' ys None (old_entry clock' s')) of
        Inr _ \<Rightarrow> o_dur (o_mc (snd (old_run K' clock' (ys, None) s'))) = o_dur (o_mc s') @ new_stmts
          \<and> o_uns (o_mc (snd (old_run K' clock' (ys, None) s'))) = []
      | Inl e \<Rightarrow> e = AttributeError \<and> (\<exists>n. clock' (o_ticks s') + 10 \<le> clock' n)
          \<and> checkpoint_text (snd (old_run K' clock' (ys, None) s')) \<noteq> None)"
  using run_to_the_end [OF assms(1-3,8,9), of clock] old_run_to_the_end [OF assms(4-6,8,9), of clock'] assms(7)
  by (auto split: sum.splits)

theorem variants_agree_witness:
  "\<exists>new_stmts t. run mysql_connector (\<lambda>_. 0) (map demo_yield (stream_ops demo_units), None) (demo_start False) = (Inr (), t)
    \<and> durable (mc t) = new_stmts
    \<and> o_dur (o_mc (snd (old_run mysql_connector (\<lambda>_. 0) (map demo_yield (stream_ops demo_units), None) (demo_old True)))) = new_stmts"
proof -
  have "stat_keys (demo_old True)" "o_exclude_tables (demo_old True) = exclude_tables (demo_start False)"
      "durable (mc (demo_start False)) = []" "o_dur (o_mc (demo_old True)) = []"
    by (simp_all add: demo_old_def old_start_def stat_keys_def demo_start_def sync_start_def db_of_def)
  with variants_agree [OF mysql_connector_laws demo_ready(1) [of False] mysql_connector_laws(2) demo_old_ready [of True] _ _ map_demo_yield demo_ready(2),
      where clock = "\<lambda>_. 0" and clock' = "\<lambda>_. 0"]
  show ?thesis
    by (cases "fst (old_run_loop mysql_connector (\<lambda>_. 0) (map demo_yield (stream_ops demo_units)) None (old_entry (\<lambda>_. 0) (demo_old True)))")
      auto
qed

section \<open>The older variant without merged commits\<close>

definition unmerged :: "string \<Rightarrow> old_sync \<Rightarrow> bool" where
  "unmerged t s = (\<not> o_merge_trx s \<and> \<not> o_allow_commit s \<and> checkpoint_text s = Some t)"

lemma unmerged_dispatch: "old_dispatch K clock y op s = (r, s') \<Longrightarrow> unmerged t s \<Longrightarrow> unmerged t s'"
  by (cases op; auto simp: old_nondml_def old_dml_def old_commit_def old_gtid_def old_heartbeat_def or_exit_def unmerged_def
      old_merge_commit_def modify_sx_def raise_sx_def lift_sx_def old_clock_def count_nondml_def split_beta
      elim!: bind_sxE on_oldE try_sxE count_statE split: if_splits)

lemma unmerged_after: "old_after clock y s = (r, s') \<Longrightarrow> unmerged t s \<Longrightarrow> unmerged t s'"
  by (auto simp: old_after_def old_periodic_def modify_sx_def old_clock_def show_gtidset_def unmerged_def
      elim!: bind_sxE split: if_splits)

lemma unmerged_loop: "old_run_loop K clock ys fin s = (r, s') \<Longrightarrow> unmerged t s \<Longrightarrow> unmerged t s'"
proof (induction ys arbitrary: s)
  case (Cons y ys)
  obtain r1 s1 where i: "old_iteration K clock y s = (r1, s1)" by fastforce
  have "unmerged t s1"
    using i Cons.prems(2) unmerged_dispatch unmerged_after unfolding old_iteration_def by (fastforce elim!: bind_sxE)
  with Cons i show ?case by (auto split: if_splits sum.splits)
qed (auto split: option.splits)

text \<open>C11: Without merged commits \<open>run\<close> of the older variant never returns normally: \<open>checkpoint_gtidset\<close> is still
  the text of the start position, on which the last line calls \<open>items\<close>. If the stream ends, the result is the
  \<open>AttributeError\<close>, after all operations.\<close>

theorem old_run_raises_without_merge:
  assumes "\<not> o_merge_trx s" "\<not> o_allow_commit s" "checkpoint_text s = Some t"
  shows "(\<exists>e. fst (old_run K clock ops s) = Inl e)
    \<and> (fst (old_run_loop K clock (fst ops) (snd ops) (old_entry clock s)) = Inr () \<longrightarrow> fst (old_run K clock ops s) = Inl AttributeError)"
proof -
  obtain r1 s1 where l: "old_run_loop K clock (fst ops) (snd ops) (old_entry clock s) = (r1, s1)" by fastforce
  have "unmerged t (old_entry clock s)" using assms by (simp add: unmerged_def old_entry_def)
  with l have "unmerged t s1" by (rule unmerged_loop)
  then have "bind_sx (old_merge_commit K) (\<lambda>_. show_gtidset) s1 = (Inl AttributeError, s1)"
    by (simp add: unmerged_def old_merge_commit_def bind_sx_def show_gtidset_def)
  with l show ?thesis by (cases r1) (auto simp: old_run_unfold bind_sx_def)
qed

theorem old_run_raises_without_merge_witness:
  "fst (old_run mysql_connector (\<lambda>_. 0) (map demo_yield (stream_ops demo_units), None) (demo_old False)) = Inl AttributeError"
proof -
  have "\<not> o_merge_trx (demo_old False)" "\<not> o_allow_commit (demo_old False)" "checkpoint_text (demo_old False) = Some ''u:1-1''"
    by (simp_all add: demo_old_def old_start_def)
  moreover have "fst (old_run_loop mysql_connector (\<lambda>_. 0) (map demo_yield (stream_ops demo_units)) None
      (old_entry (\<lambda>_. 0) (demo_old False))) = Inr ()" by code_simp
  ultimately show ?thesis
    using old_run_raises_without_merge [of "demo_old False" "''u:1-1''" mysql_connector "\<lambda>_. 0"
        "(map demo_yield (stream_ops demo_units), None)"] by simp
qed

section \<open>Gtid sets and checkpoints\<close>

lemma hexdigit_alnum: "is_hexdigit c \<Longrightarrow> alnum c" "is_hexdigit c \<Longrightarrow> alnum_wide c"
  by (auto simp: is_hexdigit_def alnum_def alnum_wide_def Let_def)

definition gtid_entry :: "string \<times> int \<Rightarrow> string" where
  "gtid_entry kv = fst kv @ '':1-'' @ str_int (snd kv)"

lemma rx_first_old_uuid:
  assumes "valid_sid s"
  shows "rx_first (Seqs [Rep 8 (Cls alnum), Chr CHR ''-'', Rep 4 (Cls alnum), Chr CHR ''-'', Rep 4 (Cls alnum_wide),
             Chr CHR ''-'', Rep 4 (Cls alnum), Chr CHR ''-'', Rep 12 (Cls alnum)]) (s @ y) = Some (y, [])"
proof -
  obtain a b c d e where s: "s = a @ CHR ''-'' # b @ CHR ''-'' # c @ CHR ''-'' # d @ CHR ''-'' # e"
    and l: "length a = 8" "length b = 4" "length c = 4" "length d = 4" "length e = 12"
    and h: "\<forall>x \<in> set (a @ b @ c @ d @ e). is_hexdigit x"
    using valid_sid_parts [OF assms] .
  have rep: "rx_first (Rep n (Cls alnum)) (x @ z) = Some (z, [])" "rx_first (Rep n (Cls alnum_wide)) (x @ z) = Some (z, [])"
    if "length x = n" "set x \<subseteq> set (a @ b @ c @ d @ e)" for n x z
    using that h hexdigit_alnum by (auto intro!: rx_first_Rep_Cls)
  note r = rx_first_Seq0 [OF rep(1)] rx_first_Seq0 [OF rx_first_Chr]
  show ?thesis
    unfolding Seqs.simps s append_assoc append_Cons
    by (rule r(1), (use l in auto)[2], rule r(2), rule r(1), (use l in auto)[2], rule r(2),
        rule rx_first_Seq0 [OF rep(2)], (use l in auto)[2], rule r(2), rule r(1), (use l in auto)[2], rule r(2),
        rule r(1)) (use l in auto)
qed

lemma old_gtid_re_entry:
  assumes "valid_sid k" "0 \<le> v"
  shows "rx_match old_gtid_re (gtid_entry (k, v)) = Some [(1, k), (2, str_int v)]"
proof -
  have v: "str_int v = str_nat (nat v)" using assms(2) by (simp add: str_int_nonneg)
  have f3: "rx_first (Seqs [Cap 2 (Plus (Cls is_digit)), Eos]) (str_nat (nat v)) = Some ([], [(2, str_nat (nat v))] @ [])"
    unfolding Seqs.simps using rx_first_digits [of "[]" 2 "nat v"]
    by (intro rx_first_Seq [where t = "[]"] rx_first_Seq0 [where t = "[]"]) simp_all
  have p: "rx_first (Plus (Cls is_digit)) (''1'' @ CHR ''-'' # z) = Some (CHR ''-'' # z, [])" for z
    by (rule rx_first_Plus_Cls) (simp_all add: is_digit_def)
  have f2: "rx_first (Seqs [Chr CHR '':'', Plus (Cls is_digit), Chr CHR ''-'', Cap 2 (Plus (Cls is_digit)), Eos])
      ('':1-'' @ str_nat (nat v)) = Some ([], [(2, str_nat (nat v))] @ [])"
    unfolding Seqs.simps append_Cons append_Nil
    by (rule rx_first_Seq0 [OF rx_first_Chr], rule rx_first_Seq0 [OF p [unfolded append_Cons append_Nil]],
        rule rx_first_Seq0 [OF rx_first_Chr], rule f3 [unfolded Seqs.simps append_Cons append_Nil])
  have f1: "rx_first (Cap 1 (Seqs [Rep 8 (Cls alnum), Chr CHR ''-'', Rep 4 (Cls alnum), Chr CHR ''-'', Rep 4 (Cls alnum_wide),
             Chr CHR ''-'', Rep 4 (Cls alnum), Chr CHR ''-'', Rep 12 (Cls alnum)])) (k @ '':1-'' @ str_nat (nat v))
      = Some ('':1-'' @ str_nat (nat v), [(1, k)])"
    using rx_first_Cap [OF rx_first_old_uuid [OF assms(1)], of 1 "'':1-'' @ str_nat (nat v)"] by simp
  have "rx_first old_gtid_re (k @ '':1-'' @ str_nat (nat v)) = Some ([], [(1, k)] @ [(2, str_nat (nat v))] @ [])"
    using rx_first_Seq [OF f1 f2] unfolding old_gtid_re_def by simp
  then show ?thesis by (simp add: gtid_entry_def v rx_match_first)
qed

lemma parse_loop_entries:
  assumes "\<forall>(k, v) \<in> set d. valid_sid k \<and> 0 \<le> v" "distinct (map fst (acc @ d))"
  shows "parse_loop (map gtid_entry d) acc = Inr (acc @ d)"
  using assms
proof (induction d arbitrary: acc)
  case (Cons kv d)
  obtain k v where kv: "kv = (k, v)" by fastforce
  have fresh: "dict_set k v acc = acc @ [(k, v)]"
    using Cons.prems(2) kv by (induction acc) auto
  have "py_int 10 (str_int v) = Inr v" using Cons.prems(1) kv by (simp add: str_int_nonneg)
  with Cons.IH [of "acc @ [(k, v)]"] Cons.prems kv show ?case
    by (simp add: old_gtid_re_entry rx_group_def fresh)
qed simp

text \<open>\<open>parse_gtidset\<close> reads back a list of servers with their last transaction, in this order.\<close>

theorem parse_gtidset_text:
  assumes "d \<noteq> []" "\<forall>(k, v) \<in> set d. valid_sid k \<and> 0 \<le> v" "distinct (map fst d)"
  shows "parse_gtidset (join '','' (map gtid_entry d)) = Inr d"
proof -
  have "CHR '','' \<notin> set (gtid_entry (k, v))" if "(k, v) \<in> set d" for k v
  proof -
    have k: "valid_sid k" "0 \<le> v" using assms(2) that by auto
    have "\<not> is_hexdigit CHR '',''" by code_simp
    with k(1) have "CHR '','' \<notin> set k" by (auto elim!: valid_sid_parts)
    then show ?thesis using k(2) str_nat_notin [of "CHR '',''"] by (auto simp: gtid_entry_def str_int_nonneg is_digit_def)
  qed
  then have "split_on CHR '','' (join '','' (map gtid_entry d)) = map gtid_entry d"
    using assms(1) by (intro split_on_join) auto
  then show ?thesis using parse_loop_entries [of d "[]"] assms(2,3) by (simp add: parse_gtidset_def)
qed

text \<open>The older variant finds its own checkpoint: the start position of the next run is, for every server, the
  maximum of the configured and the recorded transaction.\<close>

theorem old_checkpoint_read_back:
  assumes "format_gtidset text' = Inr start" "distinct (map fst d)"
  shows "\<exists>m. get_checkpoint_gtidset text' (old_persist_checkpoint d fs) = Inr (render_gtidset m)
    \<and> (\<forall>k. map_of m k = (case (map_of start k, map_of d k) of
         (None, v) \<Rightarrow> v | (Some a, None) \<Rightarrow> Some a | (Some a, Some b) \<Rightarrow> Some (max a b)))"
  using assms(1) merge_max_lookup [OF assms(2), of start]
  by (intro exI [of _ "merge_max start d"])
    (auto simp: get_checkpoint_gtidset_def old_persist_checkpoint_def split: option.splits)

end
