(* ===== verification/Event_Dispatch.thy ===== *)
theory Event_Dispatch
  imports Events
begin

text \<open>
  The constructor of \<open>BinLogPacketWrapper\<close> in \<open>packet.py\<close>: the header of an event, the class that the
  event map gives its type, and the event that the constructor of the class reads. A class that the caller
  does not allow, and an event whose \<open>_processed\<close> is false, give no event.

  An event object is a value of \<open>event_obj\<close>: one constructor per class, with the attributes the class sets.
  The rows of a row event are read later, when the consumer asks for them, from the packet the constructor
  left behind. The dictionary \<open>table_map\<close> is shared with the reader of the stream, so it is passed through.
\<close>

section \<open>Definitions\<close>

datatype event_class =
    Cls_Query | Cls_Rotate | Cls_FormatDescription | Cls_Xid | Cls_Intvar | Cls_Gtid | Cls_PreviousGtids
  | Cls_Stop | Cls_BeginLoadQuery | Cls_ExecuteLoadQuery | Cls_HeartbeatLog | Cls_XAPrepare | Cls_RowsQueryLog
  | Cls_Rand | Cls_UserVar | Cls_UpdateRows | Cls_WriteRows | Cls_DeleteRows | Cls_TableMap
  | Cls_PartialUpdateRows | Cls_NotImplemented | Cls_MariadbAnnotateRows | Cls_MariadbBinLogCheckPoint
  | Cls_MariadbGtid | Cls_MariadbGtidList | Cls_MariadbStartEncryption

datatype event_obj =
    Ev_Query query_event | Ev_Rotate rotate_event | Ev_FormatDescription format_description_event
  | Ev_Xid int | Ev_Intvar int int | Ev_Gtid gtid_event | Ev_PreviousGtids int string | Ev_Stop
  | Ev_BeginLoadQuery int bytes | Ev_ExecuteLoadQuery execute_load_query_event | Ev_HeartbeatLog string
  | Ev_XAPrepare xa_prepare_event | Ev_RowsQueryLog string | Ev_Rand int int | Ev_UserVar user_var_event
  | Ev_UpdateRows rows_event | Ev_WriteRows rows_event | Ev_DeleteRows rows_event | Ev_TableMap table_map_event
  | Ev_PartialUpdateRows rows_event | Ev_NotImplemented | Ev_MariadbAnnotateRows bytes
  | Ev_MariadbBinLogCheckPoint string | Ev_MariadbGtid mariadb_gtid_event | Ev_MariadbGtidList "string list"
  | Ev_MariadbStartEncryption int int bytes

fun class_of :: "event_obj \<Rightarrow> event_class" where
  "class_of (Ev_Query q) = Cls_Query"
| "class_of (Ev_Rotate q) = Cls_Rotate"
| "class_of (Ev_FormatDescription q) = Cls_FormatDescription"
| "class_of (Ev_Xid q) = Cls_Xid"
| "class_of (Ev_Intvar q q2) = Cls_Intvar"
| "class_of (Ev_Gtid q) = Cls_Gtid"
| "class_of (Ev_PreviousGtids q q2) = Cls_PreviousGtids"
| "class_of Ev_Stop = Cls_Stop"
| "class_of (Ev_BeginLoadQuery q q2) = Cls_BeginLoadQuery"
| "class_of (Ev_ExecuteLoadQuery q) = Cls_ExecuteLoadQuery"
| "class_of (Ev_HeartbeatLog q) = Cls_HeartbeatLog"
| "class_of (Ev_XAPrepare q) = Cls_XAPrepare"
| "class_of (Ev_RowsQueryLog q) = Cls_RowsQueryLog"
| "class_of (Ev_Rand q q2) = Cls_Rand"
| "class_of (Ev_UserVar q) = Cls_UserVar"
| "class_of (Ev_UpdateRows q) = Cls_UpdateRows"
| "class_of (Ev_WriteRows q) = Cls_WriteRows"
| "class_of (Ev_DeleteRows q) = Cls_DeleteRows"
| "class_of (Ev_TableMap q) = Cls_TableMap"
| "class_of (Ev_PartialUpdateRows q) = Cls_PartialUpdateRows"
| "class_of Ev_NotImplemented = Cls_NotImplemented"
| "class_of (Ev_MariadbAnnotateRows q) = Cls_MariadbAnnotateRows"
| "class_of (Ev_MariadbBinLogCheckPoint q) = Cls_MariadbBinLogCheckPoint"
| "class_of (Ev_MariadbGtid q) = Cls_MariadbGtid"
| "class_of (Ev_MariadbGtidList q) = Cls_MariadbGtidList"
| "class_of (Ev_MariadbStartEncryption q q2 q3) = Cls_MariadbStartEncryption"

definition event_map :: "(int, event_class) dict" where
  "event_map =
    [(QUERY_EVENT, Cls_Query),
     (ROTATE_EVENT, Cls_Rotate),
     (FORMAT_DESCRIPTION_EVENT, Cls_FormatDescription),
     (XID_EVENT, Cls_Xid),
     (INTVAR_EVENT, Cls_Intvar),
     (GTID_LOG_EVENT, Cls_Gtid),
     (PREVIOUS_GTIDS_LOG_EVENT, Cls_PreviousGtids),
     (STOP_EVENT, Cls_Stop),
     (BEGIN_LOAD_QUERY_EVENT, Cls_BeginLoadQuery),
     (EXECUTE_LOAD_QUERY_EVENT, Cls_ExecuteLoadQuery),
     (HEARTBEAT_LOG_EVENT, Cls_HeartbeatLog),
     (XA_PREPARE_EVENT, Cls_XAPrepare),
     (ROWS_QUERY_LOG_EVENT, Cls_RowsQueryLog),
     (RAND_EVENT, Cls_Rand),
     (USER_VAR_EVENT, Cls_UserVar),
     (UPDATE_ROWS_EVENT_V1, Cls_UpdateRows),
     (WRITE_ROWS_EVENT_V1, Cls_WriteRows),
     (DELETE_ROWS_EVENT_V1, Cls_DeleteRows),
     (UPDATE_ROWS_EVENT_V2, Cls_UpdateRows),
     (WRITE_ROWS_EVENT_V2, Cls_WriteRows),
     (DELETE_ROWS_EVENT_V2, Cls_DeleteRows),
     (TABLE_MAP_EVENT, Cls_TableMap),
     (PARTIAL_UPDATE_ROWS_EVENT, Cls_PartialUpdateRows),
     (ANONYMOUS_GTID_LOG_EVENT, Cls_NotImplemented),
     (MARIADB_ANNOTATE_ROWS_EVENT, Cls_MariadbAnnotateRows),
     (MARIADB_BINLOG_CHECKPOINT_EVENT, Cls_MariadbBinLogCheckPoint),
     (MARIADB_GTID_EVENT, Cls_MariadbGtid),
     (MARIADB_GTID_GTID_LIST_EVENT, Cls_MariadbGtidList),
     (MARIADB_START_ENCRYPTION_EVENT, Cls_MariadbStartEncryption)]"

definition event_class_of :: "int \<Rightarrow> event_class" where
  "event_class_of t = (case map_of event_map t of Some c \<Rightarrow> c | None \<Rightarrow> Cls_NotImplemented)"

record wrapper_config =
  wc_mysql_version :: "int list"
  wc_use_checksum :: bool
  wc_allowed_events :: "event_class list"
  wc_filters :: filters
  wc_freeze_schema :: bool
  wc_verify_checksum :: bool
  wc_optional_meta_data :: bool
  wc_dbms :: string

text \<open>The body of the constructor of a class, after the checks of \<open>BinLogEvent\<close>; \<open>None\<close> is an event that is
  not processed.\<close>

definition just :: "('p, event_obj) reader \<Rightarrow> (int, table) dict \<Rightarrow> ('p, event_obj option \<times> (int, table) dict) reader" where
  "just m tm = bind_sx m (\<lambda>e. ret_sx (Some e, tm))"

definition rows_obj :: "(rows_event \<Rightarrow> event_obj) \<Rightarrow> ('p, rows_event option) reader \<Rightarrow> (int, table) dict \<Rightarrow>
    ('p, event_obj option \<times> (int, table) dict) reader" where
  "rows_obj f m tm = bind_sx m (\<lambda>e. ret_sx (map_option f e, tm))"

fun event_body ::
    "(int \<Rightarrow> ('p, unit) sx) \<Rightarrow> 'p packet_ops \<Rightarrow> wrapper_config \<Rightarrow> event_args \<Rightarrow> (int, table) dict \<Rightarrow> event_class \<Rightarrow>
     ('p, event_obj option \<times> (int, table) dict) reader" where
  "event_body RW P C A tm Cls_Query = just (bind_sx (query_event_init P A) (\<lambda>e. ret_sx (Ev_Query e))) tm"
| "event_body RW P C A tm Cls_Rotate = just (bind_sx (rotate_event_init P A) (\<lambda>e. ret_sx (Ev_Rotate e))) tm"
| "event_body RW P C A tm Cls_FormatDescription =
     just (bind_sx (format_description_event_init P A) (\<lambda>e. ret_sx (Ev_FormatDescription e))) tm"
| "event_body RW P C A tm Cls_Xid = just (bind_sx (xid_event_init P) (\<lambda>e. ret_sx (Ev_Xid e))) tm"
| "event_body RW P C A tm Cls_Intvar = just (bind_sx (intvar_event_init P) (\<lambda>(t, v). ret_sx (Ev_Intvar t v))) tm"
| "event_body RW P C A tm Cls_Gtid = just (bind_sx (gtid_event_init P A) (\<lambda>e. ret_sx (Ev_Gtid e))) tm"
| "event_body RW P C A tm Cls_PreviousGtids =
     just (bind_sx (previous_gtids_event_init P) (\<lambda>(n, t). ret_sx (Ev_PreviousGtids n t))) tm"
| "event_body RW P C A tm Cls_Stop = just (ret_sx Ev_Stop) tm"
| "event_body RW P C A tm Cls_BeginLoadQuery =
     just (bind_sx (begin_load_query_event_init P A) (\<lambda>(i, b). ret_sx (Ev_BeginLoadQuery i b))) tm"
| "event_body RW P C A tm Cls_ExecuteLoadQuery =
     just (bind_sx (execute_load_query_event_init P) (\<lambda>e. ret_sx (Ev_ExecuteLoadQuery e))) tm"
| "event_body RW P C A tm Cls_HeartbeatLog =
     just (bind_sx (heartbeat_log_event_init P A) (\<lambda>e. ret_sx (Ev_HeartbeatLog e))) tm"
| "event_body RW P C A tm Cls_XAPrepare = just (bind_sx (xa_prepare_event_init P) (\<lambda>e. ret_sx (Ev_XAPrepare e))) tm"
| "event_body RW P C A tm Cls_RowsQueryLog =
     just (bind_sx (rows_query_log_event_init P) (\<lambda>e. ret_sx (Ev_RowsQueryLog e))) tm"
| "event_body RW P C A tm Cls_Rand = just (bind_sx (rand_event_init P) (\<lambda>(a, b). ret_sx (Ev_Rand a b))) tm"
| "event_body RW P C A tm Cls_UserVar = just (bind_sx (user_var_event_init P) (\<lambda>e. ret_sx (Ev_UserVar e))) tm"
| "event_body RW P C A tm Cls_UpdateRows =
     rows_obj Ev_UpdateRows (update_rows_event_init P (wc_filters C) tm (event_type (ea_header A)) (ea_size A)) tm"
| "event_body RW P C A tm Cls_WriteRows =
     rows_obj Ev_WriteRows (write_rows_event_init P (wc_filters C) tm (event_type (ea_header A)) (ea_size A)) tm"
| "event_body RW P C A tm Cls_DeleteRows =
     rows_obj Ev_DeleteRows (delete_rows_event_init P (wc_filters C) tm (event_type (ea_header A)) (ea_size A)) tm"
| "event_body RW P C A tm Cls_PartialUpdateRows =
     rows_obj Ev_PartialUpdateRows (update_rows_event_init P (wc_filters C) tm (event_type (ea_header A)) (ea_size A)) tm"
| "event_body RW P C A tm Cls_TableMap =
     bind_sx (table_map_event_init P (wc_filters C) (wc_freeze_schema C) (wc_optional_meta_data C) (ea_dbms A) tm)
       (\<lambda>(e, tm'). ret_sx (map_option Ev_TableMap e, tm'))"
| "event_body RW P C A tm Cls_NotImplemented =
     just (bind_sx (not_implemented_event_init P A) (\<lambda>_. ret_sx Ev_NotImplemented)) tm"
| "event_body RW P C A tm Cls_MariadbAnnotateRows =
     just (bind_sx (mariadb_annotate_rows_event_init P A) (\<lambda>e. ret_sx (Ev_MariadbAnnotateRows e))) tm"
| "event_body RW P C A tm Cls_MariadbBinLogCheckPoint =
     just (bind_sx (mariadb_binlog_checkpoint_event_init P) (\<lambda>e. ret_sx (Ev_MariadbBinLogCheckPoint e))) tm"
| "event_body RW P C A tm Cls_MariadbGtid =
     just (bind_sx (mariadb_gtid_event_init P A) (\<lambda>e. ret_sx (Ev_MariadbGtid e))) tm"
| "event_body RW P C A tm Cls_MariadbGtidList =
     just (bind_sx (mariadb_gtid_list_event_init RW P A) (\<lambda>e. ret_sx (Ev_MariadbGtidList e))) tm"
| "event_body RW P C A tm Cls_MariadbStartEncryption =
     just (bind_sx (mariadb_start_encryption_event_init P) (\<lambda>(a, b, n). ret_sx (Ev_MariadbStartEncryption a b n))) tm"

record 'p wrapped_event =
  we_header :: event_header
  we_valid :: "bool option"
  we_event :: "event_obj option"
  we_wrapper :: "'p wrapper"

definition unpack_header :: "bytes \<Rightarrow> event_header res" where
  "unpack_header b =
     (if length b = 20 then
        Inr \<lparr>timestamp = le_val (take 4 (drop 1 b)), event_type = le_val (take 1 (drop 5 b)),
             server_id = le_val (take 4 (drop 6 b)), full_event_size = le_val (take 4 (drop 10 b)),
             log_pos = le_val (take 4 (drop 14 b)), header_flags = le_val (drop 18 b)\<rparr>
      else Inl StructError)"

definition event_args_of :: "wrapper_config \<Rightarrow> event_header \<Rightarrow> event_args" where
  "event_args_of C h =
     \<lparr>ea_header = h, ea_size = full_event_size h - (if wc_use_checksum C then 23 else 19),
      ea_mysql_version = wc_mysql_version C, ea_verify_checksum = (wc_use_checksum C \<and> wc_verify_checksum C),
      ea_dbms = wc_dbms C\<rparr>"

definition wrapper_event ::
    "(int \<Rightarrow> ('p, unit) sx) \<Rightarrow> 'p packet_ops \<Rightarrow> wrapper_config \<Rightarrow> (int, table) dict \<Rightarrow> event_header \<Rightarrow>
     ('p, (bool option \<times> event_obj option) \<times> (int, table) dict) reader" where
  "wrapper_event RW P C tm h =
     (let c = event_class_of (event_type h); A = event_args_of C h
      in if c \<notin> set (wc_allowed_events C) then ret_sx ((None, None), tm)
         else bind_sx (binlog_event_init RW P A) (\<lambda>b.
              bind_sx (event_body RW P C A tm c) (\<lambda>(e, tm'). ret_sx ((is_event_valid b, e), tm'))))"

definition wrapper_init ::
    "(int \<Rightarrow> ('p, unit) sx) \<Rightarrow> 'p packet_ops \<Rightarrow> wrapper_config \<Rightarrow> (int, table) dict \<Rightarrow> 'p \<Rightarrow>
     ('p wrapped_event \<times> (int, table) dict) res" where
  "wrapper_init RW P C tm pkt =
     (case bind_sx (on_packet (p_read P 20)) (\<lambda>b. bind_sx (lift_sx (unpack_header b)) (\<lambda>h.
             bind_sx (wrapper_event RW P C tm h) (\<lambda>x. ret_sx (h, x))))
           \<lparr>read_bytes = 0, data_buffer = [], packet = pkt\<rparr> of
        (Inl e, w) \<Rightarrow> Inl e
      | (Inr (h, (v, e), tm'), w) \<Rightarrow> Inr (\<lparr>we_header = h, we_valid = v, we_event = e, we_wrapper = w\<rparr>, tm'))"

end
