(* ===== verification/Stream_Request.thy ===== *)
theory Stream_Request
  imports Event_Dispatch Gtid_Set
begin

text \<open>
  \<open>pymysqlreplication/binlogstream.py\<close>, the part that opens a stream: the settings and the state of a
  \<open>BinLogStreamReader\<close>, the list of event classes it lets through, the registration as a replica, and the
  requests that start the dump.

  PyMySQL and the server are not part of the repository. What the servers answer is the parameter
  \<open>server\<close>, and what the reader sends to them is the list \<open>sent\<close>, in order. The command codes are constants of
  PyMySQL, so they are parameters as well. The model follows the branch for PyMySQL 0.6 and later. Numbers
  of seconds in the settings are integers, for which the arithmetic on floats in the code is exact.
\<close>

section \<open>Definitions\<close>

subsection \<open>Settings and state\<close>

record report_slave =
  hostname :: string
  username :: string
  password :: string
  port :: int

text \<open>The value to report may be a name, a tuple or a dictionary; an attribute that is not text where the code
  needs text is outside of the model.\<close>

datatype report_item = RText string | RNum int

datatype report_arg = ReportName string | ReportTuple "report_item list" | ReportDict "(string, report_item) dict"

definition no_report :: report_slave where
  "no_report = \<lparr>hostname = [], username = [], password = [], port = 0\<rparr>"

definition set_text :: "(string \<Rightarrow> report_slave \<Rightarrow> report_slave) \<Rightarrow> report_item \<Rightarrow> report_slave \<Rightarrow> report_slave res" where
  "set_text f x R = (case x of RText t \<Rightarrow> Inr (f t R) | RNum i \<Rightarrow> Inl OutOfModel)"

definition set_port :: "bool \<Rightarrow> report_item \<Rightarrow> report_slave \<Rightarrow> report_slave res" where
  "set_port convert x R =
     (case x of
        RNum i \<Rightarrow> Inr (R\<lparr>port := i\<rparr>)
      | RText t \<Rightarrow> if convert then bind_res (py_int 10 t) (\<lambda>i. Inr (R\<lparr>port := i\<rparr>)) else Inl OutOfModel)"

definition report_setters :: "bool \<Rightarrow> (string \<times> (report_item \<Rightarrow> report_slave \<Rightarrow> report_slave res)) list" where
  "report_setters convert =
     [(''hostname'', set_text (\<lambda>t R. R\<lparr>hostname := t\<rparr>)), (''username'', set_text (\<lambda>t R. R\<lparr>username := t\<rparr>)),
      (''password'', set_text (\<lambda>t R. R\<lparr>password := t\<rparr>)), (''port'', set_port convert)]"

definition report_slave_init :: "report_arg \<Rightarrow> report_slave res" where
  "report_slave_init v =
     (case v of
        ReportName t \<Rightarrow> Inr (no_report\<lparr>hostname := t\<rparr>)
      | ReportTuple xs \<Rightarrow> fold_res (\<lambda>R (f, x). f x R) no_report (zip (map snd (report_setters True)) xs)
      | ReportDict d \<Rightarrow> fold_res (\<lambda>R (k, f). case map_of d k of None \<Rightarrow> Inr R | Some x \<Rightarrow> f x R) no_report (report_setters False))"

record stream_config =
  sc_server_id :: int
  sc_resume_stream :: bool
  sc_blocking :: bool
  sc_end_log_pos :: "int option"
  sc_auto_position :: "string option"
  sc_skip_to_timestamp :: "int option"
  sc_report_slave :: "report_slave option"
  sc_slave_uuid :: string
  sc_slave_heartbeat :: int
  sc_read_timeout :: "int option"
  sc_is_mariadb :: bool
  sc_annotate_rows_event :: bool
  sc_filters :: filters
  sc_freeze_schema :: bool
  sc_verify_checksum :: bool
  sc_allowed_events :: "event_class list"

datatype sent = Sql string | CtlSql string | Raw bytes | CloseStream | CloseCtl

record stream =
  connected_stream :: bool
  connected_ctl :: bool
  use_checksum :: bool
  st_optional_meta_data :: bool
  st_table_map :: "(int, table) dict"
  st_log_pos :: "int option"
  st_log_file :: "string option"
  is_past_end_log_pos :: bool
  st_mysql_version :: "int list"
  st_dbms :: "string option"
  st_sent :: "sent list"

definition stream_init :: "int option \<Rightarrow> string option \<Rightarrow> stream" where
  "stream_init pos file =
     \<lparr>connected_stream = False, connected_ctl = False, use_checksum = False, st_optional_meta_data = False,
      st_table_map = [], st_log_pos = pos, st_log_file = file, is_past_end_log_pos = False,
      st_mysql_version = [0, 0, 0], st_dbms = None, st_sent = []\<rparr>"

record server =
  srv_connect :: "unit res"
  srv_connect_ctl :: "unit res"
  srv_register :: "unit res"
  srv_binlog_checksum :: "string option"
  srv_master_status :: "(string \<times> int) option"
  srv_row_metadata :: "string option"
  srv_server_info :: string
  srv_accepts :: "sent list \<Rightarrow> sent \<Rightarrow> bool"
  com_register_slave :: byte
  com_binlog_dump :: byte
  com_binlog_dump_gtid :: byte

subsection \<open>The classes let through\<close>

definition default_events :: "event_class list" where
  "default_events =
    [Cls_Query, Cls_Rotate, Cls_Stop, Cls_FormatDescription, Cls_XAPrepare, Cls_Xid, Cls_Gtid, Cls_BeginLoadQuery,
     Cls_ExecuteLoadQuery, Cls_UpdateRows, Cls_WriteRows, Cls_DeleteRows, Cls_TableMap, Cls_HeartbeatLog,
     Cls_NotImplemented, Cls_MariadbGtid, Cls_RowsQueryLog, Cls_MariadbAnnotateRows, Cls_Rand,
     Cls_MariadbStartEncryption, Cls_MariadbGtidList, Cls_MariadbBinLogCheckPoint, Cls_UserVar,
     Cls_PreviousGtids, Cls_PartialUpdateRows]"

definition set_remove :: "event_class list \<Rightarrow> event_class \<Rightarrow> event_class list res" where
  "set_remove events e = (if e \<in> set events then Inr (removeAll e events) else Inl KeyError)"

definition allowed_event_list ::
    "event_class list option \<Rightarrow> event_class list option \<Rightarrow> bool \<Rightarrow> event_class list res" where
  "allowed_event_list only_events ignored_events filter_non_implemented_events =
     bind_res (case ignored_events of
                 None \<Rightarrow> Inr (case only_events of Some xs \<Rightarrow> xs | None \<Rightarrow> default_events)
               | Some ys \<Rightarrow> fold_res set_remove (case only_events of Some xs \<Rightarrow> xs | None \<Rightarrow> default_events) ys)
       (\<lambda>events. Inr (if filter_non_implemented_events then removeAll Cls_NotImplemented events else events))"

definition allowed_events_in_packet :: "stream_config \<Rightarrow> event_class list" where
  "allowed_events_in_packet S = [Cls_TableMap, Cls_Rotate] @ sc_allowed_events S"

subsection \<open>Requests\<close>

text \<open>Encoding of a string, packing of a signed number and of a Pascal string.\<close>

definition encode_utf8 :: "string \<Rightarrow> bytes" where
  "encode_utf8 s = concat (map (\<lambda>c. let n = (of_char c :: nat) in
     if n < 128 then [of_nat n] else [of_nat (192 + n div 64), of_nat (128 + n mod 64)]) s)"

definition pack_int :: "nat \<Rightarrow> int \<Rightarrow> bytes res" where
  "pack_int n v = (if - (256 ^ n div 2) \<le> v \<and> v < 256 ^ n div 2 then Inr (le_bytes n v) else Inl StructError)"

definition pack_pascal :: "nat \<Rightarrow> bytes \<Rightarrow> bytes" where
  "pack_pascal count b =
     (if count = 0 then []
      else let kept = take (count - 1) b
           in [of_nat (min 255 (length kept))] @ kept @ replicate (count - 1 - length kept) 0)"

fun concat_res :: "bytes res list \<Rightarrow> bytes res" where
  "concat_res [] = Inr []"
| "concat_res (r # rs) = bind_res r (\<lambda>b. bind_res (concat_res rs) (\<lambda>bs. Inr (b @ bs)))"

definition report_slave_encoded :: "server \<Rightarrow> report_slave \<Rightarrow> int \<Rightarrow> int \<Rightarrow> bytes res" where
  "report_slave_encoded V R slave_id master_id =
     (let lhostname = length (encode_utf8 (hostname R));
          lusername = length (encode_utf8 (username R));
          lpassword = length (encode_utf8 (password R));
          packet_len = 1 + 4 + 1 + int lhostname + 1 + int lusername + 1 + int lpassword + 2 + 4 + 4
      in concat_res
           [pack_int 4 packet_len, Inr [com_register_slave V], pack_uint 4 slave_id,
            Inr (pack_pascal (min 257 (lhostname + 1)) (encode_utf8 (hostname R))),
            Inr (pack_pascal (min 257 (lusername + 1)) (encode_utf8 (username R))),
            Inr (pack_pascal (min 257 (lpassword + 1)) (encode_utf8 (password R))),
            pack_uint 2 (port R), pack_int 4 0, pack_int 4 master_id])"

definition dump_flags :: "stream_config \<Rightarrow> int" where
  "dump_flags S = (if sc_blocking S then 0 else 1)"

definition binlog_dump_request :: "server \<Rightarrow> stream_config \<Rightarrow> string \<Rightarrow> int \<Rightarrow> bytes res" where
  "binlog_dump_request V S file pos =
     concat_res [pack_int 4 (int (length file) + 11), Inr [com_binlog_dump V],
       pack_uint 4 (if sc_resume_stream S then pos else 4),
       pack_uint 2 (dump_flags S), pack_uint 4 (sc_server_id S), Inr (encode_utf8 file)]"

definition binlog_dump_gtid_request :: "server \<Rightarrow> stream_config \<Rightarrow> string \<Rightarrow> bytes res" where
  "binlog_dump_gtid_request V S auto_position =
     bind_res (gtidset_init (AText auto_position)) (\<lambda>gtid_set.
       let encoded_data_size = gtidset_encoded_length gtid_set;
           header_size = 2 + 4 + 4 + 4 + 8 + 4
       in concat_res [pack_int 4 (header_size + encoded_data_size), Inr [com_binlog_dump_gtid V],
            pack_uint 2 (or (dump_flags S) 4), pack_uint 4 (sc_server_id S), pack_uint 4 3, Inr [0, 0, 0],
            pack_uint 8 4, pack_uint 4 encoded_data_size, gtidset_encoded gtid_set])"

definition mariadb_dump_request :: "server \<Rightarrow> stream_config \<Rightarrow> bytes res" where
  "mariadb_dump_request V S =
     concat_res [pack_int 4 (4 + 2 + 4 + 4), Inr [com_binlog_dump V], pack_int 4 4,
       pack_uint 2 (or (if sc_annotate_rows_event S then 2 else 0) (dump_flags S)), pack_uint 4 (sc_server_id S),
       Inr [0, 0, 0, 0]]"

subsection \<open>Opening the stream\<close>

text \<open>A statement or a packet is handed to the connection; whether it succeeds depends on all that was sent before.\<close>

definition send :: "server \<Rightarrow> sent \<Rightarrow> (stream, unit) sx" where
  "send V x = (\<lambda>s. (if srv_accepts V (st_sent s) x then Inr () else Inl DBError, s\<lparr>st_sent := st_sent s @ [x]\<rparr>))"

definition modify_stream :: "(stream \<Rightarrow> stream) \<Rightarrow> (stream, unit) sx" where
  "modify_stream f = (\<lambda>s. (Inr (), f s))"

definition quoted :: "string \<Rightarrow> string" where
  "quoted x = [CHR 0x27] @ x @ [CHR 0x27]"

definition checksum_enabled :: "server \<Rightarrow> (stream, bool) sx" where
  "checksum_enabled V =
     bind_sx (send V (Sql (''SHOW GLOBAL VARIABLES LIKE '' @ quoted ''BINLOG_CHECKSUM''))) (\<lambda>_.
       ret_sx (case srv_binlog_checksum V of None \<Rightarrow> False | Some v \<Rightarrow> v \<noteq> ''NONE''))"

definition register_slave :: "server \<Rightarrow> stream_config \<Rightarrow> (stream, unit) sx" where
  "register_slave V S =
     (case sc_report_slave S of
        None \<Rightarrow> ret_sx ()
      | Some R \<Rightarrow> bind_sx (lift_sx (report_slave_encoded V R (sc_server_id S) 0)) (\<lambda>b.
          bind_sx (send V (Raw b)) (\<lambda>_. lift_sx (srv_register V))))"

text \<open>The period in nanoseconds: half the read timeout at most, and at most 4294967 seconds. The unit of
  \<open>halves\<close> is half a second.\<close>

definition heartbeat_period :: "stream_config \<Rightarrow> int" where
  "heartbeat_period S =
     (let net_timeout = (case sc_read_timeout S of Some t \<Rightarrow> t | None \<Rightarrow> 4294967);
          halves = min net_timeout (2 * sc_slave_heartbeat S)
      in (if halves > 2 * 4294967 then 2 * 4294967 else halves) * 500000000)"

definition set_mariadb_settings :: "server \<Rightarrow> stream_config \<Rightarrow> (stream, bytes) sx" where
  "set_mariadb_settings V S =
     bind_sx (case sc_auto_position S of
                None \<Rightarrow> ret_sx ()
              | Some p \<Rightarrow> send V (Sql (''SET @slave_connect_state='' @ [CHR 0x22] @ p @ [CHR 0x22]))) (\<lambda>_.
     bind_sx (send V (Sql ''SET @slave_gtid_strict_mode=1'')) (\<lambda>_.
     bind_sx (send V (Sql ''SET @slave_gtid_ignore_duplicates=0'')) (\<lambda>_.
       lift_sx (mariadb_dump_request V S))))"

definition current_position :: "server \<Rightarrow> (stream, string \<times> int) sx" where
  "current_position V = (\<lambda>s.
     case (st_log_file s, st_log_pos s) of
       (Some f, Some p) \<Rightarrow> (Inr (f, p), s)
     | _ \<Rightarrow> bind_sx (send V (Sql ''SHOW MASTER STATUS'')) (\<lambda>_ s1.
         case srv_master_status V of
           None \<Rightarrow> (Inl BinLogNotEnabled, s1)
         | Some (f, p) \<Rightarrow> (Inr (f, p), s1\<lparr>st_log_file := Some f, st_log_pos := Some p\<rparr>)) s)"

text \<open>\<open>None\<close> and the empty string both mean that there is no position to resume from.\<close>

definition prelude_bytes :: "server \<Rightarrow> stream_config \<Rightarrow> (stream, bytes) sx" where
  "prelude_bytes V S =
     (if sc_is_mariadb S then set_mariadb_settings V S
      else case sc_auto_position S of
        None \<Rightarrow> bind_sx (current_position V) (\<lambda>(f, p). lift_sx (binlog_dump_request V S f p))
      | Some pos \<Rightarrow>
          if pos = [] then bind_sx (current_position V) (\<lambda>(f, p). lift_sx (binlog_dump_request V S f p))
          else lift_sx (binlog_dump_gtid_request V S pos))"

definition connect_to_stream :: "server \<Rightarrow> stream_config \<Rightarrow> (stream, unit) sx" where
  "connect_to_stream V S =
     bind_sx (lift_sx (srv_connect V)) (\<lambda>_.
     bind_sx (checksum_enabled V) (\<lambda>c.
     bind_sx (modify_stream (\<lambda>s. s\<lparr>use_checksum := c\<rparr>)) (\<lambda>_.
     bind_sx (if c then send V (Sql ''SET @master_binlog_checksum= @@global.binlog_checksum'') else ret_sx ()) (\<lambda>_.
     bind_sx (if sc_slave_uuid S \<noteq> []
              then send V (Sql (''SET @slave_uuid = '' @ quoted (sc_slave_uuid S) @ '', @replica_uuid = '' @ quoted (sc_slave_uuid S)))
              else ret_sx ()) (\<lambda>_.
     bind_sx (if sc_slave_heartbeat S \<noteq> 0
              then send V (Sql (''SET @master_heartbeat_period= '' @ str_int (heartbeat_period S)))
              else ret_sx ()) (\<lambda>_.
     bind_sx (send V (Sql ''SET @mariadb_slave_capability=4'')) (\<lambda>_.
     bind_sx (register_slave V S) (\<lambda>_.
     bind_sx (prelude_bytes V S) (\<lambda>prelude.
     bind_sx (send V (Raw prelude)) (\<lambda>_.
       modify_stream (\<lambda>s. s\<lparr>connected_stream := True\<rparr>)))))))))))"

definition to_upper :: "char \<Rightarrow> char" where
  "to_upper c = (let n = (of_char c :: nat) in if 97 \<le> n \<and> n \<le> 122 then char_of (n - 32) else c)"

definition check_optional_meta_data :: "server \<Rightarrow> (stream, unit) sx" where
  "check_optional_meta_data V =
     bind_sx (send V (CtlSql (''SHOW VARIABLES LIKE '' @ quoted ''BINLOG_ROW_METADATA'' @ '';''))) (\<lambda>_.
       case srv_row_metadata V of
         None \<Rightarrow> ret_sx ()
       | Some v \<Rightarrow> if map to_upper v \<noteq> ''FULL'' then ret_sx ()
                  else modify_stream (\<lambda>s. s\<lparr>st_optional_meta_data := True\<rparr>))"

definition connect_to_ctl :: "server \<Rightarrow> (stream, unit) sx" where
  "connect_to_ctl V =
     bind_sx (lift_sx (srv_connect_ctl V)) (\<lambda>_.
     bind_sx (modify_stream (\<lambda>s. s\<lparr>connected_ctl := True\<rparr>)) (\<lambda>_. check_optional_meta_data V))"

definition close :: "stream \<Rightarrow> stream" where
  "close s =
     (let s1 = (if connected_stream s then s\<lparr>st_sent := st_sent s @ [CloseStream], connected_stream := False\<rparr> else s)
      in if connected_ctl s1 then s1\<lparr>st_sent := st_sent s1 @ [CloseCtl], connected_ctl := False\<rparr> else s1)"

end
