(* ===== verification/Stream_Reader.thy ===== *)
theory Stream_Reader
  imports Stream_Request "HOL-Library.Sublist"
begin

text \<open>
  \<open>BinLogStreamReader.fetchone\<close> of \<open>pymysqlreplication/binlogstream.py\<close>: the loop that reads packets, keeps
  the position and the table map, and returns the next event that the filters let through.

  What arrives from the network is a list of \<open>net\<close> items, one per call of \<open>_read_packet\<close>; the loop consumes
  them in order, and when the list is used up the call is still waiting (\<open>Waiting\<close>). The methods of PyMySQL's
  packet are the parameter \<open>N\<close>.
\<close>

section \<open>Definitions\<close>

record 'p net_ops =
  n_packet :: "'p packet_ops"
  n_rewind :: "int \<Rightarrow> ('p, unit) sx"
  n_is_eof :: "'p \<Rightarrow> bool"
  n_is_ok :: "'p \<Rightarrow> bool"

datatype 'p net = Arrived 'p | OperationalError int

datatype 'p fetched = Raised py_exc | NoMore | Waiting | Fetched "'p wrapped_event"

definition MYSQL_EXPECTED_ERROR_CODES :: "int list" where
  "MYSQL_EXPECTED_ERROR_CODES = [2013, 2006]"

definition get_dbms :: "server \<Rightarrow> stream \<Rightarrow> string" where
  "get_dbms V s =
     (case st_dbms s of
        Some d \<Rightarrow> d
      | None \<Rightarrow> if sublist ''MariaDB'' (srv_server_info V) then ''mariadb'' else ''mysql'')"

definition wrapper_config_of :: "server \<Rightarrow> stream_config \<Rightarrow> stream \<Rightarrow> wrapper_config" where
  "wrapper_config_of V S s =
     \<lparr>wc_mysql_version = st_mysql_version s, wc_use_checksum = use_checksum s,
      wc_allowed_events = allowed_events_in_packet S, wc_filters = sc_filters S,
      wc_freeze_schema = sc_freeze_schema S, wc_verify_checksum = sc_verify_checksum S,
      wc_optional_meta_data = st_optional_meta_data s, wc_dbms = get_dbms V s\<rparr>"

text \<open>A number that Python treats as true.\<close>

definition nonzero :: "int option \<Rightarrow> bool" where
  "nonzero v = (v \<noteq> None \<and> v \<noteq> Some 0)"

definition receive :: "'p net_ops \<Rightarrow> server \<Rightarrow> stream_config \<Rightarrow> 'p \<Rightarrow> (stream, 'p wrapped_event) sx" where
  "receive N V S pkt = (\<lambda>s.
     case wrapper_init (n_rewind N) (n_packet N) (wrapper_config_of V S s) (st_table_map s) pkt of
       Inl e \<Rightarrow> (Inl e, s)
     | Inr (we, tm) \<Rightarrow>
         (Inr we, s\<lparr>st_table_map := tm,
            st_dbms := (if event_class_of (event_type (we_header we)) \<in> set (allowed_events_in_packet S)
                        then Some (get_dbms V s) else st_dbms s)\<rparr>))"

definition track_position :: "'p wrapped_event \<Rightarrow> (stream, unit) sx" where
  "track_position we = (\<lambda>s.
     let h = we_header we
     in if event_type h = ROTATE_EVENT then
          (case we_event we of
             Some (Ev_Rotate r) \<Rightarrow>
               (Inr (), s\<lparr>st_log_pos := Some (ro_position r), st_log_file := Some (ro_next_binlog r),
                  st_table_map := (if timestamp h \<noteq> 0 then [] else st_table_map s)\<rparr>)
           | _ \<Rightarrow> (Inl AttributeError, s))
        else if log_pos h \<noteq> 0 then (Inr (), s\<lparr>st_log_pos := Some (log_pos h)\<rparr>)
        else (Inr (), s))"

definition check_end :: "stream_config \<Rightarrow> (stream, unit) sx" where
  "check_end S = (\<lambda>s.
     case sc_end_log_pos S of
       None \<Rightarrow> (Inr (), s)
     | Some e \<Rightarrow>
         if e = 0 then (Inr (), s)
         else (case st_log_pos s of
                 None \<Rightarrow> (Inl TypeError, s)
               | Some p \<Rightarrow> (Inr (), if p \<ge> e then s\<lparr>is_past_end_log_pos := True\<rparr> else s)))"

definition before_start :: "stream_config \<Rightarrow> event_header \<Rightarrow> bool" where
  "before_start S h = (case sc_skip_to_timestamp S of None \<Rightarrow> False | Some t \<Rightarrow> t \<noteq> 0 \<and> timestamp h < t)"

text \<open>The end of an iteration: \<open>None\<close> is the \<open>continue\<close> of the loop.\<close>

definition deliver :: "stream_config \<Rightarrow> 'p wrapped_event \<Rightarrow> (stream, 'p wrapped_event option) sx" where
  "deliver S we = (\<lambda>s.
     if before_start S (we_header we) then (Inr None, s)
     else
       let s1 = (case we_event we of
                   Some (Ev_TableMap e) \<Rightarrow>
                     if event_type (we_header we) = TABLE_MAP_EVENT
                     then s\<lparr>st_table_map := dict_set (tme_table_id e) (get_table e) (st_table_map s)\<rparr> else s
                 | _ \<Rightarrow> s)
       in case we_event we of
            None \<Rightarrow> (Inr None, s1)
          | Some e \<Rightarrow>
              if class_of e \<notin> set (sc_allowed_events S) then (Inr None, s1)
              else (Inr (Some we),
                    case e of Ev_FormatDescription d \<Rightarrow>
                      if event_type (we_header we) = FORMAT_DESCRIPTION_EVENT
                      then s1\<lparr>st_mysql_version := fd_mysql_version d\<rparr> else s1
                    | _ \<Rightarrow> s1))"

definition handle_packet :: "'p net_ops \<Rightarrow> server \<Rightarrow> stream_config \<Rightarrow> 'p \<Rightarrow> (stream, 'p wrapped_event option) sx" where
  "handle_packet N V S pkt =
     bind_sx (receive N V S pkt) (\<lambda>we.
     bind_sx (track_position we) (\<lambda>_.
     bind_sx (check_end S) (\<lambda>_. deliver S we)))"

definition ensure_connected :: "server \<Rightarrow> stream_config \<Rightarrow> (stream, unit) sx" where
  "ensure_connected V S =
     bind_sx (\<lambda>s. if connected_stream s then (Inr (), s) else connect_to_stream V S s) (\<lambda>_.
       (\<lambda>s. if connected_ctl s then (Inr (), s) else connect_to_ctl V s))"

definition lose_stream :: "stream \<Rightarrow> stream" where
  "lose_stream s = s\<lparr>st_sent := st_sent s @ [CloseStream], connected_stream := False\<rparr>"

fun fetch_loop ::
    "'p net_ops \<Rightarrow> server \<Rightarrow> stream_config \<Rightarrow> stream \<Rightarrow> 'p net list \<Rightarrow> 'p fetched \<times> stream \<times> 'p net list" where
  "fetch_loop N V S s items =
     (if nonzero (sc_end_log_pos S) \<and> is_past_end_log_pos s then (NoMore, s, items)
      else case ensure_connected V S s of
        (Inl e, s1) \<Rightarrow> (Raised e, s1, items)
      | (Inr _, s1) \<Rightarrow>
          (case items of
             [] \<Rightarrow> (Waiting, s1, [])
           | OperationalError code # left \<Rightarrow>
               if code \<in> set MYSQL_EXPECTED_ERROR_CODES then fetch_loop N V S (lose_stream s1) left
               else (Raised DBError, s1, left)
           | Arrived pkt # left \<Rightarrow>
               if n_is_eof N pkt then (NoMore, close s1, left)
               else if \<not> n_is_ok N pkt then fetch_loop N V S s1 left
               else (case handle_packet N V S pkt s1 of
                       (Inl e, s2) \<Rightarrow> (Raised e, s2, left)
                     | (Inr None, s2) \<Rightarrow> fetch_loop N V S s2 left
                     | (Inr (Some we), s2) \<Rightarrow> (Fetched we, s2, left))))"

declare fetch_loop.simps [simp del]

definition fetchone ::
    "'p net_ops \<Rightarrow> server \<Rightarrow> stream_config \<Rightarrow> stream \<Rightarrow> 'p net list \<Rightarrow> 'p fetched \<times> stream \<times> 'p net list" where
  "fetchone N V S s items = fetch_loop N V S s items"

text \<open>Iteration calls \<open>fetchone\<close> until it returns \<open>None\<close>. Every event takes an item from the network, so the
  number of calls is bounded by the number of items (\<open>iter_enough\<close>). With every event goes the state of the
  reader at that moment, which the consumer looks at.\<close>

fun iter_loop ::
    "nat \<Rightarrow> 'p net_ops \<Rightarrow> server \<Rightarrow> stream_config \<Rightarrow> stream \<Rightarrow> 'p net list \<Rightarrow>
     ('p wrapped_event \<times> stream) list \<times> 'p fetched \<times> stream \<times> 'p net list" where
  "iter_loop 0 N V S s items = ([], Waiting, s, items)"
| "iter_loop (Suc n) N V S s items =
     (case fetchone N V S s items of
        (Fetched we, s', left) \<Rightarrow>
          (case iter_loop n N V S s' left of (ws, outcome, s'', left') \<Rightarrow> ((we, s') # ws, outcome, s'', left'))
      | (r, s', left) \<Rightarrow> ([], r, s', left))"

definition stream_iter ::
    "'p net_ops \<Rightarrow> server \<Rightarrow> stream_config \<Rightarrow> stream \<Rightarrow> 'p net list \<Rightarrow>
     ('p wrapped_event \<times> stream) list \<times> 'p fetched \<times> stream \<times> 'p net list" where
  "stream_iter N V S s items = iter_loop (Suc (length items)) N V S s items"

end
