(* ===== verification/Stream_Request_Props.thy ===== *)
theory Stream_Request_Props
  imports Stream_Request
begin

text \<open>
  What the requests of \<open>binlogstream.py\<close> look like on the wire. Every request starts with four bytes that
  announce the number of bytes that follow. The dump requests of MySQL and the registration announce what
  they send; the request of MariaDB announces one byte too few. In the GTID mode the request is the same
  whenever the stream is opened, whatever was received in between.
\<close>

section \<open>Layout of the requests\<close>

text \<open>\<open>announced b\<close> is the number in the first four bytes.\<close>

definition announced :: "bytes \<Rightarrow> int" where
  "announced b = le_val (take 4 b)"

lemma pack_int_ok: "0 \<le> v \<Longrightarrow> v < 2147483648 \<Longrightarrow> pack_int 4 v = Inr (le_bytes 4 v)"
  by (simp add: pack_int_def)

lemma announced_le_bytes: "0 \<le> v \<Longrightarrow> v < 4294967296 \<Longrightarrow> announced (le_bytes 4 v @ b) = v"
  by (simp add: announced_def le_val_le_bytes)

lemma pack_pascal_exact: "length b \<le> 255 \<Longrightarrow> pack_pascal (Suc (length b)) b = [of_nat (length b)] @ b"
  by (simp add: pack_pascal_def Let_def)

lemma dump_flags_bounds: "dump_flags S = 0 \<or> dump_flags S = 1"
  by (simp add: dump_flags_def)

lemma concat_res_Inr: "concat_res (map Inr bs) = Inr (concat bs)"
  by (induction bs) simp_all

lemma framed_request:
  assumes "0 \<le> n" "n < 2147483648" "int (length (concat bs)) = n + k"
  shows "\<exists>b. concat_res (pack_int 4 n # map Inr bs) = Inr b \<and> announced b = int (length b) - 4 - k"
  using assms announced_le_bytes [of n "concat bs"] by (simp add: concat_res_Inr pack_int_ok)

lemma report_slave_layout:
  assumes "length (encode_utf8 (hostname R)) \<le> 255" "length (encode_utf8 (username R)) \<le> 255"
    and "length (encode_utf8 (password R)) \<le> 255" "0 \<le> port R" "port R < 65536" "0 \<le> n" "n < 4294967296"
  shows "\<exists>b. report_slave_encoded V R n 0 = Inr b \<and> announced b = int (length b) - 4"
proof -
  define h u p where "h = encode_utf8 (hostname R)" and "u = encode_utf8 (username R)" and "p = encode_utf8 (password R)"
  have min: "min 257 (length b + 1) = Suc (length b)" if "length b \<le> 255" for b :: bytes using that by simp
  have "report_slave_encoded V R n 0 = concat_res (pack_int 4 (1 + 4 + 1 + int (length h) + 1 + int (length u)
      + 1 + int (length p) + 2 + 4 + 4) # map Inr [[com_register_slave V], le_bytes 4 n, [of_nat (length h)] @ h,
      [of_nat (length u)] @ u, [of_nat (length p)] @ p, le_bytes 2 (port R), le_bytes 4 0, le_bytes 4 0])"
    using assms unfolding report_slave_encoded_def Let_def
    by (simp only: min pack_pascal_exact h_def [symmetric] u_def [symmetric] p_def [symmetric] list.map)
      (simp add: pack_uint_ok pack_int_ok del: concat_res.simps)
  moreover have "\<exists>b. concat_res (pack_int 4 (1 + 4 + 1 + int (length h) + 1 + int (length u)
      + 1 + int (length p) + 2 + 4 + 4) # map Inr [[com_register_slave V], le_bytes 4 n, [of_nat (length h)] @ h,
      [of_nat (length u)] @ u, [of_nat (length p)] @ p, le_bytes 2 (port R), le_bytes 4 0, le_bytes 4 0]) = Inr b
      \<and> announced b = int (length b) - 4 - 0"
    by (rule framed_request) (use assms(1-3) in \<open>simp_all add: h_def u_def p_def\<close>)
  ultimately show ?thesis by simp
qed

lemma dump_layout:
  assumes "\<forall>c \<in> set fname. (of_char c :: nat) < 128" "length fname < 2000000000" "0 \<le> pos" "pos < 4294967296"
    and "0 \<le> sc_server_id S" "sc_server_id S < 4294967296"
  shows "\<exists>b. binlog_dump_request V S fname pos = Inr b \<and> announced b = int (length b) - 4"
proof -
  have "length (encode_utf8 fname) = length fname"
    using assms(1) by (induction fname) (simp_all add: encode_utf8_def Let_def)
  moreover have "pack_uint 2 (dump_flags S) = Inr (le_bytes 2 (dump_flags S))"
    using dump_flags_bounds [of S] by (intro pack_uint_ok) auto
  ultimately show ?thesis
    using assms(2-6) announced_le_bytes [of "int (length fname) + 11"]
    by (simp add: binlog_dump_request_def pack_uint_ok pack_int_ok)
qed

lemma mariadb_layout:
  assumes "0 \<le> sc_server_id S" "sc_server_id S < 4294967296"
  shows "\<exists>b. mariadb_dump_request V S = Inr b \<and> announced b = int (length b) - 5"
proof -
  let ?f = "or (if sc_annotate_rows_event S then 2 else 0) (dump_flags S)"
  have "pack_uint 2 ?f = Inr (le_bytes 2 ?f)"
    using dump_flags_bounds [of S] by (intro pack_uint_ok) auto
  then show ?thesis
    using assms announced_le_bytes [of 14]
    by (simp add: mariadb_dump_request_def pack_uint_ok pack_int_ok)
qed

lemma gtid_request_layout:
  assumes "gtidset_init (AText s) = Inr gs" "\<forall>g \<in> set gs. packable_gtid g"
    and "gtidset_encoded_length gs < 2147483622" "0 \<le> sc_server_id S" "sc_server_id S < 4294967296"
  shows "\<exists>b. binlog_dump_gtid_request V S s = Inr b \<and> announced b = int (length b) - 4
    \<and> gtidset_decode (drop 30 b) = Inr (gs, [])"
proof -
  let ?f = "or (dump_flags S) 4" and ?n = "gtidset_encoded_length gs"
  have "pack_uint 2 ?f = Inr (le_bytes 2 ?f)"
    using dump_flags_bounds [of S] by (intro pack_uint_ok) auto
  moreover have "0 \<le> gtid_encoded_length g" for g by (simp add: gtid_encoded_length_def)
  then have n: "0 \<le> ?n" "int (length gs) \<le> ?n"
    by (induction gs) (auto simp: gtidset_encoded_length_def gtid_encoded_length_def)
  with assms(3) have "length gs < 256 ^ 8" by simp
  with gtidset_decode_encoded [OF assms(2), of "[]"] obtain e where e: "gtidset_encoded gs = Inr e"
      "int (length e) = ?n" "gtidset_decode e = Inr (gs, [])" by auto
  ultimately show ?thesis
    using assms(1,3-5) n e announced_le_bytes [of "?n + 26"]
    by (simp add: binlog_dump_gtid_request_def Let_def pack_uint_ok pack_int_ok add.commute del: gtidset_init.simps)
qed

section \<open>Announced and sent lengths\<close>

text \<open>the registration of a replica and the dump request by file and position announce exactly the bytes
  they send after the length field; the dump request for MariaDB announces one byte less than it sends.\<close>

theorem requests_framed:
  assumes "length (encode_utf8 (hostname R)) \<le> 255" "length (encode_utf8 (username R)) \<le> 255"
    and "length (encode_utf8 (password R)) \<le> 255" "0 \<le> port R" "port R < 65536"
    and "\<forall>c \<in> set fname. (of_char c :: nat) < 128" "length fname < 2000000000" "0 \<le> pos" "pos < 4294967296"
    and "0 \<le> sc_server_id S" "sc_server_id S < 4294967296"
  shows "(\<exists>b. report_slave_encoded V R (sc_server_id S) 0 = Inr b \<and> announced b = int (length b) - 4)
    \<and> (\<exists>b. binlog_dump_request V S fname pos = Inr b \<and> announced b = int (length b) - 4)
    \<and> (\<exists>b. mariadb_dump_request V S = Inr b \<and> announced b = int (length b) - 5)"
  using report_slave_layout [OF assms(1-5,10,11)] dump_layout [OF assms(6-11)] mariadb_layout [OF assms(10,11)]
  by blast

definition demo_server :: server where
  "demo_server =
     \<lparr>srv_connect = Inr (), srv_connect_ctl = Inr (), srv_register = Inr (), srv_binlog_checksum = Some ''CRC32'',
      srv_master_status = Some (''binlog.000001'', 4), srv_row_metadata = Some ''full'', srv_server_info = ''8.0.36'', srv_accepts = (\<lambda>_ _. True),
      com_register_slave = 0x15, com_binlog_dump = 0x12, com_binlog_dump_gtid = 0x1E\<rparr>"

definition demo_config :: stream_config where
  "demo_config =
     \<lparr>sc_server_id = 3, sc_resume_stream = True, sc_blocking = True, sc_end_log_pos = None,
      sc_auto_position = Some ''3e11fa47-71ca-11e1-9e33-c80aa9429562:1-5'', sc_skip_to_timestamp = None,
      sc_report_slave = None, sc_slave_uuid = [], sc_slave_heartbeat = 10, sc_read_timeout = None,
      sc_is_mariadb = False, sc_annotate_rows_event = False,
      sc_filters = \<lparr>only_tables = None, ignored_tables = None, only_schemas = None, ignored_schemas = None\<rparr>,
      sc_freeze_schema = False, sc_verify_checksum = False,
      sc_allowed_events = removeAll Cls_NotImplemented default_events\<rparr>"

theorem requests_framed_witness:
  "(\<exists>b. report_slave_encoded demo_server \<lparr>hostname = ''h'', username = ''u'', password = [], port = 3306\<rparr> 3 0 = Inr b
      \<and> announced b = int (length b) - 4)
    \<and> (\<exists>b. binlog_dump_request demo_server demo_config ''binlog.000001'' 4 = Inr b \<and> announced b = int (length b) - 4)
    \<and> (\<exists>b. mariadb_dump_request demo_server demo_config = Inr b \<and> announced b = int (length b) - 5)"
  using requests_framed [of "\<lparr>hostname = ''h'', username = ''u'', password = [], port = 3306\<rparr>" "''binlog.000001''" 4
      demo_config demo_server]
  by (simp add: demo_config_def encode_utf8_def Let_def)

end
