(* ===== verification/Stream_Reader_Props.thy ===== *)
theory Stream_Reader_Props
  imports Stream_Reader Stream_Request_Props Events_Props
begin

text \<open>
  Properties of the loop of \<open>fetchone\<close>. Every call ends, and an event takes at least one item from the network.
  An event that is returned has the class its type stands for, and the class is one the caller allowed. The
  table map has one consistent entry per table, and a row event is read with the entry of its table. A
  connection that is lost in the GTID mode is opened again with the request of the first time.
\<close>

section \<open>The class of an event\<close>

lemma bind_sx_InrE:
  assumes "bind_sx m f w = (Inr v, w')"
  obtains x w1 where "m w = (Inr x, w1)" "f x w1 = (Inr v, w')"
  using assms by (auto simp: bind_sx_def split: prod.splits sum.splits)

lemma just_Inr:
  "just m tm w = (Inr (e, tm'), w') \<longleftrightarrow> tm' = tm \<and> (\<exists>x. e = Some x \<and> m w = (Inr x, w'))"
  by (auto simp: just_def bind_sx_def ret_sx_def split: prod.splits sum.splits)

lemma rows_obj_Inr:
  "rows_obj f m tm w = (Inr (e, tm'), w') \<longleftrightarrow> tm' = tm \<and> (\<exists>x. map_option f x = e \<and> m w = (Inr x, w'))"
  by (auto simp: rows_obj_def bind_sx_def ret_sx_def split: prod.splits sum.splits)

lemma map_sx_Inr:
  "bind_sx m (\<lambda>x. ret_sx (f x)) w = (Inr v, w') \<longleftrightarrow> (\<exists>x. v = f x \<and> m w = (Inr x, w'))"
  by (auto simp: bind_sx_def ret_sx_def split: prod.splits sum.splits)

lemma event_body_class:
  assumes "event_body RW P C A tm c w = (Inr (Some e, tm'), w')"
  shows "class_of e = c"
  using assms
  by (cases c) (auto simp: just_Inr rows_obj_Inr map_sx_Inr split_beta elim!: bind_sx_InrE)

section \<open>Row events and their tables\<close>

text \<open>\<open>of_table tm F r\<close>: the table map has the table of the row event, the event has its names, columns and
  primary key, and the filters let it through.\<close>

definition of_table :: "(int, table) dict \<Rightarrow> filters \<Rightarrow> rows_event \<Rightarrow> bool" where
  "of_table tm F r =
     (case map_of tm (re_table_id r) of
        None \<Rightarrow> False
      | Some t \<Rightarrow> re_schema r = t_schema t \<and> re_table r = t_table t \<and> re_columns r = t_columns t
          \<and> re_primary_key r = t_primary_key t \<and> \<not> filtered_out F (t_schema t) (t_table t))"

lemma rows_event_init_of_table:
  assumes "rows_event_init P F tm et sz w = (Inr (Some r), w')"
  shows "of_table tm F r"
  using assms unfolding rows_event_init_def
  by (auto simp: of_table_def ret_sx_def split: option.splits if_splits elim!: bind_sx_InrE)

lemma rows_inits_of_table:
  "write_rows_event_init P F tm et sz w = (Inr (Some r), w') \<Longrightarrow> of_table tm F r"
  "delete_rows_event_init P F tm et sz w = (Inr (Some r), w') \<Longrightarrow> of_table tm F r"
  "update_rows_event_init P F tm et sz w = (Inr (Some r), w') \<Longrightarrow> of_table tm F r"
  unfolding write_rows_event_init_def delete_rows_event_init_def update_rows_event_init_def
  by (auto simp: ret_sx_def of_table_def split: option.splits elim!: bind_sx_InrE dest!: rows_event_init_of_table)

fun row_event_of :: "event_obj \<Rightarrow> rows_event option" where
  "row_event_of (Ev_UpdateRows r) = Some r"
| "row_event_of (Ev_WriteRows r) = Some r"
| "row_event_of (Ev_DeleteRows r) = Some r"
| "row_event_of (Ev_PartialUpdateRows r) = Some r"
| "row_event_of _ = None"

fun table_map_of :: "event_obj \<Rightarrow> table_map_event option" where
  "table_map_of (Ev_TableMap e) = Some e"
| "table_map_of _ = None"

lemma table_map_init_table:
  assumes "table_map_event_init P F fz om dbms tm w = (Inr (Some e, tm'), w')"
  shows "table_id (get_table e) = tme_table_id e
    \<and> t_primary_key (get_table e) = primary_key_of (t_columns (get_table e))
    \<and> (\<forall>k. k \<noteq> tme_table_id e \<longrightarrow> map_of tm' k = map_of tm k)"
  using assms unfolding table_map_event_init_def table_map_body_def
  by (auto simp: ret_sx_def get_table_def table_init_def Let_def split: if_splits prod.splits elim!: bind_sx_InrE)

lemma table_map_init_None:
  assumes "table_map_event_init P F fz om dbms tm w = (Inr (None, tm'), w')"
  shows "tm' = tm"
  using assms unfolding table_map_event_init_def
  by (auto simp: ret_sx_def split: if_splits prod.splits elim!: bind_sx_InrE)

lemma event_body_tables:
  assumes "event_body RW P C A tm c w = (Inr (e, tm'), w')"
  shows "case e of
      Some x \<Rightarrow> (case table_map_of x of
          None \<Rightarrow> tm' = tm
        | Some m \<Rightarrow> table_id (get_table m) = tme_table_id m
            \<and> t_primary_key (get_table m) = primary_key_of (t_columns (get_table m))
            \<and> (\<forall>k. k \<noteq> tme_table_id m \<longrightarrow> map_of tm' k = map_of tm k))
        \<and> (\<forall>r. row_event_of x = Some r \<longrightarrow> of_table tm (wc_filters C) r)
    | None \<Rightarrow> tm' = tm"
  using assms
  by (cases c) (auto simp: just_Inr rows_obj_Inr map_sx_Inr split_beta split: option.splits elim!: bind_sx_InrE
      dest!: rows_inits_of_table table_map_init_table table_map_init_None)

section \<open>What opening the stream leaves alone\<close>

definition keeps :: "('s \<Rightarrow> 'b) \<Rightarrow> ('s, 'a) sx \<Rightarrow> bool" where
  "keeps f m = (\<forall>s r s'. m s = (r, s') \<longrightarrow> f s' = f s)"

lemma keepsD: "keeps f m \<Longrightarrow> m s = (r, s') \<Longrightarrow> f s' = f s"
  by (auto simp: keeps_def)

lemma keeps_ret: "keeps f (ret_sx x)" and keeps_lift: "keeps f (lift_sx v)"
  and keeps_modify: "(\<And>s. f (g s) = f s) \<Longrightarrow> keeps f (modify_stream g)"
  by (auto simp: keeps_def ret_sx_def lift_sx_def modify_stream_def)

lemma keeps_send: "(\<And>s ss. f (s\<lparr>st_sent := ss\<rparr>) = f s) \<Longrightarrow> keeps f (send V x)"
  by (auto simp: keeps_def send_def)

lemma keeps_bind: "keeps f m \<Longrightarrow> (\<And>x. keeps f (g x)) \<Longrightarrow> keeps f (bind_sx m g)"
  by (force simp: keeps_def bind_sx_def split: prod.splits sum.splits)

lemma keeps_unless: "keeps f m \<Longrightarrow> keeps f (\<lambda>s. if b s then (Inr x, s) else m s)"
  by (simp add: keeps_def)

lemma keeps_if: "keeps f m \<Longrightarrow> keeps f m' \<Longrightarrow> keeps f (if b then m else m')"
  by simp

lemma keeps_option: "keeps f m \<Longrightarrow> (\<And>x. keeps f (g x)) \<Longrightarrow> keeps f (case v of None \<Rightarrow> m | Some x \<Rightarrow> g x)"
  by (cases v) simp_all

lemma keeps_prod: "(\<And>x y. keeps f (g x y)) \<Longrightarrow> keeps f (case p of (x, y) \<Rightarrow> g x y)"
  by (cases p) simp

lemmas keeps_rules = keeps_bind keeps_if keeps_option keeps_prod keeps_ret keeps_lift keeps_modify keeps_send

lemma keeps_current_position: "keeps st_table_map (current_position V)"
  unfolding current_position_def keeps_def
  by (auto simp: bind_sx_def send_def split: option.splits prod.splits)

lemma keeps_connect: "keeps st_table_map (connect_to_stream V S)" "keeps st_table_map (connect_to_ctl V)"
  unfolding connect_to_stream_def checksum_enabled_def register_slave_def prelude_bytes_def set_mariadb_settings_def
    connect_to_ctl_def check_optional_meta_data_def
  by (intro keeps_rules keeps_current_position; simp)+

lemma keeps_ensure_connected: "keeps st_table_map (ensure_connected V S)"
  unfolding ensure_connected_def by (intro keeps_bind keeps_unless keeps_connect)

section \<open>Invariants of the reader\<close>

text \<open>\<open>I\<close> is an invariant of the reader with the settings \<open>S\<close>, and \<open>Q\<close> holds of every event at the moment it is
  returned, when opening, losing and closing a connection keep \<open>I\<close> and handling a packet gives both.\<close>

locale stream_invariant =
  fixes I :: "stream_config \<Rightarrow> stream \<Rightarrow> bool" and Q :: "stream_config \<Rightarrow> 'p wrapped_event \<Rightarrow> stream \<Rightarrow> bool"
  assumes connect: "I S s \<Longrightarrow> ensure_connected V S s = (Inr u, s') \<Longrightarrow> I S s'"
    and lose: "I S s \<Longrightarrow> I S (lose_stream s)"
    and closing: "I S s \<Longrightarrow> I S (close s)"
    and packet: "I S s \<Longrightarrow> handle_packet N V S pkt s = (Inr r, s') \<Longrightarrow> I S s' \<and> (\<forall>we. r = Some we \<longrightarrow> Q S we s')"
begin

lemma fetch:
  assumes "I S s" "fetch_loop N V S s items = (out, s', left)" "\<forall>e. out \<noteq> Raised e"
  shows "I S s' \<and> (\<forall>we. out = Fetched we \<longrightarrow> Q S we s')"
  using assms
proof (induction items arbitrary: s)
  case Nil
  then show ?case
    by (subst (asm) fetch_loop.simps) (auto split: if_splits prod.splits sum.splits dest: connect)
next
  case (Cons it items)
  show ?case
  proof (cases "nonzero (sc_end_log_pos S) \<and> is_past_end_log_pos s")
    case True
    with Cons.prems show ?thesis by (subst (asm) fetch_loop.simps) auto
  next
    case False
    obtain s1 where c: "ensure_connected V S s = (Inr (), s1)"
      using Cons.prems False by (subst (asm) fetch_loop.simps) (auto split: prod.splits sum.splits)
    note step = Cons.prems(2) [unfolded fetch_loop.simps [of N V S s] c] connect [OF Cons.prems(1) c] Cons.prems(3)
    show ?thesis
    proof (cases it)
      case (OperationalError code)
      with step False Cons.IH show ?thesis by (auto split: if_splits intro: lose)
    next
      case (Arrived pkt)
      with step False Cons.IH show ?thesis
        by (auto split: if_splits prod.splits sum.splits option.splits dest: packet intro: closing)
    qed
  qed
qed

lemma iter:
  assumes "I S s" "iter_loop n N V S s items = (ws, res)" "(we, st) \<in> set ws"
  shows "I S st \<and> Q S we st"
  using assms
proof (induction n arbitrary: s items ws res)
  case (Suc n)
  obtain out s' left where f: "fetchone N V S s items = (out, s', left)" using prod_cases3 by blast
  with Suc.prems(2,3) obtain w where out: "out = Fetched w" by (cases out) auto
  from f out have "fetch_loop N V S s items = (Fetched w, s', left)" by (simp add: fetchone_def)
  with Suc.prems(1) have "I S s'" "Q S w s'" using fetch by blast+
  with Suc.IH [of s' left] Suc.prems(2,3) f out show ?case by (auto split: prod.splits)
qed simp

lemma iter_from_first:
  assumes "iter_loop n N V S s items = (ws, res)" "I S (snd (hd ws))" "x \<in> set (tl ws)"
  shows "I S (snd x) \<and> Q S (fst x) (snd x)"
proof -
  obtain w s' ws' where ws: "ws = (w, s') # ws'" using assms(3) by (cases ws) auto
  with assms(1) obtain m left res' where "iter_loop m N V S s' left = (ws', res')"
    by (cases n) (auto split: prod.splits fetched.splits)
  with iter [of S s'] ws assms(2,3) show ?thesis by (cases x) auto
qed

end

lemma wrapper_init_event:
  assumes "wrapper_init RW P C tm pkt = Inr (we, tm')"
  shows "case we_event we of
      None \<Rightarrow> tm' = tm
    | Some e \<Rightarrow> class_of e = event_class_of (event_type (we_header we)) \<and> class_of e \<in> set (wc_allowed_events C)
        \<and> (case table_map_of e of
             None \<Rightarrow> tm' = tm
           | Some m \<Rightarrow> table_id (get_table m) = tme_table_id m
               \<and> t_primary_key (get_table m) = primary_key_of (t_columns (get_table m))
               \<and> (\<forall>k. k \<noteq> tme_table_id m \<longrightarrow> map_of tm' k = map_of tm k))
        \<and> (\<forall>r. row_event_of e = Some r \<longrightarrow> of_table tm (wc_filters C) r)"
proof -
  obtain w1 w v where w: "wrapper_event RW P C tm (we_header we) w1 = (Inr ((v, we_event we), tm'), w)"
    using assms by (auto simp: wrapper_init_def ret_sx_def split: prod.splits sum.splits elim!: bind_sx_InrE)
  show ?thesis
  proof (cases "event_class_of (event_type (we_header we)) \<in> set (wc_allowed_events C)")
    case False
    with w show ?thesis by (simp add: wrapper_event_def ret_sx_def Let_def)
  next
    case True
    with w obtain w2 where "event_body RW P C (event_args_of C (we_header we)) tm
        (event_class_of (event_type (we_header we))) w2 = (Inr (we_event we, tm'), w)"
      by (auto simp: wrapper_event_def ret_sx_def Let_def split: prod.splits elim!: bind_sx_InrE)
    with True event_body_tables [OF this] event_body_class [of RW P C _ tm _ w2] show ?thesis
      by (auto split: option.splits)
  qed
qed

text \<open>An entry of the table map is filed under the identifier of its table, and its primary key is the one of
  its columns.\<close>

definition consistent :: "(int, table) dict \<Rightarrow> bool" where
  "consistent tm = (\<forall>k t. map_of tm k = Some t \<longrightarrow> table_id t = k \<and> t_primary_key t = primary_key_of (t_columns t))"

definition delivered :: "stream_config \<Rightarrow> 'p wrapped_event \<Rightarrow> bool" where
  "delivered S we =
     (case we_event we of
        None \<Rightarrow> False
      | Some e \<Rightarrow> class_of e = event_class_of (event_type (we_header we)) \<and> class_of e \<in> set (sc_allowed_events S)
          \<and> \<not> before_start S (we_header we))"

lemma handle_packet_delivered:
  assumes "handle_packet N V S pkt s = (Inr (Some we), s')"
  shows "delivered S we"
proof -
  from assms obtain we' s1 s2 where r: "receive N V S pkt s = (Inr we', s1)" and d: "deliver S we' s2 = (Inr (Some we), s')"
    by (auto simp: handle_packet_def elim!: bind_sx_InrE)
  from d have "we' = we" "\<not> before_start S (we_header we)"
    and e: "case we_event we of None \<Rightarrow> False | Some e \<Rightarrow> class_of e \<in> set (sc_allowed_events S)"
    by (auto simp: deliver_def Let_def split: if_splits option.splits)
  moreover from r obtain tm where "wrapper_init (n_rewind N) (n_packet N) (wrapper_config_of V S s) (st_table_map s) pkt
      = Inr (we', tm)"
    by (auto simp: receive_def split: sum.splits)
  ultimately show ?thesis
    using wrapper_init_event [of "n_rewind N" "n_packet N" "wrapper_config_of V S s" "st_table_map s" pkt we' tm]
    by (auto simp: delivered_def split: option.splits)
qed

lemma table_map_type: "event_class_of t = Cls_TableMap \<Longrightarrow> t = TABLE_MAP_EVENT"
  by (auto simp: event_class_of_def event_map_def split: option.splits if_splits)

lemma keeps_check_end: "keeps st_table_map (check_end S)"
  by (auto simp: keeps_def check_end_def split: option.splits if_splits)

lemma track_position_tables:
  assumes "track_position we s = (Inr u, s')"
  shows "st_table_map s' = st_table_map s \<or> (st_table_map s' = [] \<and> (\<exists>r. we_event we = Some (Ev_Rotate r)))"
  using assms by (auto simp: track_position_def Let_def split: if_splits option.splits event_obj.splits)

lemma deliver_tables:
  assumes "deliver S we s = (Inr r, s')" "\<not> before_start S (we_header we)"
    and "\<And>e. we_event we = Some e \<Longrightarrow> class_of e = event_class_of (event_type (we_header we))"
  shows "st_table_map s' = (case Option.bind (we_event we) table_map_of of
      None \<Rightarrow> st_table_map s | Some m \<Rightarrow> dict_set (tme_table_id m) (get_table m) (st_table_map s))"
    and "r = Some we \<or> r = None"
proof -
  have "event_type (we_header we) = TABLE_MAP_EVENT" if "we_event we = Some (Ev_TableMap m)" for m
    using assms(3) [OF that] by (intro table_map_type) simp
  with assms(1,2) show "st_table_map s' = (case Option.bind (we_event we) table_map_of of
      None \<Rightarrow> st_table_map s | Some m \<Rightarrow> dict_set (tme_table_id m) (get_table m) (st_table_map s))"
    by (auto simp: deliver_def Let_def split: option.splits event_obj.splits if_splits)
  show "r = Some we \<or> r = None"
    using assms(1) by (auto simp: deliver_def Let_def split: option.splits if_splits)
qed

lemma handle_packet_tables:
  assumes "handle_packet N V S pkt s = (Inr r, s')" "consistent (st_table_map s)" "\<not> nonzero (sc_skip_to_timestamp S)"
  shows "consistent (st_table_map s')
    \<and> (\<forall>we e row. r = Some we \<longrightarrow> we_event we = Some e \<longrightarrow> row_event_of e = Some row \<longrightarrow>
         of_table (st_table_map s') (sc_filters S) row)"
proof -
  have skip: "\<not> before_start S h" for h
    using assms(3) by (auto simp: nonzero_def before_start_def split: option.splits)
  from assms(1) obtain we s1 s2 s3 where r: "receive N V S pkt s = (Inr we, s1)"
      and t: "track_position we s1 = (Inr (), s2)" and c: "check_end S s2 = (Inr (), s3)"
      and d: "deliver S we s3 = (Inr r, s')"
    by (auto simp: handle_packet_def elim!: bind_sx_InrE)
  from r obtain tm where w: "wrapper_init (n_rewind N) (n_packet N) (wrapper_config_of V S s) (st_table_map s) pkt
      = Inr (we, tm)" and tm: "st_table_map s1 = tm"
    by (auto simp: receive_def split: sum.splits)
  note we = wrapper_init_event [OF w]
  have t3: "st_table_map s3 = st_table_map s2" by (rule keepsD [OF keeps_check_end c])
  have cls: "class_of e = event_class_of (event_type (we_header we))" if "we_event we = Some e" for e
    using we that by simp
  note dl = deliver_tables [OF d skip cls]
  show ?thesis
  proof (cases "Option.bind (we_event we) table_map_of")
    case (Some m)
    then have m: "we_event we = Some (Ev_TableMap m)"
      by (cases "we_event we") (auto elim: table_map_of.elims)
    with track_position_tables [OF t] have "st_table_map s2 = tm" by (simp add: tm)
    with dl(1) m t3 have "st_table_map s' = dict_set (tme_table_id m) (get_table m) tm" by simp
    with we m assms(2) dl(2) show ?thesis by (auto simp: consistent_def)
  next
    case None
    then have "tm = st_table_map s" using we by (auto split: option.splits)
    with track_position_tables [OF t] tm t3 dl(1) None
    have "st_table_map s' = st_table_map s \<or> (st_table_map s' = [] \<and> (\<exists>r. we_event we = Some (Ev_Rotate r)))"
      by simp
    with assms(2) dl(2) we show ?thesis
      by (auto simp: consistent_def wrapper_config_of_def split: option.splits)
  qed
qed

interpretation delivery: stream_invariant "\<lambda>S s. True" "\<lambda>S we s. delivered S we"
  by unfold_locales (auto dest: handle_packet_delivered)

interpretation tables: stream_invariant
    "\<lambda>S s. \<not> nonzero (sc_skip_to_timestamp S) \<longrightarrow> consistent (st_table_map s)"
    "\<lambda>S we s. \<not> nonzero (sc_skip_to_timestamp S) \<longrightarrow>
      (\<forall>e row. we_event we = Some e \<longrightarrow> row_event_of e = Some row \<longrightarrow> of_table (st_table_map s) (sc_filters S) row)"
proof unfold_locales
  fix S V s u s'
  assume "\<not> nonzero (sc_skip_to_timestamp S) \<longrightarrow> consistent (st_table_map s)" "ensure_connected V S s = (Inr u, s')"
  then show "\<not> nonzero (sc_skip_to_timestamp S) \<longrightarrow> consistent (st_table_map s')"
    using keepsD [OF keeps_ensure_connected] by metis
qed (auto simp: lose_stream_def close_def Let_def dest: handle_packet_tables)

section \<open>Calls and iteration\<close>

lemma fetch_loop_shorter:
  assumes "fetch_loop N V S s items = (Fetched we, s', left)"
  shows "length left < length items"
  using assms
proof (induction items arbitrary: s)
  case Nil
  then show ?case by (subst (asm) fetch_loop.simps) (auto split: if_splits prod.splits sum.splits)
next
  case (Cons it items)
  show ?case
    using Cons.prems
    by (subst (asm) fetch_loop.simps)
      (auto split: if_splits prod.splits sum.splits option.splits net.splits dest!: Cons.IH)
qed

lemma iter_enough:
  assumes "length items < n"
  shows "iter_loop n N V S s items = stream_iter N V S s items
    \<and> (\<forall>we. fst (snd (iter_loop n N V S s items)) \<noteq> Fetched we)"
  unfolding stream_iter_def using assms
proof (induction n arbitrary: s items rule: less_induct)
  case (less n)
  then obtain m where n: "n = Suc m" by (cases n) auto
  obtain out s' left where f: "fetchone N V S s items = (out, s', left)" by (cases "fetchone N V S s items") auto
  show ?case
  proof (cases out)
    case (Fetched we)
    with f have l: "length left < length items" by (auto simp: fetchone_def dest: fetch_loop_shorter)
    from less.IH [of m left s'] l less.prems n
      less.IH [of "length items" left s'] 
    have "iter_loop m N V S s' left = iter_loop (length items) N V S s' left"
        "\<forall>we. fst (snd (iter_loop m N V S s' left)) \<noteq> Fetched we"
      by auto
    with f Fetched n show ?thesis by (auto split: prod.splits)
  qed (use f n in auto)
qed

lemma iter_tables:
  assumes "iter_loop n N V S s items = (ws, res)" "\<not> nonzero (sc_skip_to_timestamp S)" "consistent (st_table_map s)"
    and "(we, st) \<in> set ws"
  shows "delivered S we \<and> consistent (st_table_map st)
    \<and> (\<forall>e row. we_event we = Some e \<longrightarrow> row_event_of e = Some row \<longrightarrow> of_table (st_table_map st) (sc_filters S) row)"
  using delivery.iter [OF _ assms(1,4)] tables.iter [OF _ assms(1,4)] assms(2,3) by simp

text \<open>C37: iteration over the stream ends: the number of items from the network bounds the number of calls, the
  last call returns no event, and every call before it returns an event of a class that the caller allowed and
  that the event map gives the type in the header.\<close>

theorem stream_iteration_ends:
  "(length items < n \<longrightarrow> iter_loop n N V S s items = stream_iter N V S s items)
   \<and> (\<forall>we. fst (snd (stream_iter N V S s items)) \<noteq> Fetched we)
   \<and> (fetchone N V S s items = (Fetched we, s', left) \<longrightarrow> delivered S we \<and> length left < length items)"
proof (intro conjI impI)
  show "iter_loop n N V S s items = stream_iter N V S s items" if "length items < n"
    using iter_enough [OF that] by blast
  show "\<forall>we. fst (snd (stream_iter N V S s items)) \<noteq> Fetched we"
    using iter_enough [of items "Suc (length items)" N V S s] by (metis lessI)
  assume f: "fetchone N V S s items = (Fetched we, s', left)"
  show "delivered S we" using delivery.fetch [OF _ f [unfolded fetchone_def]] by simp
  show "length left < length items" by (rule fetch_loop_shorter [OF f [unfolded fetchone_def]])
qed

text \<open>C38: every row event of an iteration carries the names, columns and primary key of the entry that the
  table map has for its table at that moment, and every entry is filed under its table with the primary key of
  its columns (given that no start time is set).\<close>

theorem stream_tables_consistent:
  assumes "stream_iter N V S s items = (ws, res)" "\<not> nonzero (sc_skip_to_timestamp S)" "consistent (st_table_map s)"
    and "(we, st) \<in> set ws"
  shows "consistent (st_table_map st)
    \<and> (\<forall>e row. we_event we = Some e \<longrightarrow> row_event_of e = Some row \<longrightarrow> of_table (st_table_map st) (sc_filters S) row)"
  using iter_tables [OF assms(1) [unfolded stream_iter_def] assms(2-4)] by simp

section \<open>Lost connections\<close>

text \<open>\<open>says m xs\<close>: the action \<open>m\<close> succeeds and sends \<open>xs\<close>, whatever the state is, and changes nothing else.\<close>

definition says :: "(stream, unit) sx \<Rightarrow> sent list \<Rightarrow> bool" where
  "says m xs = (\<forall>s. m s = (Inr (), s\<lparr>st_sent := st_sent s @ xs\<rparr>))"

lemma says_bind: "says m xs \<Longrightarrow> bind_sx m (\<lambda>_. f) s = f (s\<lparr>st_sent := st_sent s @ xs\<rparr>)"
  by (simp add: says_def bind_sx_def)

definition accepts_all :: "server \<Rightarrow> bool" where
  "accepts_all V = (\<forall>h x. srv_accepts V h x)"

lemma says_send: "accepts_all V \<Longrightarrow> says (send V x) [x]"
  by (simp add: says_def send_def accepts_all_def)

lemma says_if: "accepts_all V \<Longrightarrow> \<exists>xs. says (if c then send V x else ret_sx ()) xs"
  by (cases c) (auto simp: says_def send_def accepts_all_def intro: exI [of _ "[]"])

lemma says_register:
  assumes "case sc_report_slave S of None \<Rightarrow> True | Some R \<Rightarrow> is_ok (report_slave_encoded V R (sc_server_id S) 0)"
    and "srv_register V = Inr ()" "accepts_all V"
  shows "\<exists>xs. says (register_slave V S) xs"
proof (cases "sc_report_slave S")
  case None
  then show ?thesis by (intro exI [of _ "[]"]) (simp add: register_slave_def says_def)
next
  case (Some R)
  with assms(1) obtain x where "report_slave_encoded V R (sc_server_id S) 0 = Inr x"
    by (auto simp: is_ok_def split: sum.splits)
  with Some assms(2,3) show ?thesis
    by (intro exI [of _ "[Raw x]"]) (simp add: register_slave_def says_def bind_sx_def lift_sx_def send_def accepts_all_def)
qed

definition checksummed :: "server \<Rightarrow> bool" where
  "checksummed V = (case srv_binlog_checksum V of None \<Rightarrow> False | Some v \<Rightarrow> v \<noteq> ''NONE'')"

text \<open>\<open>gtid_mode V S b\<close>: the reader resumes from a GTID set, \<open>b\<close> is the request for it, and the server accepts.\<close>

definition gtid_mode :: "server \<Rightarrow> stream_config \<Rightarrow> bytes \<Rightarrow> bool" where
  "gtid_mode V S b =
     (srv_connect V = Inr () \<and> srv_register V = Inr () \<and> accepts_all V \<and> \<not> sc_is_mariadb S
      \<and> (case sc_auto_position S of None \<Rightarrow> False | Some p \<Rightarrow> p \<noteq> [] \<and> binlog_dump_gtid_request V S p = Inr b)
      \<and> (case sc_report_slave S of None \<Rightarrow> True | Some R \<Rightarrow> is_ok (report_slave_encoded V R (sc_server_id S) 0)))"

lemma gtid_connect_fixed:
  assumes "gtid_mode V S b"
  shows "\<exists>pre. \<forall>s. connect_to_stream V S s
    = (Inr (), s\<lparr>connected_stream := True, use_checksum := checksummed V, st_sent := st_sent s @ pre @ [Raw b]\<rparr>)"
proof -
  have acc: "accepts_all V" using assms by (simp add: gtid_mode_def)
  obtain reg where reg: "says (register_slave V S) reg"
    using assms says_register unfolding gtid_mode_def by blast
  have pre: "prelude_bytes V S = lift_sx (Inr b)"
    using assms by (auto simp: gtid_mode_def prelude_bytes_def split: option.splits)
  have con: "bind_sx (lift_sx (srv_connect V)) f = f ()" for f :: "unit \<Rightarrow> (stream, unit) sx"
    using assms by (simp add: gtid_mode_def bind_sx_def lift_sx_def)
  define ask where "ask = [Sql (''SHOW GLOBAL VARIABLES LIKE '' @ quoted ''BINLOG_CHECKSUM'')]"
  have chk: "bind_sx (checksum_enabled V) f s = f (checksummed V) (s\<lparr>st_sent := st_sent s @ ask\<rparr>)"
    for f :: "bool \<Rightarrow> (stream, unit) sx" and s
    using acc unfolding checksum_enabled_def checksummed_def ask_def by (simp add: bind_sx_def send_def accepts_all_def)
  have md: "bind_sx (modify_stream g) (\<lambda>_. f) s = f (g s)" for f :: "(stream, unit) sx" and g s
    by (simp add: bind_sx_def modify_stream_def)
  have pb: "bind_sx (lift_sx (Inr b)) f = f b" for f :: "bytes \<Rightarrow> (stream, unit) sx"
    by (simp add: bind_sx_def lift_sx_def)
  obtain x1 where x1: "says (if checksummed V
      then send V (Sql ''SET @master_binlog_checksum= @@global.binlog_checksum'') else ret_sx ()) x1"
    using says_if [OF acc] by blast
  obtain x2 where x2: "says (if sc_slave_uuid S \<noteq> []
      then send V (Sql (''SET @slave_uuid = '' @ quoted (sc_slave_uuid S) @ '', @replica_uuid = '' @ quoted (sc_slave_uuid S)))
      else ret_sx ()) x2"
    using says_if [OF acc] by blast
  obtain x3 where x3: "says (if sc_slave_heartbeat S \<noteq> 0
      then send V (Sql (''SET @master_heartbeat_period= '' @ str_int (heartbeat_period S))) else ret_sx ()) x3"
    using says_if [OF acc] by blast
  show ?thesis
    unfolding connect_to_stream_def con pre chk md pb says_bind [OF x1] says_bind [OF x2] says_bind [OF x3]
      says_bind [OF says_send [OF acc]] says_bind [OF reg]
    by (intro exI [of _ "ask @ x1 @ x2 @ x3 @ [Sql ''SET @mariadb_slave_capability=4''] @ reg"])
      (simp add: modify_stream_def del: append_Cons append_Nil)
qed

text \<open>C39: in the GTID mode every opening of the stream sends the same request, whatever has been received before.
  When the connection is lost, the next call therefore asks for the transactions after the initial position
  again, not for those after the last event it returned.\<close>

theorem lost_connection_restarts:
  assumes "gtid_mode V S b"
  shows "\<exists>pre. (\<forall>s. connect_to_stream V S s
      = (Inr (), s\<lparr>connected_stream := True, use_checksum := checksummed V, st_sent := st_sent s @ pre @ [Raw b]\<rparr>))
    \<and> (\<forall>N s code left. connected_stream s \<and> connected_ctl s \<and> \<not> is_past_end_log_pos s
        \<and> code \<in> set MYSQL_EXPECTED_ERROR_CODES \<longrightarrow>
        fetchone N V S s (OperationalError code # left)
          = fetchone N V S (s\<lparr>use_checksum := checksummed V, st_sent := st_sent s @ CloseStream # pre @ [Raw b]\<rparr>) left)"
proof -
  obtain pre where pre: "\<And>s. connect_to_stream V S s
      = (Inr (), s\<lparr>connected_stream := True, use_checksum := checksummed V, st_sent := st_sent s @ pre @ [Raw b]\<rparr>)"
    using gtid_connect_fixed [OF assms] by blast
  have "fetch_loop N V S s (OperationalError code # left)
      = fetch_loop N V S (s\<lparr>use_checksum := checksummed V, st_sent := st_sent s @ CloseStream # pre @ [Raw b]\<rparr>) left"
    if "connected_stream s" "connected_ctl s" "\<not> is_past_end_log_pos s" "code \<in> set MYSQL_EXPECTED_ERROR_CODES"
    for N :: "'a net_ops" and s code left
  proof -
    let ?s2 = "s\<lparr>use_checksum := checksummed V, st_sent := st_sent s @ CloseStream # pre @ [Raw b]\<rparr>"
    have "ensure_connected V S s = (Inr (), s)" "ensure_connected V S ?s2 = (Inr (), ?s2)"
        "ensure_connected V S (lose_stream s) = (Inr (), ?s2)"
      using that pre by (simp_all add: ensure_connected_def bind_sx_def lose_stream_def)
    moreover from this have "fetch_loop N V S (lose_stream s) left = fetch_loop N V S ?s2 left"
      using that by (subst (1 2) fetch_loop.simps) (simp add: lose_stream_def)
    ultimately show ?thesis using that by (subst fetch_loop.simps) simp
  qed
  with pre show ?thesis unfolding fetchone_def by blast
qed

section \<open>A small stream\<close>

definition demo_net :: "(nat \<times> bytes) net_ops" where
  "demo_net = \<lparr>n_packet = seek_packet, n_rewind = seek_rewind, n_is_eof = (\<lambda>(i, b). take 1 b = [254] \<and> length b < 9),
     n_is_ok = (\<lambda>(i, b). take 1 b = [0])\<rparr>"

definition demo_table_map :: bytes where
  "demo_table_map = [0, 1, 0, 0, 0, 19, 1, 0, 0, 0, 41, 0, 0, 0, 45, 0, 0, 0, 0, 0]
     @ [7, 0, 0, 0, 0, 0, 1, 0, 1, 100, 0, 1, 116, 0, 1, 3, 0, 0] @ [9, 9, 9, 9]"

definition demo_write_rows :: bytes where
  "demo_write_rows = [0, 1, 0, 0, 0, 30, 1, 0, 0, 0, 40, 0, 0, 0, 85, 0, 0, 0, 0, 0]
     @ [7, 0, 0, 0, 0, 0, 1, 0, 2, 0, 1, 1, 0, 5, 0, 0, 0] @ [9, 9, 9, 9]"

definition demo_stream :: stream where
  "demo_stream = (stream_init (Some 4) (Some ''binlog.000001''))\<lparr>connected_stream := True, connected_ctl := True, use_checksum := True\<rparr>"

lemma demo_iter:
  "case stream_iter demo_net demo_server demo_config demo_stream [Arrived (0, demo_table_map), Arrived (0, demo_write_rows)]
   of (ws, _) \<Rightarrow> map (\<lambda>(we, st). (map_option class_of (we_event we), map fst (st_table_map st), st_log_pos st)) ws
     = [(Some Cls_TableMap, [7], Some 45), (Some Cls_WriteRows, [7], Some 85)]"
  by code_simp

lemma demo_first:
  "case fst (fetchone demo_net demo_server demo_config demo_stream [Arrived (0, demo_table_map), Arrived (0, demo_write_rows)])
   of Fetched we \<Rightarrow> True | _ \<Rightarrow> False"
  by code_simp

theorem stream_iteration_ends_witness:
  "\<exists>we s' left. fetchone demo_net demo_server demo_config demo_stream [Arrived (0, demo_table_map), Arrived (0, demo_write_rows)]
      = (Fetched we, s', left) \<and> delivered demo_config we \<and> length left < 2
    \<and> iter_loop 9 demo_net demo_server demo_config demo_stream [Arrived (0, demo_table_map), Arrived (0, demo_write_rows)]
      = stream_iter demo_net demo_server demo_config demo_stream [Arrived (0, demo_table_map), Arrived (0, demo_write_rows)]"
proof -
  let ?items = "[Arrived (0, demo_table_map), Arrived (0, demo_write_rows)]"
  obtain out s' left where f: "fetchone demo_net demo_server demo_config demo_stream ?items = (out, s', left)"
    using prod_cases3 by blast
  with demo_first obtain we where "out = Fetched we" by (cases out) auto
  with f stream_iteration_ends [of ?items 9 demo_net demo_server demo_config demo_stream we s' left] show ?thesis by auto
qed

theorem stream_tables_consistent_witness:
  "\<exists>we st e row. (we, st) \<in> set (fst (stream_iter demo_net demo_server demo_config demo_stream
        [Arrived (0, demo_table_map), Arrived (0, demo_write_rows)]))
    \<and> we_event we = Some e \<and> row_event_of e = Some row \<and> of_table (st_table_map st) (sc_filters demo_config) row"
proof -
  obtain ws res where f: "stream_iter demo_net demo_server demo_config demo_stream
      [Arrived (0, demo_table_map), Arrived (0, demo_write_rows)] = (ws, res)"
    by (metis surj_pair)
  with demo_iter obtain w1 we st e where ws: "ws = [w1, (we, st)]" "we_event we = Some e" "class_of e = Cls_WriteRows"
    by auto
  then obtain row where row: "row_event_of e = Some row" by (cases e) auto
  have "\<not> nonzero (sc_skip_to_timestamp demo_config)" "consistent (st_table_map demo_stream)" "(we, st) \<in> set ws"
    by (simp_all add: nonzero_def demo_config_def consistent_def demo_stream_def stream_init_def ws)
  from stream_tables_consistent [OF f this] f ws row show ?thesis by auto
qed

lemma demo_gtid_mode: "\<exists>b. gtid_mode demo_server demo_config b"
proof -
  let ?g = "\<lparr>sid = ''3e11fa47-71ca-11e1-9e33-c80aa9429562'', intervals = [(1, 6)]\<rparr>"
  let ?t = "''3e11fa47-71ca-11e1-9e33-c80aa9429562:1-5''"
  have g: "printable_gtid ?g" "packable_gtid ?g"
    by (simp_all add: printable_gtid_def packable_gtid_def valid_sid_def is_hexdigit_def to_lower_def wf_gtid_def
        wf_ivs_Cons nonneg_ivs_def u64_ivs_def)
  moreover have "gtidset_str [?g] = ?t"
    by (simp add: gtidset_str_def gtid_str_def format_interval_def str_int_def str_nat.simps digit_char_literals)
  ultimately have "gtidset_init (AText ?t) = Inr [?g]" using gtidset_init_str(1) [of "[?g]"] by simp
  moreover have "gtidset_encoded_length [?g] < 2147483622"
    by (simp add: gtidset_encoded_length_def gtid_encoded_length_def)
  ultimately obtain b where "binlog_dump_gtid_request demo_server demo_config ?t = Inr b"
    using gtid_request_layout [of ?t "[?g]" demo_config demo_server] g by (auto simp: demo_config_def)
  then have "gtid_mode demo_server demo_config b"
    by (simp add: gtid_mode_def demo_server_def demo_config_def accepts_all_def)
  then show ?thesis by blast
qed

theorem lost_connection_restarts_witness:
  "\<exists>b pre. gtid_mode demo_server demo_config b
    \<and> fetchone demo_net demo_server demo_config demo_stream [OperationalError 2013]
      = fetchone demo_net demo_server demo_config
          (demo_stream\<lparr>use_checksum := True, st_sent := CloseStream # pre @ [Raw b]\<rparr>) []"
proof -
  obtain b where b: "gtid_mode demo_server demo_config b" using demo_gtid_mode by blast
  have c: "connected_stream demo_stream" "connected_ctl demo_stream" "\<not> is_past_end_log_pos demo_stream" "2013 \<in> set MYSQL_EXPECTED_ERROR_CODES"
    and d: "st_sent demo_stream = []" "checksummed demo_server"
    by (simp_all add: demo_stream_def stream_init_def MYSQL_EXPECTED_ERROR_CODES_def checksummed_def demo_server_def)
  from c lost_connection_restarts [OF b] obtain pre where
    "fetchone demo_net demo_server demo_config demo_stream [OperationalError 2013]
      = fetchone demo_net demo_server demo_config (demo_stream\<lparr>use_checksum := checksummed demo_server,
          st_sent := st_sent demo_stream @ CloseStream # pre @ [Raw b]\<rparr>) []" by blast
  with b d show ?thesis by auto
qed

end
