(* ===== verification/Pipeline.thy ===== *)
theory Pipeline
  imports Stream_Reader_Props
begin

text \<open>
  From the events of the stream to the operations: \<open>MysqlReplication\<close> iterates over \<open>BinLogStreamReader\<close>, looks
  up the handler by the class of an event, and the handlers read the attributes of the event, for a row event
  its rows. Here the events of the stream (\<open>Event_Dispatch\<close>) become those of the handlers (\<open>Replication\<close>), so the
  loop of \<open>MysqlSync.run\<close> is joined to the bytes that arrive from the network.

  Reading the rows of an event takes fuel, and \<open>None\<close> is running out of it. A column of a partial update, the
  only one whose value is a JSON difference, belongs to an event without a handler. The reader has a file and a
  position from its first rotate event on; an event before that is the exception \<open>OutOfModel\<close>.
\<close>

section \<open>Definitions\<close>

fun cell_pyval :: "cell \<Rightarrow> pyval res" where
  "cell_pyval (JsonValue v) = Inr v"
| "cell_pyval (JsonDiffValue d) = Inl OutOfModel"

definition values_of :: "values_dict \<Rightarrow> row_values res" where
  "values_of d = map_res (\<lambda>(k, c). bind_res (cell_pyval c) (\<lambda>v. Inr (k, v))) d"

fun row_single :: "row \<Rightarrow> row_values res" where
  "row_single (ValuesRow im) = values_of (im_values im)"
| "row_single (UpdateRow b a) = Inl KeyError"

fun row_pair :: "row \<Rightarrow> (row_values \<times> row_values) res" where
  "row_pair (UpdateRow b a) =
     bind_res (values_of (im_values a)) (\<lambda>after_vs. bind_res (values_of (im_values b)) (\<lambda>before_vs. Inr (after_vs, before_vs)))"
| "row_pair (ValuesRow im) = Inl KeyError"

definition rows_info_of :: "rows_event \<Rightarrow> rows_info" where
  "rows_info_of ev = \<lparr>r_schema = re_schema ev, r_table = re_table ev, r_columns = re_columns ev, r_primary_key = re_primary_key ev\<rparr>"

definition event_rows ::
    "(row \<Rightarrow> 'a res) \<Rightarrow> nat \<Rightarrow> (row_notes \<Rightarrow> ('p, row \<times> row_notes) reader) \<Rightarrow> rows_event \<Rightarrow> 'p wrapper \<Rightarrow> 'a list res option" where
  "event_rows f fuel fetch ev w = map_option (\<lambda>(rs, w'). bind_res rs (map_res f)) (fetch_rows fuel fetch ev w)"

text \<open>A server older than 5.7 sends no \<open>last_committed\<close>, and the handler of GTID events raises.\<close>

fun binlog_event_of :: "'p packet_ops \<Rightarrow> row_env \<Rightarrow> nat \<Rightarrow> 'p wrapper \<Rightarrow> event_obj \<Rightarrow> binlog_event res option" where
  "binlog_event_of P E fuel w (Ev_TableMap e) = Some (Inr TableMapEvent)"
| "binlog_event_of P E fuel w (Ev_UpdateRows ev) =
     map_option (\<lambda>rs. Inr (UpdateRowsEvent (rows_info_of ev) rs)) (event_rows row_pair fuel (update_fetch_one_row P E ev) ev w)"
| "binlog_event_of P E fuel w (Ev_WriteRows ev) =
     map_option (\<lambda>rs. Inr (WriteRowsEvent (rows_info_of ev) rs)) (event_rows row_single fuel (write_fetch_one_row P E ev) ev w)"
| "binlog_event_of P E fuel w (Ev_DeleteRows ev) =
     map_option (\<lambda>rs. Inr (DeleteRowsEvent (rows_info_of ev) rs)) (event_rows row_single fuel (delete_fetch_one_row P E ev) ev w)"
| "binlog_event_of P E fuel w (Ev_Gtid g) =
     Some (case ge_last_committed g of None \<Rightarrow> Inl AttributeError | Some lc \<Rightarrow> Inr (GtidEvent (gtid_event_gtid g) lc))"
| "binlog_event_of P E fuel w (Ev_Xid x) = Some (Inr XidEvent)"
| "binlog_event_of P E fuel w (Ev_Query q) = Some (Inr (QueryEvent (qe_query q) (qe_schema q)))"
| "binlog_event_of P E fuel w (Ev_Rotate r) = Some (Inr (RotateEvent (ro_next_binlog r)))"
| "binlog_event_of P E fuel w (Ev_HeartbeatLog i) = Some (Inr HeartbeatLogEvent)"
| "binlog_event_of P E fuel w e = Some (Inr OtherEvent)"

definition item_of :: "'p packet_ops \<Rightarrow> row_env \<Rightarrow> nat \<Rightarrow> 'p wrapped_event \<times> stream \<Rightarrow> stream_item res option" where
  "item_of P E fuel x =
     (case (we_event (fst x), st_log_file (snd x), st_log_pos (snd x)) of
        (Some e, Some f, Some p) \<Rightarrow>
          map_option (\<lambda>r. bind_res r (\<lambda>b. Inr \<lparr>item_event = b, item_timestamp = timestamp (we_header (fst x)),
              stream_log_file = f, stream_log_pos = p\<rparr>))
            (binlog_event_of P E fuel (we_wrapper (fst x)) e)
      | _ \<Rightarrow> Some (Inl OutOfModel))"

fun stream_items ::
    "'p packet_ops \<Rightarrow> row_env \<Rightarrow> nat \<Rightarrow> ('p wrapped_event \<times> stream) list \<Rightarrow> py_exc option \<Rightarrow> (stream_item list \<times> py_exc option) option" where
  "stream_items P E fuel [] fin = Some ([], fin)"
| "stream_items P E fuel (x # xs) fin =
     (case item_of P E fuel x of
        None \<Rightarrow> None
      | Some (Inl e) \<Rightarrow> Some ([], Some e)
      | Some (Inr it) \<Rightarrow> map_option (\<lambda>(its, r). (it # its, r)) (stream_items P E fuel xs fin))"

fun outcome_exc :: "'p fetched \<Rightarrow> py_exc option" where
  "outcome_exc (Raised e) = Some e"
| "outcome_exc NoMore = None"
| "outcome_exc Waiting = Some Blocked"
| "outcome_exc (Fetched we) = None"

text \<open>What \<open>operation_stream\<close> yields for what arrives from the network.\<close>

definition replicate_stream ::
    "'p net_ops \<Rightarrow> server \<Rightarrow> stream_config \<Rightarrow> row_env \<Rightarrow> nat \<Rightarrow> stream \<Rightarrow> 'p net list \<Rightarrow> (yielded list \<times> py_exc option) option" where
  "replicate_stream N V S E fuel s items =
     (case stream_iter N V S s items of
        (ws, outcome, _) \<Rightarrow>
          map_option (\<lambda>(its, fin). operation_stream its fin) (stream_items (n_packet N) E fuel ws (outcome_exc outcome)))"

section \<open>Rows and operations\<close>

definition event_operations :: "'p packet_ops \<Rightarrow> row_env \<Rightarrow> nat \<Rightarrow> 'p wrapper \<Rightarrow> event_obj \<Rightarrow> operation list res option" where
  "event_operations P E fuel w e = map_option (\<lambda>r. bind_res r handle) (binlog_event_of P E fuel w e)"

fun cell_value :: "image_cell \<Rightarrow> pyval" where
  "cell_value (Holds v) = v"
| "cell_value _ = PNone"

definition named_values :: "rows_event \<Rightarrow> image_cell list \<Rightarrow> row_values" where
  "named_values ev cells = zip (map name (re_columns ev)) (map cell_value cells)"

text \<open>The values of an image as they are passed on: each column is converted by \<open>reset_col_val\<close>, in column order, and
  the first one that cannot be converted raises.\<close>

definition target_values :: "rows_event \<Rightarrow> image_cell list \<Rightarrow> row_values res" where
  "target_values ev cells =
     bind_res (map_res (\<lambda>(col, c). reset_col_val (ctype col) (cell_value c)) (zip (re_columns ev) cells))
       (\<lambda>vs. Inr (zip (map name (re_columns ev)) vs))"

definition target_update :: "rows_event \<Rightarrow> image_cell list \<times> image_cell list \<Rightarrow> (row_values \<times> row_values) res" where
  "target_update ev x =
     bind_res (target_values ev (snd x)) (\<lambda>a. bind_res (target_values ev (fst x)) (\<lambda>b. Inr (b, a)))"

definition plain_columns :: "rows_event \<Rightarrow> bool" where
  "plain_columns ev = list_all (\<lambda>c. ctype c \<in> set plain_types) (re_columns ev)"

lemma cell_pyval_of: "cell_pyval (cell_of c) = Inr (cell_value c)"
  by (cases c) simp_all

lemma values_of_named: "values_of (named_cells ev cells) = Inr (named_values ev cells)"
proof -
  have "map_res (\<lambda>(k, c). bind_res (cell_pyval c) (\<lambda>v. Inr (k, v))) (zip ks (map cell_of cells)) = Inr (zip ks (map cell_value cells))"
    for ks :: "string list"
    by (induction ks cells rule: list_induct2') (simp_all add: cell_pyval_of)
  then show ?thesis by (simp add: values_of_def named_cells_def named_values_def)
qed

lemma reset_loop_zip:
  assumes "distinct (map name cols)" "length vs = length cols" "fst ` set new \<inter> name ` set cols = {}"
    and "\<And>col v. (col, v) \<in> set (zip cols vs) \<Longrightarrow> map_of values (name col) = Some v"
  shows "reset_loop values cols new =
    bind_res (map_res (\<lambda>(col, v). reset_col_val (ctype col) v) (zip cols vs)) (\<lambda>ts. Inr (new @ zip (map name cols) ts))"
  using assms(2,1,3,4)
proof (induction vs cols arbitrary: new rule: list_induct2)
  case (Cons v vs col cols)
  have v: "map_of values (name col) = Some v" using Cons.prems(3) by simp
  show ?case
  proof (cases "reset_col_val (ctype col) v")
    case (Inr t)
    have "dict_set (name col) t new = new @ [(name col, t)]" using Cons.prems(2) by (intro dict_set_fresh) auto
    moreover have "reset_loop values cols (new @ [(name col, t)]) = bind_res (map_res (\<lambda>(col, v). reset_col_val (ctype col) v) (zip cols vs))
        (\<lambda>ts. Inr ((new @ [(name col, t)]) @ zip (map name cols) ts))"
      using Cons.prems by (intro Cons.IH) auto
    ultimately show ?thesis using Inr v
      by (cases "map_res (\<lambda>(col, v). reset_col_val (ctype col) v) (zip cols vs)") simp_all
  qed (simp add: v)
qed simp

lemma map_of_named:
  assumes "distinct (map name cols)" "(col, v) \<in> set (zip cols vs)"
  shows "map_of (zip (map name cols) vs) (name col) = Some v"
  using assms
proof (induction cols vs rule: list_induct2')
  case (4 x xs y ys)
  have "name col \<noteq> name x" if "(col, v) \<in> set (zip xs ys)" using "4.prems"(1) imageI [OF set_zip_leftD [OF that], of name] by auto
  with 4 show ?case by auto
qed simp_all

lemma reset_values_named:
  assumes "columns_named ev" "length cells = length (re_columns ev)"
  shows "reset_values (named_values ev cells) (re_columns ev) = target_values ev cells"
proof -
  let ?vs = "map cell_value cells"
  have d: "distinct (map name (re_columns ev))" using assms(1) by (simp add: columns_named_def)
  have "zip (re_columns ev) ?vs = map (\<lambda>(col, c). (col, cell_value c)) (zip (re_columns ev) cells)"
    by (simp add: zip_map2)
  moreover have "reset_loop (zip (map name (re_columns ev)) ?vs) (re_columns ev) [] =
      bind_res (map_res (\<lambda>(col, v). reset_col_val (ctype col) v) (zip (re_columns ev) ?vs))
        (\<lambda>ts. Inr ([] @ zip (map name (re_columns ev)) ts))"
    using assms(2) map_of_named [OF d] by (intro reset_loop_zip d) simp_all
  ultimately show ?thesis
    by (simp add: reset_values_def named_values_def target_values_def map_res_map case_prod_beta')
qed

lemma target_values_plain:
  assumes "plain_columns ev" "length cells = length (re_columns ev)"
  shows "target_values ev cells = Inr (named_values ev cells)"
proof -
  have "map_res (\<lambda>(col, c). reset_col_val (ctype col) (cell_value c)) (zip (re_columns ev) cells)
      = Inr (map (\<lambda>(col, c). cell_value c) (zip (re_columns ev) cells))"
    using assms(1) by (intro map_res_Inr) (auto simp: plain_columns_def list_all_iff reset_col_val_def dest!: set_zip_leftD)
  moreover have "map (\<lambda>(col, c). cell_value c) (zip (re_columns ev) cells) = map cell_value cells"
    using assms(2) by (simp add: case_prod_beta' map_snd_zip flip: map_map comp_def [of cell_value snd])
  ultimately show ?thesis by (simp add: target_values_def named_values_def)
qed

lemma image_cells_length: "image_bytes E ev cb cells = Some b \<Longrightarrow> length cells = length (re_columns ev)"
  by (auto simp: image_bytes_def put_image_def dest: put_cells_length split: if_splits)

lemma row_single_named: "columns_named ev \<Longrightarrow> is_values_row ev row cells \<Longrightarrow> row_single row = Inr (named_values ev cells)"
  by (cases row) (auto simp: is_values_row_def has_values_named values_of_named)

lemma row_pair_named:
  "columns_named ev \<Longrightarrow> is_update_row ev row x \<Longrightarrow> row_pair row = Inr (named_values ev (snd x), named_values ev (fst x))"
  by (cases row) (auto simp: is_update_row_def has_values_named values_of_named)

lemma map_res_all2:
  "list_all2 R xs ys \<Longrightarrow> (\<And>x y. R x y \<Longrightarrow> f x = Inr (g y)) \<Longrightarrow> map_res f xs = Inr (map g ys)"
  by (induction rule: list_all2_induct) auto

definition insert_of :: "rows_event \<Rightarrow> row_values \<Rightarrow> operation" where
  "insert_of ev vs = OperationDML (DmlInsert \<lparr>ins_schema = re_schema ev, ins_table = re_table ev,
     ins_values = vs, ins_primary_key = re_primary_key ev\<rparr>)"

definition delete_of :: "rows_event \<Rightarrow> row_values \<Rightarrow> operation" where
  "delete_of ev vs = OperationDML (DmlDelete \<lparr>del_schema = re_schema ev, del_table = re_table ev,
     del_values = vs, del_primary_key = re_primary_key ev\<rparr>)"

definition update_of :: "rows_event \<Rightarrow> row_values \<times> row_values \<Rightarrow> operation" where
  "update_of ev x = OperationDML (DmlUpdate \<lparr>upd_schema = re_schema ev, upd_table = re_table ev,
     after_values = snd x, before_values = fst x, upd_primary_key = re_primary_key ev\<rparr>)"

lemma handle_rows:
  assumes "columns_named ev"
  shows "list_all (\<lambda>cells. length cells = length (re_columns ev)) images \<Longrightarrow>
      handle (WriteRowsEvent (rows_info_of ev) (Inr (map (named_values ev) images)))
        = bind_res (map_res (target_values ev) images) (\<lambda>vs. Inr (map (insert_of ev) vs))"
    and "list_all (\<lambda>cells. length cells = length (re_columns ev)) images \<Longrightarrow>
      handle (DeleteRowsEvent (rows_info_of ev) (Inr (map (named_values ev) images)))
        = bind_res (map_res (target_values ev) images) (\<lambda>vs. Inr (map (delete_of ev) vs))"
    and "list_all (\<lambda>(b, a). length b = length (re_columns ev) \<and> length a = length (re_columns ev)) updates \<Longrightarrow>
      handle (UpdateRowsEvent (rows_info_of ev) (Inr (map (\<lambda>x. (named_values ev (snd x), named_values ev (fst x))) updates)))
        = bind_res (map_res (target_update ev) updates) (\<lambda>xs. Inr (map (update_of ev) xs))"
proof -
  note r = reset_values_named [OF assms]
  have w: "map_res (\<lambda>values. bind_res (reset_values values (re_columns ev)) (\<lambda>v. Inr (f v))) (map (named_values ev) images)
      = bind_res (map_res (target_values ev) images) (\<lambda>vs. Inr (map f vs))"
    if "list_all (\<lambda>cells. length cells = length (re_columns ev)) images" for f :: "row_values \<Rightarrow> operation_dml" and images
    using that
  proof (induction images)
    case (Cons c images)
    then show ?case by (cases "target_values ev c"; cases "map_res (target_values ev) images") (auto simp: r)
  qed simp
  have u: "map_res (\<lambda>(after_vs, before_vs). bind_res (reset_values after_vs (re_columns ev)) (\<lambda>a.
        bind_res (reset_values before_vs (re_columns ev)) (\<lambda>b. Inr (f b a))))
        (map (\<lambda>x. (named_values ev (snd x), named_values ev (fst x))) updates)
      = bind_res (map_res (target_update ev) updates) (\<lambda>xs. Inr (map (\<lambda>(b, a). f b a) xs))"
    if "list_all (\<lambda>(b, a). length b = length (re_columns ev) \<and> length a = length (re_columns ev)) updates"
    for f :: "row_values \<Rightarrow> row_values \<Rightarrow> operation_dml"
    using that
  proof (induction updates)
    case (Cons x updates)
    then show ?case
      by (cases "target_values ev (snd x)"; cases "target_values ev (fst x)"; cases "map_res (target_update ev) updates")
        (auto simp: r target_update_def [of ev x])
  qed simp
  have m: "bind_res (bind_res x (\<lambda>vs. Inr (map f vs))) (\<lambda>ds. Inr (map OperationDML ds)) = bind_res x (\<lambda>vs. Inr (map (\<lambda>v. OperationDML (f v)) vs))"
    for x :: "'x list res" and f by (cases x) simp_all
  show "handle (WriteRowsEvent (rows_info_of ev) (Inr (map (named_values ev) images)))
        = bind_res (map_res (target_values ev) images) (\<lambda>vs. Inr (map (insert_of ev) vs))"
    if "list_all (\<lambda>cells. length cells = length (re_columns ev)) images"
    by (simp add: handle_event_write_rows_def rows_info_of_def w [OF that] m insert_of_def [abs_def])
  show "handle (DeleteRowsEvent (rows_info_of ev) (Inr (map (named_values ev) images)))
        = bind_res (map_res (target_values ev) images) (\<lambda>vs. Inr (map (delete_of ev) vs))"
    if "list_all (\<lambda>cells. length cells = length (re_columns ev)) images"
    by (simp add: handle_event_delete_rows_def rows_info_of_def w [OF that] m delete_of_def [abs_def])
  show "handle (UpdateRowsEvent (rows_info_of ev) (Inr (map (\<lambda>x. (named_values ev (snd x), named_values ev (fst x))) updates)))
        = bind_res (map_res (target_update ev) updates) (\<lambda>xs. Inr (map (update_of ev) xs))"
    if "list_all (\<lambda>(b, a). length b = length (re_columns ev) \<and> length a = length (re_columns ev)) updates"
    by (simp add: handle_event_update_rows_def rows_info_of_def u [OF that, unfolded case_prod_beta'] m update_of_def [abs_def] case_prod_beta')
qed

lemma event_rows_read:
  assumes "\<exists>rs w'. fetch_rows fuel fetch ev w = Some (Inr rs, w') \<and> list_all2 R rs xs \<and> A w'"
    and "\<And>row x. R row x \<Longrightarrow> f row = Inr (g x)"
  shows "event_rows f fuel fetch ev w = Some (Inr (map g xs))"
  using assms map_res_all2 [of R _ xs f g] by (auto simp: event_rows_def)

lemma list_all2_image_lengths:
  "list_all2 (\<lambda>cells b. image_bytes E ev cb cells = Some b) images bs \<Longrightarrow>
   list_all (\<lambda>cells. length cells = length (re_columns ev)) images"
  by (induction rule: list_all2_induct) (auto dest: image_cells_length)

lemma list_all2_update_lengths:
  "list_all2 (\<lambda>x b. update_bytes E ev x = Some b) updates bs \<Longrightarrow>
   list_all (\<lambda>(b, a). length b = length (re_columns ev) \<and> length a = length (re_columns ev)) updates"
  by (induction rule: list_all2_induct) (auto simp: update_bytes_def dest: image_cells_length split: option.splits)

text \<open>C5: The bytes of a row event become its operations. For columns with distinct names, an event that encodes
  a list of row images gives one operation per image, in order, on the table of the event, with every column under
  its name and the converted value of the image; the first value that cannot be converted raises instead. Values of
  the plain types are passed on as they are. A column that is absent from the image is passed on like NULL.\<close>

theorem rows_event_operations:
  assumes "packet_laws P r" "re_complete ev" "columns_named ev"
    and "rest r w = concat bs @ z" "read_bytes w + int (length (concat bs)) = re_size ev" "length bs < fuel"
  shows "(list_all2 (\<lambda>cells b. image_bytes E ev (re_present ev) cells = Some b) images bs \<longrightarrow>
      event_operations P E fuel w (Ev_WriteRows ev)
        = Some (bind_res (map_res (target_values ev) images) (\<lambda>vs. Inr (map (insert_of ev) vs)))
      \<and> event_operations P E fuel w (Ev_DeleteRows ev)
        = Some (bind_res (map_res (target_values ev) images) (\<lambda>vs. Inr (map (delete_of ev) vs)))
      \<and> (plain_columns ev \<longrightarrow> map_res (target_values ev) images = Inr (map (named_values ev) images)))
    \<and> (list_all2 (\<lambda>x b. update_bytes E ev x = Some b) updates bs \<longrightarrow>
      event_operations P E fuel w (Ev_UpdateRows ev)
        = Some (bind_res (map_res (target_update ev) updates) (\<lambda>xs. Inr (map (update_of ev) xs))))"
proof (intro conjI impI)
  note h = handle_rows [OF assms(3)]
  assume i: "list_all2 (\<lambda>cells b. image_bytes E ev (re_present ev) cells = Some b) images bs"
  note len = list_all2_image_lengths [OF i]
  have "event_rows row_single fuel (write_fetch_one_row P E ev) ev w = Some (Inr (map (named_values ev) images))"
    using wrows.rows_read [of "(P, r, E, ev)" images bs ev w z fuel] assms i
    by (intro event_rows_read [OF _ row_single_named]) simp_all
  with h(1) [OF len] show "event_operations P E fuel w (Ev_WriteRows ev)
      = Some (bind_res (map_res (target_values ev) images) (\<lambda>vs. Inr (map (insert_of ev) vs)))"
    by (simp add: event_operations_def)
  have "event_rows row_single fuel (delete_fetch_one_row P E ev) ev w = Some (Inr (map (named_values ev) images))"
    using drows.rows_read [of "(P, r, E, ev)" images bs ev w z fuel] assms i
    by (intro event_rows_read [OF _ row_single_named]) simp_all
  with h(2) [OF len] show "event_operations P E fuel w (Ev_DeleteRows ev)
      = Some (bind_res (map_res (target_values ev) images) (\<lambda>vs. Inr (map (delete_of ev) vs)))"
    by (simp add: event_operations_def)
  show "map_res (target_values ev) images = Inr (map (named_values ev) images)" if "plain_columns ev"
    using len target_values_plain [OF that] by (intro map_res_Inr) (simp add: list_all_iff)
next
  assume u: "list_all2 (\<lambda>x b. update_bytes E ev x = Some b) updates bs"
  have "event_rows row_pair fuel (update_fetch_one_row P E ev) ev w
      = Some (Inr (map (\<lambda>x. (named_values ev (snd x), named_values ev (fst x))) updates))"
    using urows.rows_read [of "(P, r, E, ev)" updates bs ev w z fuel] assms u
    by (intro event_rows_read [OF _ row_pair_named]) simp_all
  with handle_rows(3) [OF assms(3) list_all2_update_lengths [OF u]]
  show "event_operations P E fuel w (Ev_UpdateRows ev)
      = Some (bind_res (map_res (target_update ev) updates) (\<lambda>xs. Inr (map (update_of ev) xs)))"
    by (simp add: event_operations_def)
qed

theorem rows_event_operations_witness:
  "event_operations list_packet demo_row_env 3 \<lparr>read_bytes = 0, data_buffer = [], packet = [4, 254, 255, 2, 104, 105, 6, 1, 0, 99]\<rparr>
      (Ev_WriteRows demo_rows_event) =
    Some (Inr [insert_of demo_rows_event [(''id'', PInt (- 2)), (''s'', PStr ''hi''), (''n'', PNone)],
      insert_of demo_rows_event [(''id'', PInt 1), (''s'', PNone), (''n'', PNone)]])"
proof -
  let ?w = "\<lparr>read_bytes = 0, data_buffer = [], packet = [4, 254, 255, 2, 104, 105, 6, 1, 0, 99]\<rparr> :: bytes wrapper"
  let ?bs = "[[4, 254, 255, 2, 104, 105], [6, 1, 0]] :: bytes list"
  let ?xs = "[[Holds (PInt (- 2)), Holds (PStr ''hi''), IsNull], [Holds (PInt 1), IsNull, IsNull]]"
  have "re_complete demo_rows_event" "columns_named demo_rows_event" "re_present demo_rows_event = [7]"
      "re_size demo_rows_event = 9"
    by (simp_all add: demo_rows_event_def columns_named_def)
  moreover have "plain_columns demo_rows_event" by code_simp
  moreover have "list_all2 (\<lambda>cells b. image_bytes demo_row_env demo_rows_event (re_present demo_rows_event) cells = Some b) ?xs ?bs"
    using demo_image_bytes by (simp add: \<open>re_present demo_rows_event = [7]\<close>)
  moreover have "rest (\<lambda>p. p) ?w = concat ?bs @ [99]" by (simp add: rest_def)
  moreover have "map (named_values demo_rows_event) ?xs = [[(''id'', PInt (- 2)), (''s'', PStr ''hi''), (''n'', PNone)],
      [(''id'', PInt 1), (''s'', PNone), (''n'', PNone)]]" by code_simp
  ultimately have "event_operations list_packet demo_row_env 3 ?w (Ev_WriteRows demo_rows_event)
      = Some (bind_res (map_res (target_values demo_rows_event) ?xs) (\<lambda>vs. Inr (map (insert_of demo_rows_event) vs)))"
      "map_res (target_values demo_rows_event) ?xs = Inr [[(''id'', PInt (- 2)), (''s'', PStr ''hi''), (''n'', PNone)],
        [(''id'', PInt 1), (''s'', PNone), (''n'', PNone)]]"
    using rows_event_operations [OF list_packet_laws, of demo_rows_event ?w ?bs "[99]" 3 demo_row_env ?xs "[]"]
    by (simp_all del: list.map map_res.simps)
  then show ?thesis by (simp del: map_res.simps)
qed

section \<open>The position of the reader\<close>

text \<open>Once the reader has a file and a position, it keeps having them.\<close>

definition positioned :: "stream \<Rightarrow> bool" where
  "positioned s = (st_log_file s \<noteq> None \<and> st_log_pos s \<noteq> None)"

definition maintains :: "('s \<Rightarrow> bool) \<Rightarrow> ('s, 'a) sx \<Rightarrow> bool" where
  "maintains I m = (\<forall>s r s'. I s \<longrightarrow> m s = (r, s') \<longrightarrow> I s')"

lemma maintainsD: "maintains I m \<Longrightarrow> I s \<Longrightarrow> m s = (r, s') \<Longrightarrow> I s'"
  by (auto simp: maintains_def)

lemma maintainsI: "(\<And>s. I s \<Longrightarrow> I (snd (m s))) \<Longrightarrow> maintains I m"
  by (force simp: maintains_def)

lemma maintains_keeps: "keeps I m \<Longrightarrow> maintains I m"
  by (auto simp: maintains_def keeps_def)

lemma maintains_bind: "maintains I m \<Longrightarrow> (\<And>x. maintains I (g x)) \<Longrightarrow> maintains I (bind_sx m g)"
proof (rule maintainsI)
  fix s
  assume m: "maintains I m" and g: "\<And>x. maintains I (g x)" and i: "I s"
  obtain r s' where ms: "m s = (r, s')" by fastforce
  with m i have i': "I s'" by (rule maintainsD)
  show "I (snd (bind_sx m g s))"
  proof (cases r)
    case (Inr x)
    with maintainsD [OF g i'] show ?thesis by (cases "g x s'") (auto simp: bind_sx_def ms)
  qed (simp add: bind_sx_def ms i')
qed

lemma maintains_unless: "maintains I m \<Longrightarrow> maintains I (\<lambda>s. if b s then (Inr x, s) else m s)"
  by (auto simp: maintains_def)

lemma positioned_frame [simp]:
  "positioned (s\<lparr>st_sent := x\<rparr>) = positioned s" "positioned (s\<lparr>use_checksum := c\<rparr>) = positioned s"
  "positioned (s\<lparr>connected_stream := c\<rparr>) = positioned s" "positioned (s\<lparr>connected_ctl := c\<rparr>) = positioned s"
  "positioned (s\<lparr>st_optional_meta_data := c\<rparr>) = positioned s" "positioned (s\<lparr>st_table_map := tm\<rparr>) = positioned s"
  "positioned (s\<lparr>st_dbms := d\<rparr>) = positioned s" "positioned (s\<lparr>is_past_end_log_pos := c\<rparr>) = positioned s"
  "positioned (s\<lparr>st_mysql_version := v\<rparr>) = positioned s"
  by (simp_all add: positioned_def)

lemma maintains_position: "maintains positioned (current_position V)"
  by (rule maintainsI) (auto simp: positioned_def current_position_def)

lemma maintains_prelude: "maintains positioned (prelude_bytes V S)"
proof -
  have "keeps positioned (set_mariadb_settings V S)"
    unfolding set_mariadb_settings_def by (intro keeps_rules; simp)
  then show ?thesis
    by (auto simp: prelude_bytes_def maintains_keeps keeps_lift split_beta
        intro!: maintains_bind maintains_position split: option.splits)
qed

lemma maintains_connect: "maintains positioned (connect_to_stream V S)" "maintains positioned (connect_to_ctl V)"
  unfolding connect_to_stream_def checksum_enabled_def register_slave_def connect_to_ctl_def check_optional_meta_data_def
  by (intro maintains_bind maintains_prelude; (rule maintains_keeps, intro keeps_rules; simp))+

lemma maintains_ensure_connected: "maintains positioned (ensure_connected V S)"
  unfolding ensure_connected_def by (intro maintains_bind maintains_unless maintains_connect)

lemma deliver_positioned: "positioned (snd (deliver S we s)) = positioned s"
proof (cases "we_event we")
  case (Some e)
  then show ?thesis by (cases e) (simp_all add: deliver_def Let_def)
qed (simp add: deliver_def)

lemma maintains_packet: "maintains positioned (handle_packet N V S pkt)"
  unfolding handle_packet_def
proof (intro maintains_bind)
  show "maintains positioned (receive N V S pkt)"
    by (auto simp: maintains_def receive_def split: sum.splits)
  show "maintains positioned (track_position we)" for we
    by (auto simp: maintains_def track_position_def positioned_def Let_def split: if_splits option.splits event_obj.splits)
  show "maintains positioned (check_end S)"
    by (auto simp: maintains_def check_end_def split: if_splits option.splits)
  show "maintains positioned (deliver S we)" for we
    by (rule maintainsI) (simp add: deliver_positioned)
qed

interpretation position: stream_invariant "\<lambda>S s. positioned s" "\<lambda>S we s. delivered S we \<and> positioned s"
  by unfold_locales (auto simp: lose_stream_def close_def Let_def
      dest: maintainsD [OF maintains_ensure_connected] maintainsD [OF maintains_packet] handle_packet_delivered)

section \<open>Enough fuel\<close>

text \<open>A size of fuel that covers the bytes of the row events is enough, when each of them has a column.\<close>

definition enough_fuel :: "nat \<Rightarrow> 'p wrapped_event \<Rightarrow> bool" where
  "enough_fuel fuel we =
     (case Option.bind (we_event we) row_event_of of
        None \<Rightarrow> True
      | Some ev \<Rightarrow> 0 < BitCount (re_present ev) \<and> nat (re_size ev - read_bytes (we_wrapper we)) < fuel)"

lemma event_rows_returns:
  assumes "\<And>ns. progress (fetch ns)" "nat (re_size ev - read_bytes w) < fuel"
  shows "event_rows f fuel fetch ev w \<noteq> None"
  using rows_loop_returns [OF assms] by (simp add: event_rows_def fetch_rows_def)

lemma binlog_event_returns:
  assumes "enough_fuel fuel we" "we_event we = Some e"
  shows "\<exists>r. binlog_event_of P E fuel (we_wrapper we) e = Some r"
  using assms unfolding not_None_eq [symmetric] by (cases e) (auto simp: enough_fuel_def event_rows_returns progress_fetch)

lemma stream_items_returns: "\<forall>x \<in> set ws. enough_fuel fuel (fst x) \<Longrightarrow> stream_items P E fuel ws fin \<noteq> None"
  by (induction ws) (auto simp: item_of_def binlog_event_returns split: option.splits sum.splits)

lemma replicate_stream_returns:
  assumes "stream_iter N V S st items = (ws, res)" "\<forall>x \<in> set ws. enough_fuel fuel (fst x)"
  shows "replicate_stream N V S E fuel st items \<noteq> None"
  using stream_items_returns [OF assms(2)] assms(1) by (cases res) (simp add: replicate_stream_def)

section \<open>From the network to the target\<close>

text \<open>\<open>carries P E fuel x ops\<close>: the event \<open>x\<close> is not a heartbeat, and its handler gives the operations \<open>ops\<close>.\<close>

definition carries :: "'p packet_ops \<Rightarrow> row_env \<Rightarrow> nat \<Rightarrow> 'p wrapped_event \<times> stream \<Rightarrow> operation list \<Rightarrow> bool" where
  "carries P E fuel x ops =
     (case we_event (fst x) of
        None \<Rightarrow> False
      | Some e \<Rightarrow> class_of e \<noteq> Cls_HeartbeatLog \<and> event_operations P E fuel (we_wrapper (fst x)) e = Some (Inr ops))"

lemma binlog_event_heartbeat:
  "binlog_event_of P E fuel w e = Some (Inr HeartbeatLogEvent) \<Longrightarrow> class_of e = Cls_HeartbeatLog"
  by (cases e) (auto split: option.splits)

lemma item_of_carries:
  assumes "carries P E fuel x ops" "positioned (snd x)"
  shows "\<exists>it. item_of P E fuel x = Some (Inr it) \<and> handle (item_event it) = Inr ops \<and> item_event it \<noteq> HeartbeatLogEvent"
proof -
  obtain e where e: "we_event (fst x) = Some e" "class_of e \<noteq> Cls_HeartbeatLog"
      "event_operations P E fuel (we_wrapper (fst x)) e = Some (Inr ops)"
    using assms(1) by (auto simp: carries_def split: option.splits)
  then obtain v where "binlog_event_of P E fuel (we_wrapper (fst x)) e = Some (Inr v)" "handle v = Inr ops"
    by (auto simp: event_operations_def elim: bind_res.elims)
  moreover from this e(2) have "v \<noteq> HeartbeatLogEvent" using binlog_event_heartbeat by blast
  ultimately show ?thesis using e(1) assms(2) by (auto simp: item_of_def positioned_def)
qed

lemma stream_items_carries:
  assumes "list_all2 (carries P E fuel) ws opss" "\<forall>x \<in> set ws. positioned (snd x)"
  shows "\<exists>its. stream_items P E fuel ws fin = Some (its, fin)
    \<and> list_all2 (\<lambda>it ops. handle (item_event it) = Inr ops \<and> item_event it \<noteq> HeartbeatLogEvent) its opss"
  using assms
proof (induction ws opss rule: list_all2_induct)
  case (Cons x ws ops opss)
  then obtain it its where "item_of P E fuel x = Some (Inr it)" "handle (item_event it) = Inr ops"
      "item_event it \<noteq> HeartbeatLogEvent" "stream_items P E fuel ws fin = Some (its, fin)"
      "list_all2 (\<lambda>it ops. handle (item_event it) = Inr ops \<and> item_event it \<noteq> HeartbeatLogEvent) its opss"
    using item_of_carries [OF Cons.hyps(1)] by auto
  then show ?case by (intro exI [of _ "it # its"]) simp
qed simp

lemma yields_operations:
  assumes "list_all2 (\<lambda>it ops. handle (item_event it) = Inr ops \<and> item_event it \<noteq> HeartbeatLogEvent) its opss"
    and "length its \<le> length ps"
  shows "map y_operation (concat (map2 yields_at ps its)) = concat opss"
  using assms
proof (induction its opss arbitrary: ps rule: list_all2_induct)
  case (Cons it its ops opss)
  then show ?case by (cases ps) (auto simp: yields_at_def ops_of_def comp_def)
qed simp

lemma replicate_stream_operations:
  assumes "stream_iter N V S st items = (ws, out, st', left)" "ws \<noteq> [] \<longrightarrow> positioned (snd (hd ws))"
    and "list_all2 (carries (n_packet N) E fuel) ws opss"
  shows "\<exists>ys. replicate_stream N V S E fuel st items = Some (ys, outcome_exc out) \<and> map y_operation ys = concat opss"
proof -
  have "positioned (snd x)" if "x \<in> set ws" for x
  proof (cases "x = hd ws")
    case False
    with that have "x \<in> set (tl ws)" by (cases ws) auto
    with assms(1,2) that show ?thesis
      using position.iter_from_first [OF assms(1) [unfolded stream_iter_def]] by fastforce
  qed (use that assms(2) in auto)
  with stream_items_carries [OF assms(3)] obtain its where its: "stream_items (n_packet N) E fuel ws (outcome_exc out) = Some (its, outcome_exc out)"
      "list_all2 (\<lambda>it ops. handle (item_event it) = Inr ops \<and> item_event it \<noteq> HeartbeatLogEvent) its opss"
    by blast
  let ?ys = "concat (map2 yields_at (4 # map stream_log_pos its) its)"
  have "\<forall>it \<in> set its. is_ok (handle (item_event it)) \<and> item_event it \<noteq> HeartbeatLogEvent"
    using its(2) by (fastforce simp: list_all2_conv_all_nth in_set_conv_nth is_ok_iff)
  then have "operation_stream its (outcome_exc out) = (?ys, outcome_exc out)"
    using gen_loop_ok [of its gen_init "outcome_exc out"] by (simp add: operation_stream_def gen_init_def)
  moreover have "map y_operation ?ys = concat opss" by (rule yields_operations [OF its(2)]) simp
  ultimately show ?thesis using assms(1) its(1) by (simp add: replicate_stream_def)
qed

text \<open>From the network to the target. When the packets that arrive carry the operations of whole transactions,
  DDL statements and nothing else, and the reader knows its position at the first event, then the operations go
  through the reader, the generator and the loop of \<open>run\<close>: it returns normally, and the statements of all
  operations, in the order of the packets, are durable on the target.\<close>

theorem binlog_reaches_target:
  assumes "faithful K" "reliable K" "ready s"
    and "stream_iter N V S st items = (ws, NoMore, st', left)" "ws \<noteq> [] \<longrightarrow> positioned (snd (hd ws))"
    and "list_all2 (carries (n_packet N) E fuel) ws opss"
    and "concat opss = stream_ops us" "\<forall>op \<in> set (stream_ops us). ok_op op"
  shows "\<exists>ops s'. replicate_stream N V S E fuel st items = Some ops \<and> run K clock ops s = (Inr (), s')
    \<and> unsettled (mc s') = [] \<and> durable (mc s') = durable (mc s) @ all_effects (exclude_tables s) (concat opss)"
proof -
  obtain ys where ys: "replicate_stream N V S E fuel st items = Some (ys, None)" "map y_operation ys = concat opss"
    using replicate_stream_operations [OF assms(4-6)] by auto
  with run_to_the_end [OF assms(1-3) _ assms(8), of ys clock] assms(7) show ?thesis by (simp add: effects_map)
qed

definition demo_gtid_packet :: bytes where
  "demo_gtid_packet = [0, 0, 241, 83, 101, 33, 1, 0, 0, 0, 65, 0, 0, 0, 69, 0, 0, 0, 0, 0]
     @ [1, 62, 17, 250, 71, 113, 202, 17, 225, 158, 51, 200, 10, 169, 66, 149, 98, 23, 0, 0, 0, 0, 0, 0, 0, 2, 4, 0, 0, 0, 0, 0, 0, 0, 5, 0, 0, 0, 0, 0, 0, 0] @ [9, 9, 9, 9]"

definition demo_begin_packet :: bytes where
  "demo_begin_packet = [0, 0, 241, 83, 101, 2, 1, 0, 0, 0, 43, 0, 0, 0, 112, 0, 0, 0, 0, 0]
     @ [1, 0, 0, 0, 0, 0, 0, 0, 1, 0, 0, 0, 0, 100, 0, 66, 69, 71, 73, 78] @ [9, 9, 9, 9]"

definition demo_table_packet :: bytes where
  "demo_table_packet = [0, 0, 241, 83, 101, 19, 1, 0, 0, 0, 49, 0, 0, 0, 161, 0, 0, 0, 0, 0]
     @ [7, 0, 0, 0, 0, 0, 1, 0, 1, 100, 0, 1, 116, 0, 1, 3, 0, 0, 4, 3, 2, 105, 100, 8, 1, 0] @ [9, 9, 9, 9]"

definition demo_rows_packet :: bytes where
  "demo_rows_packet = [0, 0, 241, 83, 101, 30, 1, 0, 0, 0, 45, 0, 0, 0, 206, 0, 0, 0, 0, 0]
     @ [7, 0, 0, 0, 0, 0, 1, 0, 2, 0, 1, 1, 0, 5, 0, 0, 0, 0, 6, 0, 0, 0] @ [9, 9, 9, 9]"

definition demo_xid_packet :: bytes where
  "demo_xid_packet = [0, 0, 241, 83, 101, 16, 1, 0, 0, 0, 31, 0, 0, 0, 237, 0, 0, 0, 0, 0]
     @ [77, 0, 0, 0, 0, 0, 0, 0] @ [9, 9, 9, 9]"

definition demo_transaction :: "(nat \<times> bytes) net list" where
  "demo_transaction = map (\<lambda>b. Arrived (0, b))
     [demo_gtid_packet, demo_begin_packet, demo_table_packet, demo_rows_packet, demo_xid_packet, [254, 0, 0, 0, 0]]"

definition demo_reader :: stream where
  "demo_reader = demo_stream\<lparr>st_mysql_version := [8, 0, 30], st_optional_meta_data := True\<rparr>"

definition demo_dml :: "int \<Rightarrow> operation_dml" where
  "demo_dml n = DmlInsert \<lparr>ins_schema = ''d'', ins_table = ''t'', ins_values = [(''id'', PInt n)], ins_primary_key = PkStr ''id''\<rparr>"

definition demo_gtid_operation :: operation_gtid where
  "demo_gtid_operation = \<lparr>server_uuid = ''3e11fa47-71ca-11e1-9e33-c80aa9429562'', xid = ''23'', last_committed = 4\<rparr>"

lemma demo_transaction_carries:
  "case stream_iter demo_net demo_server demo_config demo_reader demo_transaction
   of (ws, out, _) \<Rightarrow> out = NoMore \<and> positioned (snd (hd ws))
     \<and> list_all2 (carries seek_packet demo_row_env 9) ws
        [[OperationGtid demo_gtid_operation], [OperationBegin], [], [OperationDML (demo_dml 5), OperationDML (demo_dml 6)], [OperationCommit]]"
  by code_simp

theorem binlog_reaches_target_witness:
  "\<exists>ops s'. replicate_stream demo_net demo_server demo_config demo_row_env 9 demo_reader demo_transaction = Some ops
    \<and> run mysql_connector (\<lambda>_. 0) ops (demo_start True) = (Inr (), s') \<and> unsettled (mc s') = []
    \<and> durable (mc s') = [SDml ''REPLACE INTO `d`.`t`(id) VALUES(%s)'' [PInt 5], SDml ''REPLACE INTO `d`.`t`(id) VALUES(%s)'' [PInt 6]]"
proof -
  let ?us = "[Transaction demo_gtid_operation [demo_dml 5, demo_dml 6]]"
  let ?opss = "[[OperationGtid demo_gtid_operation], [OperationBegin], [], [OperationDML (demo_dml 5), OperationDML (demo_dml 6)], [OperationCommit]]"
  obtain ws st' left where iter: "stream_iter demo_net demo_server demo_config demo_reader demo_transaction = (ws, NoMore, st', left)"
      "ws \<noteq> [] \<longrightarrow> positioned (snd (hd ws))" "list_all2 (carries (n_packet demo_net) demo_row_env 9) ws ?opss"
    using demo_transaction_carries by (auto simp: demo_net_def)
  have ops: "concat ?opss = stream_ops ?us" by simp
  have ok: "\<forall>op \<in> set (stream_ops ?us). ok_op op" by code_simp
  have "all_effects (exclude_tables (demo_start True)) (concat ?opss) =
      [SDml ''REPLACE INTO `d`.`t`(id) VALUES(%s)'' [PInt 5], SDml ''REPLACE INTO `d`.`t`(id) VALUES(%s)'' [PInt 6]]"
    by code_simp
  moreover have "durable (mc (demo_start True)) = []" by (simp add: demo_start_def sync_start_def db_of_def)
  ultimately show ?thesis
    using binlog_reaches_target [OF mysql_connector_laws demo_ready(1) iter ops ok, of "\<lambda>_. 0" True] by simp
qed

end
