(* ===== verification/Program.thy ===== *)
theory Program
  imports Pipeline
begin

text \<open>
  The program as a whole: \<open>main\<close> in \<open>main.py\<close> constructs \<open>MysqlSync\<close> from the three dictionaries of the settings
  module and calls \<open>run\<close>. The constructor computes the start position from the configured one and the file of the
  checkpoint, passes it to \<open>MysqlReplication\<close>, whose constructor opens the reader, and connects to the target.

  The result is what \<open>main\<close> returns or raises, with the synchroniser it leaves, or \<open>None\<close> when the fuel for the rows
  of an event is used up. While the reader waits for the network, the outcome is \<open>Blocked\<close>.
\<close>

section \<open>Definitions\<close>

text \<open>The entries of the settings that reach the code: the arguments of the reader, the connection to the target
  and \<open>merge_trx\<close>.\<close>

record settings =
  source_settings :: stream_config
  source_log_pos :: "int option"
  source_log_file :: "string option"
  target_settings :: string
  sync_merge_trx :: bool

definition replication_init :: "settings \<Rightarrow> string \<Rightarrow> stream_config \<times> stream" where
  "replication_init c start =
     ((source_settings c)\<lparr>sc_auto_position := Some start\<rparr>, stream_init (source_log_pos c) (source_log_file c))"

text \<open>Without a configured position \<open>Checkpoint\<close> calls \<open>split\<close> on \<open>None\<close>.\<close>

definition program_init :: "connector \<Rightarrow> settings \<Rightarrow> files \<Rightarrow> ((stream_config \<times> stream) \<times> sync) res" where
  "program_init K c fs =
     (case sc_auto_position (source_settings c) of
        None \<Rightarrow> Inl AttributeError
      | Some g \<Rightarrow>
          bind_res (sync_init K (target_settings c) g (sync_merge_trx c) (of_int (sc_slave_heartbeat (source_settings c))) fs)
            (\<lambda>(start, s). Inr (replication_init c start, s)))"

definition main_program ::
    "'p net_ops \<Rightarrow> server \<Rightarrow> connector \<Rightarrow> clock \<Rightarrow> row_env \<Rightarrow> nat \<Rightarrow> settings \<Rightarrow> files \<Rightarrow> 'p net list \<Rightarrow>
     (unit res \<times> sync option) option" where
  "main_program N V K clock E fuel c fs items =
     (case program_init K c fs of
        Inl e \<Rightarrow> Some (Inl e, None)
      | Inr ((S, st), s) \<Rightarrow>
          map_option (\<lambda>ops. case run K clock ops s of (r, s') \<Rightarrow> (r, Some s')) (replicate_stream N V S E fuel st items))"

section \<open>From the settings to the target\<close>

lemma sync_init_ready:
  assumes "reliable K" "get_checkpoint_gtidset g fs = Inr start"
  shows "\<exists>s. sync_init K target g merge itvl fs = Inr (start, s) \<and> ready s \<and> durable (mc s) = [] \<and> exclude_tables s = []"
  using assms
  by (auto simp: sync_init_def client_init_def do_call_def set_cnt_def bind_sx_def Let_def reliable_def ready_def sync_start_def
      client_inv_def db_of_def db_step_def has_delay_init)

lemma main_program_run:
  assumes "reliable K" "sc_auto_position (source_settings c) = Some g" "get_checkpoint_gtidset g fs = Inr start"
    and "replication_init c start = (S, st)" "replicate_stream N V S E fuel st items = Some ops"
  obtains s where "ready s" "durable (mc s) = []" "exclude_tables s = []"
    and "main_program N V K clock E fuel c fs items = (case run K clock ops s of (r, s') \<Rightarrow> Some (r, Some s'))"
proof -
  obtain s where s: "ready s" "durable (mc s) = []" "exclude_tables s = []"
      "sync_init K (target_settings c) g (sync_merge_trx c) (of_int (sc_slave_heartbeat (source_settings c))) fs = Inr (start, s)"
    using sync_init_ready [OF assms(1,3)] by blast
  with assms that [of s] show ?thesis by (simp add: main_program_def program_init_def split: prod.split)
qed

text \<open>C1: The program replicates. With a start position that can be read, a target that accepts the calls, and packets
  that carry the operations of whole transactions and DDL statements up to the end of the stream, \<open>main\<close> returns
  normally and the target holds exactly the statements of these operations, in order, all durable.\<close>

theorem program_replicates:
  assumes "faithful K" "reliable K" "sc_auto_position (source_settings c) = Some g" "get_checkpoint_gtidset g fs = Inr start"
    and "replication_init c start = (S, st)" "stream_iter N V S st items = (ws, NoMore, st', left)"
    and "ws \<noteq> [] \<longrightarrow> positioned (snd (hd ws))" "list_all2 (carries (n_packet N) E fuel) ws opss"
    and "concat opss = stream_ops us" "\<forall>op \<in> set (stream_ops us). ok_op op"
  shows "\<exists>s'. main_program N V K clock E fuel c fs items = Some (Inr (), Some s')
    \<and> unsettled (mc s') = [] \<and> durable (mc s') = all_effects [] (stream_ops us)"
proof -
  obtain ys where ys: "replicate_stream N V S E fuel st items = Some (ys, None)" "map y_operation ys = stream_ops us"
    using replicate_stream_operations [OF assms(6-8)] assms(9) by auto
  obtain s where s: "ready s" "durable (mc s) = []" "exclude_tables s = []"
      "main_program N V K clock E fuel c fs items = (case run K clock (ys, None) s of (r, s') \<Rightarrow> Some (r, Some s'))"
    using main_program_run [OF assms(2-5) ys(1)] by blast
  obtain s' where "run K clock (ys, None) s = (Inr (), s')" "unsettled (mc s') = []"
      "durable (mc s') = durable (mc s) @ effects (exclude_tables s) ys"
    using run_to_the_end [OF assms(1,2) s(1) ys(2) assms(10)] by blast
  with s ys(2) show ?thesis by (simp add: effects_map)
qed

text \<open>C2: The program is atomic wherever it stops. When the packets that arrived carry a part of such a stream, cut
  anywhere, and the reader then raises or waits for the network, \<open>main\<close> ends with that exception or waits, and what
  is durable on the target is the effect of a number of complete transactions and DDL statements.\<close>

theorem program_interrupted_is_atomic:
  assumes "faithful K" "reliable K" "sc_auto_position (source_settings c) = Some g" "get_checkpoint_gtidset g fs = Inr start"
    and "replication_init c start = (S, st)" "stream_iter N V S st items = (ws, out, st', left)"
    and "out = Raised e \<or> out = Waiting \<and> e = Blocked"
    and "ws \<noteq> [] \<longrightarrow> positioned (snd (hd ws))" "list_all2 (carries (n_packet N) E fuel) ws opss"
    and "concat opss = take n (stream_ops us)" "\<forall>op \<in> set (stream_ops us). ok_op op"
  shows "\<exists>s' j. main_program N V K clock E fuel c fs items = Some (Inl e, Some s') \<and> j \<le> length us
    \<and> durable (mc s') = all_effects [] (stream_ops (take j us))"
proof -
  obtain ys where ys: "replicate_stream N V S E fuel st items = Some (ys, Some e)" "map y_operation ys = take n (stream_ops us)"
    using replicate_stream_operations [OF assms(6,8,9)] assms(7,10) by auto
  obtain s where s: "ready s" "durable (mc s) = []" "exclude_tables s = []"
      "main_program N V K clock E fuel c fs items = (case run K clock (ys, Some e) s of (r, s') \<Rightarrow> Some (r, Some s'))"
    using main_program_run [OF assms(2-5) ys(1)] by blast
  from run_interrupted [OF assms(1,2) s(1) ys(2) assms(11), of clock e] s(2-4) show ?thesis by auto
qed

section \<open>Files that a run leaves alone\<close>

definition written :: "string set" where
  "written = {''metrics.json'', ''ckpt.gtidset.json'', ''ckpt.logposition.txt''}"

definition file_is :: "string \<Rightarrow> file_content option \<Rightarrow> sync \<Rightarrow> bool" where
  "file_is f v s = (map_of (sfiles s) f = v)"

lemma maintains_modify: "(\<And>s. I s \<Longrightarrow> I (h s)) \<Longrightarrow> maintains I (modify_sx h)"
  by (simp add: maintains_def modify_sx_def)

lemma maintains_iff: "maintains I m = (\<forall>s. I s \<longrightarrow> I (snd (m s)))"
  by (metis maintainsD maintainsI prod.collapse)

lemma maintains_return: "(\<And>s. I s \<Longrightarrow> I (h s)) \<Longrightarrow> maintains I (\<lambda>s. (r, h s))"
  by (simp add: maintains_iff)

lemma maintains_if: "maintains I m \<Longrightarrow> maintains I m' \<Longrightarrow> maintains I (\<lambda>s. if b s then m s else m' s)"
  by (simp add: maintains_iff)

lemma maintains_on_mc: "maintains (file_is f v) (on_mc m)"
  by (rule maintainsI) (simp add: on_mc_def file_is_def split: prod.split)

lemma maintains_try: "maintains I m \<Longrightarrow> maintains I h \<Longrightarrow> maintains I (try_sx m h)"
  by (rule maintainsI) (auto simp: try_sx_def maintains_iff [of I h] dest: maintainsD [of I m] split: prod.split sum.split)

lemma maintains_lift: "maintains I (lift_sx r)"
  by (simp add: maintains_def lift_sx_def)

lemma maintains_read_clock: "maintains (file_is f v) (read_clock clock)"
  by (simp add: maintains_def read_clock_def file_is_def)

lemmas maintains_files = maintains_bind maintains_if maintains_return maintains_modify maintains_on_mc maintains_try maintains_lift maintains_read_clock


lemma maintains_merge_commit: "maintains (file_is f v) (merge_commit K)"
proof -
  have "maintains (file_is f v) (bind_sx (on_mc (push_commit K))
      (\<lambda>_. modify_sx (\<lambda>s. s\<lparr>allow_commit := False, metric := increment (metric_value MERGE_TRX) (metric s), allow_ckeckpoint := True\<rparr>)))"
    by (intro maintains_files) (simp add: file_is_def)
  then show ?thesis by (simp add: merge_commit_def maintains_iff)
qed

lemma maintains_dispatch: "maintains (file_is f v) (dispatch K clock y op)"
proof (cases op)
  case (OperationNonDML n)
  then show ?thesis
    unfolding OperationNonDML dispatch.simps op_nondml_def set_error_def
    by (intro maintains_files maintains_merge_commit) (simp_all add: file_is_def)
next
  case (OperationDML d)
  then show ?thesis
    unfolding OperationDML dispatch.simps op_dml_def set_error_def case_prod_beta
    by (intro maintains_files) (simp_all add: file_is_def)
next
  case (OperationGtid g)
  then show ?thesis
    unfolding OperationGtid dispatch.simps op_gtid_def
    by (intro maintains_files maintains_merge_commit maintains_unless; simp add: file_is_def)
next
  case OperationHeartbeat
  then show ?thesis
    unfolding OperationHeartbeat dispatch.simps op_heartbeat_def
    by (intro maintains_files maintains_merge_commit; simp add: file_is_def)
next
  case OperationCommit
  then show ?thesis
    unfolding OperationCommit dispatch.simps op_commit_def
    by (intro maintains_files; simp add: file_is_def)
next
  case OperationBegin
  then show ?thesis by (simp add: maintains_on_mc)
qed

lemma persist_metrics_file: "f \<notin> written \<Longrightarrow> file_is f v s \<Longrightarrow> file_is f v (persist_metrics s)"
  by (auto simp: file_is_def persist_metrics_def persist_def written_def)

lemma maintains_checkpoint: "f \<notin> written \<Longrightarrow> maintains (file_is f v) checkpoint"
  by (auto simp: maintains_def checkpoint_def file_is_def written_def persist_checkpoint_gitdset_def
      persist_checkpoint_position_def Let_def split: option.splits sum.splits)

lemma maintains_after:
  assumes "f \<notin> written"
  shows "maintains (file_is f v) (after_operation clock y)"
proof -
  have d: "maintains (file_is f v) (update_delay clock)"
    unfolding update_delay_def by (intro maintains_bind maintains_read_clock) (auto simp: maintains_def file_is_def split: sum.splits)
  have "file_is f v ((persist_metrics s)\<lparr>ts_0 := t\<rparr>)" if "file_is f v s" for s t
    using persist_metrics_file [OF assms that] by (simp add: file_is_def)
  then have p: "maintains (file_is f v) (periodic clock)"
    unfolding periodic_def using maintains_checkpoint [OF assms, of v]
    by (intro maintains_bind maintains_read_clock) (simp add: maintains_iff Let_def)
  show ?thesis
    unfolding after_operation_def by (intro maintains_bind maintains_modify d p) (simp_all add: file_is_def)
qed

lemma maintains_run_loop:
  assumes "f \<notin> written"
  shows "maintains (file_is f v) (run_loop K clock ys fin)"
proof (induction ys)
  case (Cons y ys)
  have i: "maintains (file_is f v) (iteration K clock y)"
    unfolding iteration_def by (intro maintains_bind maintains_dispatch maintains_after assms)
  show ?case
  proof (rule maintainsI)
    fix s assume s: "file_is f v s"
    obtain r1 s1 where "iteration K clock y s = (r1, s1)" by fastforce
    with maintainsD [OF i s this] show "file_is f v (snd (run_loop K clock (y # ys) fin s))"
      using maintainsD [OF Cons.IH s prod.collapse [symmetric]] maintainsD [OF Cons.IH _ prod.collapse [symmetric], of s1]
      by (auto split: sum.split)
  qed
qed (auto simp: maintains_def split: option.splits)

lemma run_files:
  assumes "run K clock ops s = (r, s')" "f \<notin> written"
  shows "map_of (sfiles s') f = map_of (sfiles s) f"
proof -
  let ?I = "file_is f (map_of (sfiles s) f)"
  have "maintains ?I (bind_sx (run_loop K clock (fst ops) (snd ops)) (\<lambda>_. bind_sx (merge_commit K) (\<lambda>_.
     bind_sx (modify_sx persist_metrics) (\<lambda>_. \<lambda>s. if error_exit s then (Inl (SystemExit 1), s) else (Inr (), s)))))"
    using persist_metrics_file [OF assms(2)]
    by (intro maintains_bind maintains_run_loop maintains_merge_commit maintains_modify assms(2)) (auto simp: maintains_def)
  from maintainsD [OF this _ assms(1) [unfolded run_unfold]] show ?thesis by (simp add: file_is_def run_entry_def)
qed

section \<open>An example\<close>

definition demo_rotate_packet :: bytes where
  "demo_rotate_packet = [0, 0, 0, 0, 0, 4, 1, 0, 0, 0, 44, 0, 0, 0, 0, 0, 0, 0, 0, 0]
     @ [4, 0, 0, 0, 0, 0, 0, 0, 98, 105, 110, 108, 111, 103, 46, 48, 48, 48, 48, 48, 49] @ [9, 9, 9, 9]"

definition demo_format_packet :: bytes where
  "demo_format_packet = [0, 0, 241, 83, 101, 15, 1, 0, 0, 0, 106, 0, 0, 0, 69, 0, 0, 0, 0, 0]
     @ [4, 0, 56, 46, 48, 46, 51, 48] @ replicate 48 0 @ [19, 0, 0, 0, 0, 0, 42] @ replicate 20 0 @ [9, 9, 9, 9]"

text \<open>The first packets of a connection (a rotate and a format description event) and one transaction.\<close>

definition demo_items :: "(nat \<times> bytes) net list" where
  "demo_items = map (\<lambda>b. Arrived (0, b))
     [demo_rotate_packet, demo_format_packet, demo_gtid_packet, demo_begin_packet, demo_table_packet, demo_rows_packet, demo_xid_packet]"

definition demo_end :: "(nat \<times> bytes) net list" where
  "demo_end = [Arrived (0, [254, 0, 0, 0, 0])]"

definition demo_settings :: settings where
  "demo_settings =
     \<lparr>source_settings = demo_config, source_log_pos = None, source_log_file = None, target_settings = ''db2'', sync_merge_trx = True\<rparr>"

abbreviation demo_start_text :: string where
  "demo_start_text \<equiv> ''3e11fa47-71ca-11e1-9e33-c80aa9429562:1-5''"

abbreviation demo_opss :: "operation list list" where
  "demo_opss \<equiv> [[], [], [OperationGtid demo_gtid_operation], [OperationBegin], [], [OperationDML (demo_dml 5), OperationDML (demo_dml 6)],
     [OperationCommit]]"

text \<open>Opening the connections first makes no difference; then the packets are decoded, whatever was sent.\<close>

lemma stream_iter_connected:
  assumes "ensure_connected V S st = (Inr (), st1)" "connected_stream st1" "connected_ctl st1"
    and "\<not> is_past_end_log_pos st" "\<not> is_past_end_log_pos st1"
  shows "stream_iter N V S st items = stream_iter N V S st1 items"
proof -
  have "ensure_connected V S st1 = (Inr (), st1)" using assms(2,3) by (simp add: ensure_connected_def bind_sx_def)
  then have "fetchone N V S st items = fetchone N V S st1 items"
    unfolding fetchone_def fetch_loop.simps [of N V S st items] fetch_loop.simps [of N V S st1 items] using assms by simp
  then show ?thesis by (simp add: stream_iter_def)
qed

definition demo_connected :: "sent list \<Rightarrow> stream" where
  "demo_connected sn =
     (stream_init None None)\<lparr>connected_stream := True, use_checksum := True, st_sent := sn, connected_ctl := True,
        st_optional_meta_data := True\<rparr>"

lemma demo_connect: "\<exists>sn. ensure_connected demo_server demo_config (stream_init None None) = (Inr (), demo_connected sn)"
proof -
  obtain b where b: "gtid_mode demo_server demo_config b" using demo_gtid_mode by blast
  have "checksummed demo_server" by (simp add: checksummed_def demo_server_def)
  with gtid_connect_fixed [OF b] obtain pre where c: "connect_to_stream demo_server demo_config (stream_init None None)
      = (Inr (), (stream_init None None)\<lparr>connected_stream := True, use_checksum := True, st_sent := pre @ [Raw b]\<rparr>)"
    by (auto simp: stream_init_def)
  have "to_upper CHR ''f'' = CHR ''F''" "to_upper CHR ''u'' = CHR ''U''" "to_upper CHR ''l'' = CHR ''L''" by code_simp+
  then have "connect_to_ctl demo_server s = (Inr (), s\<lparr>connected_ctl := True, st_optional_meta_data := True,
      st_sent := st_sent s @ [CtlSql (''SHOW VARIABLES LIKE '' @ quoted ''BINLOG_ROW_METADATA'' @ '';'')]\<rparr>)" for s
    by (simp add: connect_to_ctl_def check_optional_meta_data_def demo_server_def send_def modify_stream_def lift_sx_def bind_sx_def)
  then have "\<exists>sn. connect_to_ctl demo_server ((stream_init None None)\<lparr>connected_stream := True, use_checksum := True, st_sent := pre @ [Raw b]\<rparr>)
      = (Inr (), demo_connected sn)" by (simp add: demo_connected_def stream_init_def)
  moreover have "\<not> connected_stream (stream_init None None)" "\<not> connected_ctl (stream_init None None)" by (simp_all add: stream_init_def)
  ultimately show ?thesis by (auto simp: ensure_connected_def c bind_sx_def)
qed

lemma demo_items_carry:
  "case stream_iter demo_net demo_server demo_config (demo_connected sn) (demo_items @ demo_end)
   of (ws, out, _) \<Rightarrow> out = NoMore \<and> positioned (snd (hd ws)) \<and> list_all2 (carries seek_packet demo_row_env 9) ws demo_opss"
  by code_simp

lemma demo_cut_carries:
  "case stream_iter demo_net demo_server demo_config (demo_connected sn) (take 6 demo_items @ [OperationalError 1236])
   of (ws, out, _) \<Rightarrow> out = Raised DBError \<and> positioned (snd (hd ws)) \<and> list_all2 (carries seek_packet demo_row_env 9) ws (butlast demo_opss)"
  by code_simp

lemma demo_program:
  "sc_auto_position (source_settings demo_settings) = Some demo_start_text" "get_checkpoint_gtidset demo_start_text [] = Inr demo_start_text"
  "replication_init demo_settings demo_start_text = (demo_config, stream_init None None)"
  "\<exists>sn. \<forall>items. stream_iter demo_net demo_server demo_config (stream_init None None) items
     = stream_iter demo_net demo_server demo_config (demo_connected sn) items"
proof -
  show "sc_auto_position (source_settings demo_settings) = Some demo_start_text"
    by (simp add: demo_settings_def demo_config_def)
  show "get_checkpoint_gtidset demo_start_text [] = Inr demo_start_text" by code_simp
  show "replication_init demo_settings demo_start_text = (demo_config, stream_init None None)"
    by (simp add: replication_init_def demo_settings_def demo_config_def)
  obtain sn where sn: "ensure_connected demo_server demo_config (stream_init None None) = (Inr (), demo_connected sn)"
    using demo_connect by blast
  show "\<exists>sn. \<forall>items. stream_iter demo_net demo_server demo_config (stream_init None None) items
     = stream_iter demo_net demo_server demo_config (demo_connected sn) items"
    by (intro exI [of _ sn] allI stream_iter_connected [OF sn]) (simp_all add: demo_connected_def stream_init_def)
qed

abbreviation demo_source :: "source_unit list" where
  "demo_source \<equiv> [Transaction demo_gtid_operation [demo_dml 5, demo_dml 6]]"

lemma demo_source_ok: "\<forall>op \<in> set (stream_ops demo_source). ok_op op"
  by code_simp

lemma demo_program_iter:
  obtains ws st' left where "stream_iter demo_net demo_server demo_config (stream_init None None) (demo_items @ demo_end) = (ws, NoMore, st', left)"
    and "ws \<noteq> [] \<longrightarrow> positioned (snd (hd ws))" and "list_all2 (carries (n_packet demo_net) demo_row_env 9) ws demo_opss"
  using demo_program(4) demo_items_carry by (fastforce simp: demo_net_def)

theorem program_replicates_witness:
  "\<exists>s'. main_program demo_net demo_server mysql_connector (\<lambda>_. 0) demo_row_env 9 demo_settings [] (demo_items @ demo_end) = Some (Inr (), Some s')
    \<and> durable (mc s') = [SDml ''REPLACE INTO `d`.`t`(id) VALUES(%s)'' [PInt 5], SDml ''REPLACE INTO `d`.`t`(id) VALUES(%s)'' [PInt 6]]"
proof -
  obtain ws st' left where iter: "stream_iter demo_net demo_server demo_config (stream_init None None) (demo_items @ demo_end) = (ws, NoMore, st', left)"
      "ws \<noteq> [] \<longrightarrow> positioned (snd (hd ws))" "list_all2 (carries (n_packet demo_net) demo_row_env 9) ws demo_opss"
    by (rule demo_program_iter)
  have ops: "concat demo_opss = stream_ops demo_source" by simp
  have e: "all_effects [] (stream_ops demo_source) =
      [SDml ''REPLACE INTO `d`.`t`(id) VALUES(%s)'' [PInt 5], SDml ''REPLACE INTO `d`.`t`(id) VALUES(%s)'' [PInt 6]]"
    by code_simp
  show ?thesis
    using program_replicates [OF mysql_connector_laws demo_program(1-3) iter ops demo_source_ok, of "\<lambda>_. 0"] unfolding e by blast
qed

theorem program_interrupted_is_atomic_witness:
  "\<exists>s' j. main_program demo_net demo_server mysql_connector (\<lambda>_. 0) demo_row_env 9 demo_settings []
      (take 6 demo_items @ [OperationalError 1236]) = Some (Inl DBError, Some s') \<and> j \<le> 1
    \<and> durable (mc s') = all_effects [] (stream_ops (take j demo_source))"
proof -
  obtain ws st' left where iter: "stream_iter demo_net demo_server demo_config (stream_init None None)
      (take 6 demo_items @ [OperationalError 1236]) = (ws, Raised DBError, st', left)"
      "(Raised DBError :: (nat \<times> bytes) fetched) = Raised DBError \<or> (Raised DBError :: (nat \<times> bytes) fetched) = Waiting \<and> DBError = Blocked"
      "ws \<noteq> [] \<longrightarrow> positioned (snd (hd ws))" "list_all2 (carries (n_packet demo_net) demo_row_env 9) ws (butlast demo_opss)"
    using demo_program(4) demo_cut_carries by (fastforce simp: demo_net_def)
  have ops: "concat (butlast demo_opss) = take 4 (stream_ops demo_source)" by simp
  show ?thesis
    using program_interrupted_is_atomic [OF mysql_connector_laws demo_program(1-3) iter ops demo_source_ok, of "\<lambda>_. 0"] by simp
qed

section \<open>A restart\<close>

lemma program_init_files: "program_init K c fs = Inr (x, s) \<Longrightarrow> sfiles s = fs"
  by (cases "client_init K (target_settings c) \<lparr>hist = [], dml_cnt = 0\<rparr>"; cases "fst (client_init K (target_settings c) \<lparr>hist = [], dml_cnt = 0\<rparr>)")
    (auto simp: program_init_def sync_init_def sync_start_def split: option.splits sum.splits elim!: bind_res.elims)

lemma program_init_reader:
  "bind_res (program_init K c fs) (\<lambda>x. Inr (fst x)) =
     (case sc_auto_position (source_settings c) of
        None \<Rightarrow> Inl AttributeError
      | Some g \<Rightarrow> bind_res (get_checkpoint_gtidset g fs) (\<lambda>start.
          bind_res (fst (client_init K (target_settings c) \<lparr>hist = [], dml_cnt = 0\<rparr>)) (\<lambda>_. Inr (replication_init c start))))"
proof (cases "sc_auto_position (source_settings c)")
  case (Some g)
  obtain r s where "client_init K (target_settings c) \<lparr>hist = [], dml_cnt = 0\<rparr> = (r, s)" by fastforce
  with Some show ?thesis by (cases r; cases "get_checkpoint_gtidset g fs") (simp_all add: program_init_def sync_init_def)
qed (simp add: program_init_def)

text \<open>C10: A restart does not continue from the checkpoint. Whatever a run of the program recorded, the next start with
  the files it left opens the reader with the same request as a start with the files from before the run, or fails
  in the same way: no file that is written is the one that is looked up.\<close>

theorem restart_ignores_checkpoint:
  assumes "main_program N V K clock E fuel c fs items = Some (r, Some s')"
  shows "bind_res (program_init K' c' (sfiles s')) (\<lambda>x. Inr (fst x)) = bind_res (program_init K' c' fs) (\<lambda>x. Inr (fst x))"
proof -
  obtain S st s ops where i: "program_init K c fs = Inr ((S, st), s)" "run K clock ops s = (r, s')"
    using assms by (auto simp: main_program_def case_prod_beta split: sum.splits)
  have "map_of (sfiles s') ''ckpt.json'' = map_of fs ''ckpt.json''"
    using run_files [OF i(2), of "''ckpt.json''"] program_init_files [OF i(1)] by (simp add: written_def)
  then have "get_checkpoint_gtidset g (sfiles s') = get_checkpoint_gtidset g fs" for g
    by (simp add: get_checkpoint_gtidset_def)
  then show ?thesis by (simp add: program_init_reader split: option.split)
qed

theorem restart_ignores_checkpoint_witness:
  "\<exists>r s'. main_program demo_net demo_server mysql_connector (\<lambda>n. 100 * of_nat n) demo_row_env 9 demo_settings [] (demo_items @ demo_end)
      = Some (r, Some s')
    \<and> bind_res (program_init mysql_connector demo_settings (sfiles s')) (\<lambda>x. Inr (fst x)) = Inr (demo_config, stream_init None None)"
proof -
  obtain ws st' left where iter: "stream_iter demo_net demo_server demo_config (stream_init None None) (demo_items @ demo_end) = (ws, NoMore, st', left)"
      "ws \<noteq> [] \<longrightarrow> positioned (snd (hd ws))" "list_all2 (carries (n_packet demo_net) demo_row_env 9) ws demo_opss"
    by (rule demo_program_iter)
  obtain ops where "replicate_stream demo_net demo_server demo_config demo_row_env 9 (stream_init None None) (demo_items @ demo_end) = Some ops"
    using replicate_stream_operations [OF iter] by blast
  from main_program_run [OF mysql_connector_laws(2) demo_program(1-3) this, of "\<lambda>n. 100 * of_nat n"] obtain r s' where
    m: "main_program demo_net demo_server mysql_connector (\<lambda>n. 100 * of_nat n) demo_row_env 9 demo_settings [] (demo_items @ demo_end) = Some (r, Some s')"
    by (metis (no_types, lifting) case_prod_beta)
  obtain s where "sync_init mysql_connector (target_settings demo_settings) demo_start_text (sync_merge_trx demo_settings)
      (of_int (sc_slave_heartbeat (source_settings demo_settings))) [] = Inr (demo_start_text, s)"
    using sync_init_ready [OF mysql_connector_laws(2) demo_program(2)] by blast
  then have "bind_res (program_init mysql_connector demo_settings []) (\<lambda>x. Inr (fst x)) = Inr (demo_config, stream_init None None)"
    using demo_program(1,3) by (simp add: program_init_def)
  with m restart_ignores_checkpoint [OF m, of mysql_connector demo_settings] show ?thesis by auto
qed

end
