(* ===== verification/Spec2Isabelle.thy ===== *)
theory Spec2Isabelle
  imports Gtid_Set Sync_State Query_Props Sync_Old_Props Program
begin

text \<open>
  \<^bold>\<open>A verification of mysql-sync\<close>

  The program copies the changes of one MySQL server to another. It reads the replication stream of the source
  (the package \<open>pymysqlreplication\<close>), turns the events into operations (\<open>MysqlReplication\<close> in \<open>main.py\<close>), and
  executes them on the target, with merged commits, checkpoints and metrics (\<open>MysqlSync\<close>, \<open>MysqlClient\<close>,
  \<open>Checkpoint\<close>, \<open>MetricController\<close> in \<open>main.py\<close>). The theories follow the data from the socket to the target.

  \<^bold>\<open>Foundations.\<close> \<open>Py_Base\<close>: exceptions as the sum type \<open>res\<close>, readers and other stateful code as \<open>sx\<close>
  (state passing with an exception), bytes and the formats of \<open>struct\<close>, UTF-8, numerals, string methods and
  dictionaries with the interface \<open>dict_laws\<close>. \<open>Py_Regex\<close>: Python's backtracking matcher for the patterns in use.
  \<open>Py_Value\<close>: the values of columns. \<open>Constants\<close>: the numeric constants of \<open>constants/\<close>.

  \<^bold>\<open>From the socket to events.\<close>
  \<^item> \<open>Stream_Request\<close>, \<open>Stream_Reader\<close> (\<open>binlogstream.py\<close>): the settings and the state of \<open>BinLogStreamReader\<close>,
    registration, the dump requests, and \<open>fetchone\<close> as a recursion over what arrives from the network.
    \<open>Stream_Request_Props\<close>: the length that a request announces against the one it sends. \<open>Stream_Reader_Props\<close>:
    the interface \<open>stream_invariant\<close> for facts that every step of the reader keeps, with interpretations for the
    class of a returned event, the table map and, in \<open>Pipeline\<close>, the position;
    the end of an iteration, and what a lost connection does.
  \<^item> \<open>Event_Dispatch\<close> (constructor of \<open>BinLogPacketWrapper\<close> in \<open>packet.py\<close>): header, event map, construction.
  \<^item> \<open>Packet\<close> (the readers in \<open>packet.py\<close>), \<open>Bytes_Util\<close> (\<open>util/bytes.py\<close>), \<open>Json_Binary\<close> (\<open>json_binary.py\<close>):
    the predicate \<open>decodes r m b v\<close> (the reader \<open>m\<close> turns the bytes \<open>b\<close> into \<open>v\<close> and consumes just them) is composed
    along the code; all round trips below are stated with it.
  \<^item> \<open>Events\<close> (\<open>event.py\<close>), with \<open>Events_Props\<close> and \<open>Query_Props\<close>: the constructors of all events, the checksum,
    GTID events and query events with their status variables.
  \<^item> \<open>Columns\<close> (\<open>table.py\<close>, \<open>bitmap.py\<close>, the attributes of \<open>column.py\<close>), \<open>Charset\<close> (\<open>constants/CHARSET.py\<close>),
    \<open>Row_Values\<close> and \<open>Row_Event\<close> (columns, \<open>RowsEvent\<close> and its subclasses in \<open>row_event.py\<close>), \<open>Row_Codec\<close> and
    \<open>Row_Image\<close> (an encoder and the round trip of rows, with the interface \<open>row_fetcher\<close> shared by the three
    kinds of row events), \<open>Row_Progress\<close> (the loop over the rows ends), \<open>Table_Map\<close> and \<open>Table_Map_Props\<close>
    (\<open>TableMapEvent\<close> and its optional metadata).

  \<^bold>\<open>From events to the target.\<close>
  \<^item> \<open>Gtid\<close>, \<open>Gtid_Codec\<close>, \<open>Gtid_Set\<close> (\<open>gtid.py\<close>): intervals, their arithmetic against sets of transactions, the
    textual and the binary form.
  \<^item> \<open>Operations\<close>, \<open>Nondml\<close>, \<open>Replication\<close> (\<open>main.py\<close>): operations and their SQL, the classification of DDL
    statements, the event handlers and the generator \<open>operation_stream\<close>.
  \<^item> \<open>Client\<close>, \<open>Metrics\<close>, \<open>Sync\<close> (\<open>main.py\<close>): the connection to the target over the connector as a parameter,
    counters and checkpoint files, and the loop of \<open>MysqlSync.run\<close>. \<open>Sync_Order\<close>: what is executed is a prefix of
    the stream, in order. \<open>Sync_Plan\<close>: the loop refines an abstract plan of commands; an interrupted run is atomic
    and a complete run durable, but a failing statement commits a part of its transaction. \<open>Sync_State\<close>: positions,
    counters and checkpoints, and a checkpoint that runs ahead of the target.
  \<^item> \<open>Pipeline\<close> (\<open>operation_stream\<close> over \<open>BinLogStreamReader\<close>): the events of the stream become those of the
    handlers, so the two halves are joined: the bytes of a row event become operations, and the packets of whole
    transactions become durable statements on the target.
  \<^item> \<open>Program\<close> (\<open>main\<close> and the constructors of \<open>MysqlSync\<close> and \<open>MysqlReplication\<close>): the whole program from the
    settings to the target; it replicates, is atomic wherever it stops or waits, and does not find its checkpoint.
  \<^item> \<open>Sync_Old\<close>, \<open>Sync_Old_Props\<close> (\<open>main.bak1.py\<close>, what differs from \<open>main.py\<close>): the older client and loop, which
    follow the same plan; they are atomic whatever fails, and agree with \<open>main.py\<close> where nothing fails.
  \<^item> This theory: the request that resumes from a checkpoint.

  \<^bold>\<open>Parameters.\<close> PyMySQL's packet (\<open>packet_ops\<close>; laws \<open>packet_laws\<close> and \<open>rewind_laws\<close>, with \<open>list_packet\<close> and
  \<open>seek_packet\<close> as instances), the servers' answers (\<open>server\<close>), PyMySQL's encodings, Python's other codecs and the
  order of sets (\<open>row_env\<close>), and the connector of the target are arguments of the definitions.

  \<^bold>\<open>Fuel.\<close> The loops of the readers have fuel: the bytes left in the packet (\<open>fuel_of\<close>) or the length of the block
  (\<open>until_end\<close>), which is enough because every iteration consumes a byte. \<open>fetch_rows\<close> has explicit fuel; the size of
  the event is enough when a column is present (\<open>rows_terminate\<close>, \<open>replicate_stream_returns\<close>). \<open>parse_json\<close>
  has room for the nesting, as Python
  has a recursion limit. Iteration over the stream is bounded by the items of the network
  (\<open>stream_iteration_ends\<close>).

  \<^bold>\<open>Not modelled.\<close> Printing and logging (\<open>dump\<close>, \<open>__repr__\<close>, \<open>Logger\<close>), reading the command line and importing
  the settings module, \<open>MysqlRowCompare\<close> (its methods are empty), \<open>get_gtid\<close> of \<open>main.bak1.py\<close> (a query whose answer is
  not used), and the files under \<open>scripts\<close>, which start containers, generate random statements and compare live
  databases. Characters are those with a code below 256; text outside of this range is the exception
  \<open>OutOfModel\<close>. Floating-point columns are kept as their bytes. Writing a file succeeds. A call on a connection to the
  source may fail at any point (\<open>srv_accepts\<close>), but what a server answers to a query is the same at every connection.
  The encoders of the round trips write what the readers are specified for, not every layout of a server. After an exception inside the constructor of an
  event the model returns the table map from before it; the reader is not used again then.
\<close>

section \<open>Resuming from a checkpoint\<close>

lemma split_comma_space:
  assumes "ts \<noteq> []" "\<forall>t \<in> set ts. CHR '','' \<notin> set t"
  shows "split_on CHR '','' (join '', '' ts) = hd ts # map ((#) CHR '' '') (tl ts)"
  using assms
proof (induction "'', ''" ts rule: join.induct)
  case (3 x y zs)
  then show ?case by (simp add: split_on_append)
qed (simp_all add: split_on_no_sep)

definition up_to :: "string \<times> int \<Rightarrow> gtid" where
  "up_to kv = \<lparr>sid = fst kv, intervals = [(1, snd kv + 1)]\<rparr>"

lemma checkpoint_entry:
  assumes "valid_sid k" "1 \<le> v"
  shows "gtid_init (strip [CHR '' '', CHR 0x0A] (k @ '':1-'' @ str_int v)) None [] = Inr (up_to (k, v))"
    and "gtid_init (strip [CHR '' '', CHR 0x0A] (CHR '' '' # k @ '':1-'' @ str_int v)) None [] = Inr (up_to (k, v))"
    and "CHR '','' \<notin> set (k @ '':1-'' @ str_int v)"
proof -
  have t: "k @ '':1-'' @ str_int v = k @ '':'' @ join '':'' [str_nat 1 @ ''-'' @ str_nat (nat v)]"
    using assms(2) by (simp add: str_int_nonneg str_nat.simps digit_char_literals)
  have p: "map_res parse_interval [str_nat 1 @ ''-'' @ str_nat (nat v)] = Inr [(1, v + 1)]"
    using parse_interval_range [of 1 "nat v"] assms(2) by simp
  have i: "gtid_init (k @ '':1-'' @ str_int v) None [] = Inr (up_to (k, v))"
    unfolding t up_to_def fst_conv snd_conv
    by (rule gtid_init_text [OF assms(1) _ _ p]) (use assms(2) str_nat_digits in \<open>auto simp: wf_ivs_Cons interval_text_def\<close>)
  have digits: "x \<notin> {CHR '','', CHR '' '', CHR 0x0A}" if "x \<in> set (str_nat (nat v))" for x
    using str_nat_digits [of "nat v"] that by (auto simp: is_digit_def)
  have c: "x \<notin> {CHR '','', CHR '' '', CHR 0x0A}" if "x \<in> set (k @ '':1-'' @ str_int v)" for x
    using that valid_sid_chars [OF assms(1)] digits [of x] assms(2) by (auto simp: str_int_nonneg)
  have s: "strip [CHR '' '', CHR 0x0A] t = t" if "t \<noteq> []" "\<And>x. x \<in> set t \<Longrightarrow> x \<notin> {CHR '','', CHR '' '', CHR 0x0A}" for t
    using that(2) [OF hd_in_set [OF that(1)]] that(2) [OF last_in_set [OF that(1)]] by (intro strip_id that(1)) auto
  have s: "strip [CHR '' '', CHR 0x0A] (k @ '':1-'' @ str_int v) = k @ '':1-'' @ str_int v"
    by (rule s [OF _ c]) simp_all
  show "gtid_init (strip [CHR '' '', CHR 0x0A] (k @ '':1-'' @ str_int v)) None [] = Inr (up_to (k, v))"
    by (simp only: s i)
  show "gtid_init (strip [CHR '' '', CHR 0x0A] (CHR '' '' # k @ '':1-'' @ str_int v)) None [] = Inr (up_to (k, v))"
    using s i by (simp add: strip_Cons)
  show "CHR '','' \<notin> set (k @ '':1-'' @ str_int v)" using c by blast
qed

lemma checkpoint_text_init:
  assumes "d \<noteq> []" "\<forall>(k, v) \<in> set d. valid_sid k \<and> 1 \<le> v"
  shows "gtidset_init (AText (render_gtidset d)) = Inr (map up_to d)"
proof -
  define f where "f = (\<lambda>(key, value :: int). key @ '':1-'' @ str_int value)"
  have r: "render_gtidset d = join '', '' (map f d)" by (simp add: render_gtidset_def f_def)
  let ?g = "\<lambda>x. gtid_init (strip [CHR '' '', CHR 0x0A] x) None []"
  have e: "?g (f kv) = Inr (up_to kv)" "?g (CHR '' '' # f kv) = Inr (up_to kv)" "CHR '','' \<notin> set (f kv)"
    if "kv \<in> set d" for kv
    using that assms(2) checkpoint_entry [of "fst kv" "snd kv"] by (auto simp: split_beta f_def)
  obtain x xs where d: "d = x # xs" using assms(1) by (cases d) auto
  have 1: "split_on CHR '','' (render_gtidset d) = f x # map (\<lambda>kv. CHR '' '' # f kv) xs"
    unfolding r using split_comma_space [of "map f d"] e(3) by (simp add: d comp_def)
  have 2: "map_res ?g (map (\<lambda>kv. CHR '' '' # f kv) ys) = Inr (map up_to ys)" if "set ys \<subseteq> set d" for ys
    using that e(2) by (induction ys) auto
  have "map_res ?g (split_on CHR '','' (render_gtidset d)) = Inr (map up_to d)"
    unfolding 1 map_res.simps using e(1) [of x] 2 [of xs] by (auto simp: d)
  moreover have "render_gtidset d \<noteq> []"
    unfolding r by (cases xs) (auto simp: d f_def split_beta)
  ultimately show ?thesis by simp
qed

text \<open>C40: opening the stream with the text that the checkpoint renders sends one request whose length field counts
  the bytes that follow, and whose payload a server decodes to exactly the transactions 1 to n of every server
  with the recorded number n: the dump starts after the checkpoint, with no gap and no overlap.\<close>

theorem resume_request_is_checkpoint:
  assumes "d \<noteq> []" "\<forall>(k, v) \<in> set d. valid_sid k \<and> map to_lower k = k \<and> 1 \<le> v \<and> v < 2 ^ 63"
    and "length d < 50000000" "0 \<le> sc_server_id S" "sc_server_id S < 4294967296"
  shows "\<exists>b gs. binlog_dump_gtid_request V S (render_gtidset d) = Inr b \<and> announced b = int (length b) - 4
    \<and> gtidset_decode (drop 30 b) = Inr (gs, [])
    \<and> gset_trx gs = {(k, n). \<exists>v. (k, v) \<in> set d \<and> 1 \<le> n \<and> n \<le> v}"
proof -
  have "gtidset_init (AText (render_gtidset d)) = Inr (map up_to d)"
    using assms(2) by (intro checkpoint_text_init [OF assms(1)]) auto
  moreover have "\<forall>g \<in> set (map up_to d). packable_gtid g"
    using assms(2) by (auto simp: packable_gtid_def up_to_def wf_gtid_def wf_ivs_Cons u64_ivs_def)
  moreover have "gtidset_encoded_length (map up_to d) = 8 + 40 * int (length d)"
    by (induction d) (simp_all add: gtidset_encoded_length_def gtid_encoded_length_def up_to_def)
  with assms(3) have "gtidset_encoded_length (map up_to d) < 2147483622" by simp
  ultimately obtain b where "binlog_dump_gtid_request V S (render_gtidset d) = Inr b" "announced b = int (length b) - 4"
      "gtidset_decode (drop 30 b) = Inr (map up_to d, [])"
    using gtid_request_layout [OF _ _ _ assms(4,5)] by blast
  moreover have "gset_trx (map up_to d) = {(k, n). \<exists>v. (k, v) \<in> set d \<and> 1 \<le> n \<and> n \<le> v}"
    by (force simp: gset_trx_def gtid_trx_def trx_def up_to_def)
  ultimately show ?thesis by blast
qed

theorem resume_request_is_checkpoint_witness:
  "\<exists>b gs. binlog_dump_gtid_request demo_server demo_config (render_gtidset [(''3e11fa47-71ca-11e1-9e33-c80aa9429562'', 5)]) = Inr b
    \<and> announced b = int (length b) - 4 \<and> gtidset_decode (drop 30 b) = Inr (gs, [])
    \<and> gset_trx gs = {(''3e11fa47-71ca-11e1-9e33-c80aa9429562'', n) | n. 1 \<le> n \<and> n \<le> 5}"
proof -
  have "valid_sid ''3e11fa47-71ca-11e1-9e33-c80aa9429562''"
    by (simp add: valid_sid_def is_hexdigit_def)
  moreover have "map to_lower ''3e11fa47-71ca-11e1-9e33-c80aa9429562'' = ''3e11fa47-71ca-11e1-9e33-c80aa9429562''"
    by (simp add: to_lower_def)
  moreover have "sc_server_id demo_config = 3" by (simp add: demo_config_def)
  ultimately show ?thesis
    using resume_request_is_checkpoint [of "[(''3e11fa47-71ca-11e1-9e33-c80aa9429562'', 5)]" demo_config demo_server]
    by auto
qed

end
